(* ===== verification/Prelude.thy ===== *)
theory Prelude
  imports Main "HOL-Library.Sublist" "HOL-Library.Word" "HOL-Library.Signed_Division"
begin

text \<open>
  Shared ground of the development: error values and the outcome of a Go call, the part of the
  Go standard library on strings that the sources use (\<open>strings\<close>, \<open>strconv\<close>, the verbs of
  \<open>fmt\<close>), and generic lemmas on lists. A Go string is a list of bytes, so it is a HOL
  \<open>string\<close>; \<open>len\<close> counts bytes on both sides.
\<close>

section \<open>Named collections\<close>

named_theorems go_str \<open>facts on the modelled string library\<close>
named_theorems go_enc \<open>facts on encodings\<close>

section \<open>Errors and outcomes\<close>

text \<open>
  An error value carries what \<open>apierrors.IsNotFound\<close> and \<open>apierrors.IsAlreadyExists\<close> report about
  it and its text. \<open>fmt.Errorf\<close> with \<open>%w\<close> keeps the reason of what it wraps, without \<open>%w\<close>
  it makes an error with neither reason.
\<close>

datatype reason = NotFound | AlreadyExists | OtherReason

datatype error = Error (err_reason: reason) (err_text: string)

definition IsNotFound :: "error \<Rightarrow> bool" where
  "IsNotFound e = (err_reason e = NotFound)"

definition IsAlreadyExists :: "error \<Rightarrow> bool" where
  "IsAlreadyExists e = (err_reason e = AlreadyExists)"

definition Errorf :: "string \<Rightarrow> error" where
  "Errorf msg = Error OtherReason msg"

definition Errorw :: "string \<Rightarrow> error \<Rightarrow> error" where
  "Errorw pre e = Error (err_reason e) (pre @ err_text e)"

text \<open>A Go call either returns or panics (a nil dereference).\<close>

datatype 'a outcome = Return 'a | Panic

section \<open>Decimal numerals: the verb \<open>%d\<close>\<close>

definition digit_char :: "nat \<Rightarrow> char" where
  "digit_char n = char_of (48 + n)"

definition is_digit :: "char \<Rightarrow> bool" where
  "is_digit c = (48 \<le> (of_char c :: nat) \<and> (of_char c :: nat) \<le> 57)"

definition digit_val :: "char \<Rightarrow> nat" where
  "digit_val c = of_char c - 48"

fun dec_digits :: "nat \<Rightarrow> string" where
  "dec_digits n = (if n < 10 then [digit_char n] else dec_digits (n div 10) @ [digit_char (n mod 10)])"

declare dec_digits.simps [simp del]

definition itoa :: "int \<Rightarrow> string" where
  "itoa i = (if i < 0 then ''-'' @ dec_digits (nat (- i)) else dec_digits (nat i))"

section \<open>The verb \<open>%q\<close>\<close>

definition hex_digit :: "nat \<Rightarrow> char" where
  "hex_digit n = ''0123456789abcdef'' ! n"

text \<open>
  \<open>strconv.Quote\<close>: the short escapes, \<open>\x\<close> for the other control bytes, and every byte from 0x80
  on kept, as for the printable UTF-8 text it is used on.
\<close>

definition quote_byte :: "char \<Rightarrow> string" where
  "quote_byte c = (let n = (of_char c :: nat) in
     if n = 34 then [char_of (92::nat), char_of (34::nat)]
     else if n = 92 then [char_of (92::nat), char_of (92::nat)]
     else if n = 7 then [char_of (92::nat), CHR ''a'']
     else if n = 8 then [char_of (92::nat), CHR ''b'']
     else if n = 9 then [char_of (92::nat), CHR ''t'']
     else if n = 10 then [char_of (92::nat), CHR ''n'']
     else if n = 11 then [char_of (92::nat), CHR ''v'']
     else if n = 12 then [char_of (92::nat), CHR ''f'']
     else if n = 13 then [char_of (92::nat), CHR ''r'']
     else if n < 32 \<or> n = 127
       then [char_of (92::nat), CHR ''x'', hex_digit (n div 16), hex_digit (n mod 16)]
     else [c])"

definition Quote :: "string \<Rightarrow> string" where
  "Quote s = [char_of (34::nat)] @ concat (map quote_byte s) @ [char_of (34::nat)]"

section \<open>Package \<open>strings\<close>\<close>

definition HasPrefix :: "string \<Rightarrow> string \<Rightarrow> bool" where
  "HasPrefix s p = prefix p s"

definition TrimPrefix :: "string \<Rightarrow> string \<Rightarrow> string" where
  "TrimPrefix s p = (if HasPrefix s p then drop (length p) s else s)"

fun Index :: "string \<Rightarrow> string \<Rightarrow> int" where
  "Index [] sub = (if sub = [] then 0 else -1)"
| "Index (x # xs) sub =
     (if prefix sub (x # xs) then 0
      else (let i = Index xs sub in if i < 0 then -1 else i + 1))"

definition Contains :: "string \<Rightarrow> string \<Rightarrow> bool" where
  "Contains s sub = (0 \<le> Index s sub)"

text \<open>\<open>strings.Split\<close> for a one-byte separator: never the empty list.\<close>

fun Split :: "string \<Rightarrow> char \<Rightarrow> string list" where
  "Split [] sep = [[]]"
| "Split (x # xs) sep =
     (if x = sep then [] # Split xs sep
      else (case Split xs sep of [] \<Rightarrow> [[x]] | p # ps \<Rightarrow> (x # p) # ps))"

text \<open>\<open>strings.SplitN(s, sep, 2)\<close> for a one-byte separator.\<close>

definition SplitN2 :: "string \<Rightarrow> char \<Rightarrow> string list" where
  "SplitN2 s sep = (case dropWhile (\<lambda>c. c \<noteq> sep) s of
       [] \<Rightarrow> [s]
     | _ # rest \<Rightarrow> [takeWhile (\<lambda>c. c \<noteq> sep) s, rest])"

text \<open>\<open>strings.Trim\<close> for a cutset of one byte.\<close>

definition TrimByte :: "string \<Rightarrow> char \<Rightarrow> string" where
  "TrimByte s c = rev (dropWhile (\<lambda>x. x = c) (rev (dropWhile (\<lambda>x. x = c) s)))"

fun Join :: "string list \<Rightarrow> string \<Rightarrow> string" where
  "Join [] sep = []"
| "Join [s] sep = s"
| "Join (s # t # ss) sep = s @ sep @ Join (t # ss) sep"

text \<open>
  White space is \<open>unicode.IsSpace\<close>: the six ASCII characters and the UTF-8 encodings of U+0085,
  U+00A0, U+1680, U+2000 to U+200A, U+2028, U+2029, U+202F, U+205F and U+3000.
\<close>

definition bytes_of :: "nat list \<Rightarrow> string" where
  "bytes_of ns = map char_of ns"

definition ws_runes :: "string list" where
  "ws_runes = map bytes_of
     ([[9], [10], [11], [12], [13], [32], [194, 133], [194, 160], [225, 154, 128]]
      @ map (\<lambda>n. [226, 128, n]) [128..<139]
      @ [[226, 128, 168], [226, 128, 169], [226, 128, 175], [226, 129, 159], [227, 128, 128]])"

function trim_front :: "string list \<Rightarrow> string \<Rightarrow> string" where
  "trim_front pats s = (case find (\<lambda>p. p \<noteq> [] \<and> prefix p s) pats of
       None \<Rightarrow> s
     | Some p \<Rightarrow> trim_front pats (drop (length p) s))"
  by pat_completeness auto
termination
proof (relation "measure (\<lambda>(pats, s). length s)")
  show "wf (measure (\<lambda>(pats :: string list, s :: string). length s))" by simp
next
  fix pats :: "string list" and s p :: string
  assume "find (\<lambda>p. p \<noteq> [] \<and> prefix p s) pats = Some p"
  then have "p \<noteq> [] \<and> prefix p s" by (auto simp: find_Some_iff)
  then have "s \<noteq> []" and "0 < length p" by auto
  then show "((pats, drop (length p) s), (pats, s)) \<in> measure (\<lambda>(pats, s). length s)"
    by simp
qed

declare trim_front.simps [simp del]

definition TrimSpace :: "string \<Rightarrow> string" where
  "TrimSpace s = rev (trim_front (map rev ws_runes) (rev (trim_front ws_runes s)))"

end
