(* ===== verification/ApiTypes.thy ===== *)
theory ApiTypes
  imports Prelude
begin

text \<open>
  The API types of \<open>api/v1alpha1/types.go\<close>: one record per struct with the fields in the order of
  the source, the phase and status constants, and the instance-class table. A Go pointer to a
  struct is an option (\<open>nil\<close> is \<open>None\<close>), a string map an association list, \<open>metav1.Time\<close> an integer
  of seconds. Of \<open>metav1.ObjectMeta\<close> and \<open>metav1.TypeMeta\<close>, which are not part of this repository,
  the fields the sources read or write are kept. Record fields are prefixed by the struct they
  belong to.
\<close>

section \<open>Metadata\<close>

record TypeMeta =
  tm_APIVersion :: string
  tm_Kind :: string

record ObjectMeta =
  m_Name :: string
  m_Namespace :: string
  m_Generation :: int
  m_ResourceVersion :: string
  m_DeletionTimestamp :: "int option"
  m_Finalizers :: "string list"

section \<open>DBInstance\<close>

record SecretKeyRef =
  skr_Name :: string
  skr_Key :: string

record VpcPeeringConfig =
  vp_RemoteVpc :: string
  vp_RemoteSubnet :: string

record S3BackupConfig =
  s3_Endpoint :: string
  s3_Bucket :: string
  s3_Region :: string
  s3_SecretRef :: string

record DBInstanceSpec =
  spec_DBInstanceClass :: string
  spec_EngineVersion :: string
  spec_DBName :: string
  spec_Port :: int
  spec_MasterUsername :: string
  spec_ManageMasterUserPassword :: bool
  spec_MasterUserPasswordRef :: "SecretKeyRef option"
  spec_AllocatedStorage :: int
  spec_StorageType :: string
  spec_DBSubnetGroupName :: string
  spec_VpcPeering :: "VpcPeeringConfig option"
  spec_BackupRetentionPeriod :: int
  spec_PreferredBackupWindow :: string
  spec_MultiAZ :: bool
  spec_DBParameterGroupRef :: string
  spec_DeletionProtection :: bool
  spec_Running :: "bool option"
  spec_OSImage :: string
  spec_NetworkRef :: string
  spec_ConsumerNetwork :: string
  spec_VMPassword :: string
  spec_S3BackupConfig :: "S3BackupConfig option"
  spec_Tags :: "(string \<times> string) list"

record Endpoint =
  ep_Address :: string
  ep_Port :: int
  ep_JDBCURL :: string

record BackupStatus =
  bs_LastFullBackup :: "int option"
  bs_LastIncrBackup :: "int option"
  bs_WALArchiving :: bool

record MasterUserSecretRef =
  mus_Name :: string
  mus_Status :: string

record ResourceRefs =
  res_VPCName :: string
  res_SubnetName :: string
  res_NADName :: string
  res_DataVolumeName :: string
  res_VMName :: string
  res_SecretName :: string
  res_ServiceMonitor :: string
  res_VpcPeeringName :: string

text \<open>A \<open>metav1.Condition\<close> is only stored: its type is the string of its \<open>Type\<close> field.\<close>

record DBInstanceStatus =
  st_Phase :: string
  st_ProvisioningPhase :: string
  st_Conditions :: "string list"
  st_Endpoint :: "Endpoint option"
  st_ManagementAddress :: string
  st_MasterUserSecret :: "MasterUserSecretRef option"
  st_Resources :: ResourceRefs
  st_GrafanaURL :: string
  st_PrometheusTarget :: string
  st_CACertPEM :: string
  st_BackupStatus :: "BackupStatus option"
  st_ReadReplicas :: "string list"
  st_Message :: string
  st_ObservedGeneration :: int

record DBInstance =
  inst_TypeMeta :: TypeMeta
  inst_ObjectMeta :: ObjectMeta
  inst_Spec :: DBInstanceSpec
  inst_Status :: DBInstanceStatus

record DBInstanceList =
  dil_Items :: "DBInstance list"

section \<open>Zero values\<close>

text \<open>\<open>&dbaasv1.DBInstance{}\<close>: every field at its zero value.\<close>

definition zero_spec :: DBInstanceSpec where
  "zero_spec = \<lparr>
     spec_DBInstanceClass = [], spec_EngineVersion = [], spec_DBName = [], spec_Port = 0,
     spec_MasterUsername = [], spec_ManageMasterUserPassword = False,
     spec_MasterUserPasswordRef = None, spec_AllocatedStorage = 0, spec_StorageType = [],
     spec_DBSubnetGroupName = [], spec_VpcPeering = None, spec_BackupRetentionPeriod = 0,
     spec_PreferredBackupWindow = [], spec_MultiAZ = False, spec_DBParameterGroupRef = [],
     spec_DeletionProtection = False, spec_Running = None, spec_OSImage = [],
     spec_NetworkRef = [], spec_ConsumerNetwork = [], spec_VMPassword = [],
     spec_S3BackupConfig = None, spec_Tags = []\<rparr>"

definition zero_res :: ResourceRefs where
  "zero_res = \<lparr>
     res_VPCName = [], res_SubnetName = [], res_NADName = [], res_DataVolumeName = [],
     res_VMName = [], res_SecretName = [], res_ServiceMonitor = [], res_VpcPeeringName = []\<rparr>"

definition zero_status :: DBInstanceStatus where
  "zero_status = \<lparr>
     st_Phase = [], st_ProvisioningPhase = [], st_Conditions = [], st_Endpoint = None,
     st_ManagementAddress = [], st_MasterUserSecret = None, st_Resources = zero_res,
     st_GrafanaURL = [], st_PrometheusTarget = [], st_CACertPEM = [], st_BackupStatus = None,
     st_ReadReplicas = [], st_Message = [], st_ObservedGeneration = 0\<rparr>"

definition zero_meta :: ObjectMeta where
  "zero_meta = \<lparr>
     m_Name = [], m_Namespace = [], m_Generation = 0, m_ResourceVersion = [],
     m_DeletionTimestamp = None, m_Finalizers = []\<rparr>"

definition zero_instance :: DBInstance where
  "zero_instance = \<lparr>
     inst_TypeMeta = \<lparr>tm_APIVersion = [], tm_Kind = []\<rparr>,
     inst_ObjectMeta = zero_meta, inst_Spec = zero_spec, inst_Status = zero_status\<rparr>"

section \<open>DBSnapshot and DBParameterGroup\<close>

record DBSnapshotSpec =
  ss_DBInstanceRef :: string
  ss_SnapshotType :: string

record DBSnapshotStatus =
  sst_Phase :: string
  sst_S3Path :: string
  sst_Size :: int
  sst_Done :: "int option"
  sst_Message :: string

record DBSnapshot =
  snap_ObjectMeta :: ObjectMeta
  snap_Spec :: DBSnapshotSpec
  snap_Status :: DBSnapshotStatus

record DBParameterGroupSpec =
  pg_Family :: string
  pg_Description :: string
  pg_Parameters :: "(string \<times> string) list"

section \<open>Constants\<close>

definition PhasePending :: string where "PhasePending = ''Pending''"

definition PhaseNetworkProvisioned :: string where "PhaseNetworkProvisioned = ''NetworkProvisioned''"

definition PhaseStorageProvisioned :: string where "PhaseStorageProvisioned = ''StorageProvisioned''"

definition PhaseVMCreated :: string where "PhaseVMCreated = ''VMCreated''"

definition PhaseWaitingForCloudInit :: string where
  "PhaseWaitingForCloudInit = ''WaitingForCloudInit''"

definition PhaseDatabaseReady :: string where "PhaseDatabaseReady = ''DatabaseReady''"

definition PhaseMonitoringDeployed :: string where "PhaseMonitoringDeployed = ''MonitoringDeployed''"

definition PhaseVpcPeeringCreated :: string where "PhaseVpcPeeringCreated = ''VpcPeeringCreated''"

definition PhaseAvailable :: string where "PhaseAvailable = ''Available''"

definition PhaseFailed :: string where "PhaseFailed = ''Failed''"

definition StatusCreating :: string where "StatusCreating = ''creating''"

definition StatusAvailable :: string where "StatusAvailable = ''available''"

definition StatusStopping :: string where "StatusStopping = ''stopping''"

definition StatusStopped :: string where "StatusStopped = ''stopped''"

definition StatusStarting :: string where "StatusStarting = ''starting''"

definition StatusModifying :: string where "StatusModifying = ''modifying''"

definition StatusDeleting :: string where "StatusDeleting = ''deleting''"

definition StatusFailed :: string where "StatusFailed = ''failed''"

definition SecretStatusActive :: string where "SecretStatusActive = ''active''"

definition LabelInstance :: string where "LabelInstance = ''dbaas.wso2.com/instance''"

definition LabelRole :: string where "LabelRole = ''dbaas.wso2.com/role''"

definition LabelMetrics :: string where "LabelMetrics = ''dbaas.wso2.com/metrics''"

definition FinalizerName :: string where "FinalizerName = ''dbaas.wso2.com/cleanup''"

definition SecretKeySSHPrivateKey :: string where "SecretKeySSHPrivateKey = ''ssh_private_key''"

definition SecretKeyCAKey :: string where "SecretKeyCAKey = ''ca_key''"

definition SecretKeyCACert :: string where "SecretKeyCACert = ''ca_cert''"

definition GroupVersionString :: string where "GroupVersionString = ''dbaas.wso2.com/v1alpha1''"

section \<open>Instance classes\<close>

record InstanceClassSpec =
  ics_CPUCores :: int
  ics_MemoryMB :: int
  ics_MaxConnections :: int

definition class_spec :: "int \<Rightarrow> int \<Rightarrow> int \<Rightarrow> InstanceClassSpec" where
  "class_spec c m n = \<lparr>ics_CPUCores = c, ics_MemoryMB = m, ics_MaxConnections = n\<rparr>"

definition InstanceClasses :: "(string \<times> InstanceClassSpec) list" where
  "InstanceClasses =
    [(''db.t3.micro'', class_spec 1 1024 50),
     (''db.t3.small'', class_spec 1 2048 100),
     (''db.t3.medium'', class_spec 2 4096 150),
     (''db.t3.large'', class_spec 2 8192 200),
     (''db.t3.xlarge'', class_spec 4 16384 300),
     (''db.m5.large'', class_spec 2 8192 200),
     (''db.m5.xlarge'', class_spec 4 16384 400),
     (''db.m5.2xlarge'', class_spec 8 32768 600),
     (''db.m5.4xlarge'', class_spec 16 65536 1000),
     (''db.r5.large'', class_spec 2 16384 300),
     (''db.r5.xlarge'', class_spec 4 32768 500),
     (''db.r5.2xlarge'', class_spec 8 65536 800)]"

text \<open>The phase and status constants are pairwise different, so a switch over them is unambiguous.\<close>

lemmas phase_defs = PhasePending_def PhaseNetworkProvisioned_def PhaseStorageProvisioned_def
  PhaseVMCreated_def PhaseWaitingForCloudInit_def PhaseDatabaseReady_def
  PhaseMonitoringDeployed_def PhaseVpcPeeringCreated_def PhaseAvailable_def PhaseFailed_def

lemmas status_defs = StatusCreating_def StatusAvailable_def StatusStopping_def StatusStopped_def
  StatusStarting_def StatusModifying_def StatusDeleting_def StatusFailed_def

lemma phases_distinct:
  "distinct [PhasePending, PhaseNetworkProvisioned, PhaseStorageProvisioned, PhaseVMCreated,
     PhaseWaitingForCloudInit, PhaseDatabaseReady, PhaseMonitoringDeployed, PhaseVpcPeeringCreated,
     PhaseAvailable, PhaseFailed, []]"
  by (simp add: phase_defs)

lemma statuses_distinct:
  "distinct [StatusCreating, StatusAvailable, StatusStopping, StatusStopped, StatusStarting,
     StatusModifying, StatusDeleting, StatusFailed, []]"
  by (simp add: status_defs)

end
