(* ===== verification/Encoding.thy ===== *)
theory Encoding
  imports Prelude
begin

text \<open>
  The encodings of the Go standard library the controller uses: decimal scanning
  (\<open>fmt.Sscanf\<close> with \<open>%d:%d\<close>), the FNV-1a hash of \<open>hash/fnv\<close> on 32-bit words, and both base64
  alphabets of \<open>encoding/base64\<close>. The round trips proved here are what the backup schedule, the
  Secret reader and the generated passwords rest on.
\<close>

unbundle bit_operations_syntax

section \<open>Scanning integers\<close>

text \<open>
  \<open>SkipSpace\<close> of \<open>fmt\<close>: white space is skipped, a newline is an error (\<open>None\<close>).
\<close>

function skip_space :: "string \<Rightarrow> string option" where
  "skip_space s = (case s of
       [] \<Rightarrow> Some []
     | c # _ \<Rightarrow>
         if of_char c = (10::nat) then None
         else (case find (\<lambda>p. p \<noteq> [] \<and> prefix p s) ws_runes of
                 None \<Rightarrow> Some s
               | Some p \<Rightarrow> skip_space (drop (length p) s)))"
  by pat_completeness auto
termination
  by (relation "measure length") (auto simp: find_Some_iff prefix_def)

declare skip_space.simps [simp del]

definition digits_val :: "string \<Rightarrow> nat" where
  "digits_val ds = foldl (\<lambda>n d. 10 * n + digit_val d) 0 ds"

text \<open>
  \<open>scanInt\<close>: white space, an optional sign, at least one digit, and \<open>strconv.ParseInt\<close> at 64 bits,
  which fails outside the range of \<open>int64\<close>. The result holds the value and the rest of the input.
\<close>

definition scan_int :: "string \<Rightarrow> (int \<times> string) option" where
  "scan_int s = (case skip_space s of
       None \<Rightarrow> None
     | Some t \<Rightarrow>
         (let neg = (t \<noteq> [] \<and> hd t = CHR ''-'');
              u = (if t \<noteq> [] \<and> (hd t = CHR ''-'' \<or> hd t = CHR ''+'') then tl t else t);
              ds = takeWhile is_digit u;
              v = (if neg then - int (digits_val ds) else int (digits_val ds))
          in if ds = [] then None
             else if v < - (2 ^ 63) \<or> 2 ^ 63 - 1 < v then None
             else Some (v, dropWhile is_digit u)))"

definition sscanf_colon :: "string \<Rightarrow> (int \<times> int) option" where
  "sscanf_colon s = (case scan_int s of
       None \<Rightarrow> None
     | Some (h, r) \<Rightarrow>
         (case r of
            [] \<Rightarrow> None
          | c # r' \<Rightarrow>
              if c \<noteq> CHR '':'' then None
              else (case scan_int r' of None \<Rightarrow> None | Some (m, _) \<Rightarrow> Some (h, m))))"

text \<open>Signed 64-bit wrap-around of Go's \<open>int\<close>.\<close>

definition wrap64 :: "int \<Rightarrow> int" where
  "wrap64 i = (i + 2 ^ 63) mod 2 ^ 64 - 2 ^ 63"

section \<open>FNV-1a on 32 bits\<close>

definition fnv32a :: "string \<Rightarrow> 32 word" where
  "fnv32a s = foldl (\<lambda>h c. (h XOR of_char c) * 16777619) 2166136261 s"

section \<open>Base64\<close>

definition b64_std :: string where
  "b64_std = ''ABCDEFGHIJKLMNOPQRSTUVWXYZabcdefghijklmnopqrstuvwxyz0123456789+/''"

definition b64_url :: string where
  "b64_url = ''ABCDEFGHIJKLMNOPQRSTUVWXYZabcdefghijklmnopqrstuvwxyz0123456789-_''"

abbreviation ord :: "char \<Rightarrow> nat" where
  "ord c \<equiv> of_char c"

fun b64_encode :: "string \<Rightarrow> string \<Rightarrow> string" where
  "b64_encode al [] = []"
| "b64_encode al [a] =
     [al ! (ord a div 4), al ! (ord a mod 4 * 16), CHR ''='', CHR ''='']"
| "b64_encode al [a, b] =
     [al ! (ord a div 4), al ! (ord a mod 4 * 16 + ord b div 16), al ! (ord b mod 16 * 4), CHR ''='']"
| "b64_encode al (a # b # c # rest) =
     [al ! (ord a div 4), al ! (ord a mod 4 * 16 + ord b div 16),
      al ! (ord b mod 16 * 4 + ord c div 64), al ! (ord c mod 64)] @ b64_encode al rest"

fun position :: "string \<Rightarrow> char \<Rightarrow> nat option" where
  "position [] c = None"
| "position (x # xs) c = (if x = c then Some 0 else map_option Suc (position xs c))"

text \<open>
  One quantum of four characters at a time; padding is accepted in the last quantum only, and the
  unused bits of that quantum are not checked, as without \<open>Strict\<close>.
\<close>

fun b64_quanta :: "string \<Rightarrow> string \<Rightarrow> string option" where
  "b64_quanta al [] = Some []"
| "b64_quanta al (p # q # r # t # rest) =
     (case (position al p, position al q) of
        (Some w, Some x) \<Rightarrow>
          if rest = [] \<and> r = CHR ''='' \<and> t = CHR ''=''
            then Some [char_of (w * 4 + x div 16)]
          else (case position al r of
              None \<Rightarrow> None
            | Some y \<Rightarrow>
                if rest = [] \<and> t = CHR ''=''
                  then Some [char_of (w * 4 + x div 16), char_of (x mod 16 * 16 + y div 4)]
                else (case (position al t, b64_quanta al rest) of
                    (Some z, Some out) \<Rightarrow>
                      Some ([char_of (w * 4 + x div 16), char_of (x mod 16 * 16 + y div 4),
                             char_of (y mod 4 * 64 + z)] @ out)
                  | _ \<Rightarrow> None))
      | _ \<Rightarrow> None)"
| "b64_quanta al _ = None"

definition b64_decode :: "string \<Rightarrow> string \<Rightarrow> string option" where
  "b64_decode al s = b64_quanta al (filter (\<lambda>c. ord c \<noteq> 10 \<and> ord c \<noteq> 13) s)"

definition StdEncodeToString :: "string \<Rightarrow> string" where
  "StdEncodeToString s = b64_encode b64_std s"

definition StdDecodeString :: "string \<Rightarrow> string option" where
  "StdDecodeString s = b64_decode b64_std s"

definition URLEncodeToString :: "string \<Rightarrow> string" where
  "URLEncodeToString s = b64_encode b64_url s"

section \<open>Facts on decimal scanning\<close>

lemma ord_lt_256 [simp]: "ord c < 256"
  by simp

lemma is_digit_digit_char [simp]: "n < 10 \<Longrightarrow> is_digit (digit_char n)"
  by (simp add: is_digit_def digit_char_def)

lemma digit_val_digit_char [simp]: "n < 10 \<Longrightarrow> digit_val (digit_char n) = n"
  by (simp add: digit_val_def digit_char_def)

lemma dec_digits_nonempty [simp]: "dec_digits n \<noteq> []"
  by (subst dec_digits.simps) simp

lemma dec_digits_all_digits: "\<forall>d \<in> set (dec_digits n). is_digit d"
proof (induction n rule: dec_digits.induct)
  case (1 n)
  then show ?case
    by (cases "n < 10") (auto simp: dec_digits.simps [of n])
qed

lemma digits_val_append: "digits_val (ds @ [d]) = 10 * digits_val ds + digit_val d"
  by (simp add: digits_val_def)

lemma digits_val_dec_digits [go_str]: "digits_val (dec_digits n) = n"
proof (induction n rule: dec_digits.induct)
  case (1 n)
  show ?case
  proof (cases "n < 10")
    case True
    then show ?thesis
      by (simp add: dec_digits.simps [of n] digits_val_def)
  next
    case False
    then show ?thesis
      using 1 by (simp add: dec_digits.simps [of n] digits_val_append)
  qed
qed

lemma inj_dec_digits: "inj dec_digits"
  by (metis digits_val_dec_digits injI)

lemma ws_runes_no_digit: "list_all (\<lambda>p. \<not> is_digit (hd p)) ws_runes"
  by (simp add: ws_runes_def bytes_of_def is_digit_def upt_rec)

lemma find_ws_digit: "is_digit c \<Longrightarrow> find (\<lambda>p. p \<noteq> [] \<and> prefix p (c # s)) ws_runes = None"
proof -
  assume c: "is_digit c"
  have "\<not> (p \<noteq> [] \<and> prefix p (c # s))" if "p \<in> set ws_runes" for p
    using c bspec [OF ws_runes_no_digit [unfolded list_all_iff] that]
    by (cases p rule: list.exhaust) auto
  then show ?thesis
    by (simp add: find_None_iff)
qed

lemma skip_space_digit: "is_digit c \<Longrightarrow> skip_space (c # s) = Some (c # s)"
  by (subst skip_space.simps) (auto simp: find_ws_digit is_digit_def)

lemma is_digit_sign: "is_digit c \<Longrightarrow> c \<noteq> CHR ''-'' \<and> c \<noteq> CHR ''+''"
  by (auto simp: is_digit_def)

lemma takeWhile_digits:
  assumes "\<forall>d \<in> set ds. is_digit d" and "r = [] \<or> \<not> is_digit (hd r)"
  shows "takeWhile is_digit (ds @ r) = ds" and "dropWhile is_digit (ds @ r) = r"
  using assms by (cases r; auto simp: takeWhile_append dropWhile_append takeWhile_eq_all_conv)+

text \<open>A run of digits inside the range of \<open>int64\<close> is read back whole.\<close>

lemma scan_int_digits:
  assumes ds: "ds \<noteq> []" "\<forall>d \<in> set ds. is_digit d"
    and r: "r = [] \<or> \<not> is_digit (hd r)"
    and range: "digits_val ds < 2 ^ 63"
  shows "scan_int (ds @ r) = Some (int (digits_val ds), r)"
proof -
  obtain d ds' where d: "ds = d # ds'" and dig: "is_digit d"
    using ds by (cases ds) auto
  have skip: "skip_space (ds @ r) = Some (ds @ r)"
    using skip_space_digit [OF dig] by (simp add: d)
  have sign: "hd (ds @ r) \<noteq> CHR ''-''" "hd (ds @ r) \<noteq> CHR ''+''"
    using is_digit_sign [OF dig] by (simp_all add: d)
  have "int (digits_val ds) < 2 ^ 63"
    using range by (metis of_nat_less_iff of_nat_numeral of_nat_power)
  with ds(1) skip sign takeWhile_digits [OF ds(2) r] show ?thesis
    by (simp add: scan_int_def Let_def)
qed

section \<open>Facts on base64\<close>

lemma position_nth: "distinct al \<Longrightarrow> i < length al \<Longrightarrow> position al (al ! i) = Some i"
proof (induction al arbitrary: i)
  case Nil
  then show ?case by simp
next
  case (Cons x al)
  then show ?case
    by (cases i) (auto simp: in_set_conv_nth)
qed

definition alphabet64 :: "string \<Rightarrow> bool" where
  "alphabet64 al = (distinct al \<and> length al = 64 \<and> CHR ''='' \<notin> set al
     \<and> list_all (\<lambda>c. ord c \<noteq> 10 \<and> ord c \<noteq> 13) al)"

lemma alphabet64_std [simp]: "alphabet64 b64_std"
  by (simp add: alphabet64_def b64_std_def)

lemma alphabet64_url [simp]: "alphabet64 b64_url"
  by (simp add: alphabet64_def b64_url_def)

lemma alphabet64_position: "alphabet64 al \<Longrightarrow> i < 64 \<Longrightarrow> position al (al ! i) = Some i"
  by (simp add: alphabet64_def position_nth)

lemma alphabet64_pad: "alphabet64 al \<Longrightarrow> i < 64 \<Longrightarrow> al ! i \<noteq> CHR ''=''"
  by (metis alphabet64_def nth_mem)

lemma sextets [simp]:
  "ord a div 4 < 64" "ord a mod 4 * 16 + ord b div 16 < 64" "ord b mod 16 * 4 + ord c div 64 < 64"
  "ord c mod 64 < 64" "ord a mod 4 * 16 < 64" "ord b mod 16 * 4 < 64"
proof -
  have lt: "ord a < 256" "ord b < 256" "ord c < 256" by simp_all
  show "ord a div 4 < 64" using lt by (simp add: less_mult_imp_div_less)
  show "ord a mod 4 * 16 + ord b div 16 < 64" using lt by linarith
  show "ord b mod 16 * 4 + ord c div 64 < 64" using lt by linarith
  show "ord c mod 64 < 64" by simp
  show "ord a mod 4 * 16 < 64" by linarith
  show "ord b mod 16 * 4 < 64" by linarith
qed

lemma octets [simp]:
  "ord b div 16 div 16 = 0" "ord b div 16 mod 16 = ord b div 16"
  "ord c div 64 div 4 = 0" "ord c div 64 mod 4 = ord c div 64"
  by (simp_all add: less_mult_imp_div_less div_mult2_eq [symmetric])

lemma b64_quanta_encode:
  assumes "alphabet64 al"
  shows "b64_quanta al (b64_encode al s) = Some s"
  using assms
  by (induction al s rule: b64_encode.induct)
    (simp_all add: alphabet64_position alphabet64_pad)

lemma b64_encode_no_newline:
  assumes "alphabet64 al"
  shows "filter (\<lambda>c. ord c \<noteq> 10 \<and> ord c \<noteq> 13) (b64_encode al s) = b64_encode al s"
proof -
  have nl: "ord (al ! i) \<noteq> 10" "ord (al ! i) \<noteq> 13" if "alphabet64 al" "i < 64" for al i
    using that by (simp_all add: alphabet64_def list_all_length)
  show ?thesis
    using assms by (induction al s rule: b64_encode.induct) (simp_all add: nl)
qed

theorem b64_roundtrip [go_enc]: "alphabet64 al \<Longrightarrow> b64_decode al (b64_encode al s) = Some s"
  by (simp add: b64_decode_def b64_encode_no_newline b64_quanta_encode)

lemma length_b64_encode: "length (b64_encode al s) = 4 * ((length s + 2) div 3)"
  by (induction al s rule: b64_encode.induct) (simp_all, presburger)

text \<open>The padding comes after every data character, so a prefix short enough holds none.\<close>

lemma b64_encode_front:
  "alphabet64 al \<Longrightarrow> k \<le> (4 * length s + 2) div 3 \<Longrightarrow> set (take k (b64_encode al s)) \<subseteq> set al"
proof (induction al s arbitrary: k rule: b64_encode.induct)
  case (1 al)
  then show ?case by simp
next
  case (2 al a)
  have mem: "al ! i \<in> set al" if "i < 64" for i
    using that 2 by (simp add: alphabet64_def)
  from 2 have "k \<in> {0, 1, 2}" by auto
  then show ?case by (auto simp: mem numeral_2_eq_2)
next
  case (3 al a b)
  have mem: "al ! i \<in> set al" if "i < 64" for i
    using that 3 by (simp add: alphabet64_def)
  from 3 have "k \<in> {0, 1, 2, 3}" by auto
  then show ?case by (auto simp: mem numeral_2_eq_2 numeral_3_eq_3)
next
  case (4 al a b c rest)
  have mem: "al ! i \<in> set al" if "i < 64" for i
    using that 4 by (simp add: alphabet64_def)
  let ?four = "[al ! (ord a div 4), al ! (ord a mod 4 * 16 + ord b div 16),
      al ! (ord b mod 16 * 4 + ord c div 64), al ! (ord c mod 64)]"
  have "set (take (k - 4) (b64_encode al rest)) \<subseteq> set al"
    using 4 by (intro "4.IH") auto
  moreover have "set (take k ?four) \<subseteq> set al"
    by (rule subset_trans [OF set_take_subset]) (simp add: mem)
  moreover have "length ?four = 4" by simp
  ultimately show ?case
    by (simp only: b64_encode.simps take_append set_append Un_subset_iff)
qed

end
