(* ===== verification/Kube.thy ===== *)
theory Kube
  imports ApiTypes Encoding "HOL-Library.Multiset"
begin

text \<open>
  The world outside the repository. Everything the controller calls that is not its own code (the
  API server behind the dynamic client and the controller-runtime client, the \<open>unstructured\<close>
  helpers of apimachinery, \<open>controllerutil\<close>, the clock, the random source, the cryptographic
  libraries and SSH) is a field of the record \<open>'s env\<close>, which every definition that performs such a
  call takes as its first argument \<open>E\<close>. A call with an effect maps the state \<open>'s\<close> of the world to
  an answer and a new state; nothing is known about it but what a hypothesis says. The locales
  below state the documented laws; \<open>traced\<close> wraps any world in a recorder of the calls made.
\<close>

section \<open>Dynamic values\<close>

text \<open>The values of \<open>map[string]interface{}\<close>: an association list stands for a map.\<close>

datatype json =
    JNull
  | JBool bool
  | JInt int
  | JStr string
  | JList "json list"
  | JMap "(string \<times> json) list"

record gvr =
  gvr_Group :: string
  gvr_Version :: string
  gvr_Resource :: string

definition mk_gvr :: "string \<Rightarrow> string \<Rightarrow> string \<Rightarrow> gvr" where
  "mk_gvr g v r = \<lparr>gvr_Group = g, gvr_Version = v, gvr_Resource = r\<rparr>"

section \<open>Certificates\<close>

text \<open>
  \<open>x509.Certificate\<close> as the sources fill it. Keys and certificates in DER form are byte strings;
  \<open>x509.KeyUsage\<close> is the list of the usages set.
\<close>

datatype key_usage = KeyUsageCertSign | KeyUsageCRLSign | KeyUsageDigitalSignature
  | KeyUsageKeyEncipherment

record Certificate =
  crt_SerialNumber :: int
  crt_CommonName :: string
  crt_NotBefore :: int
  crt_NotAfter :: int
  crt_IsCA :: bool
  crt_KeyUsage :: "key_usage list"
  crt_ExtKeyUsageServerAuth :: bool
  crt_BasicConstraintsValid :: bool
  crt_DNSNames :: "string list"
  crt_IPAddresses :: "string list"

section \<open>The interface to the world\<close>

text \<open>
  Of \<open>client.Get\<close> and its kin there is one field per Go type they are used at. A write returns the
  object as well, since the client decodes the server's answer into the object it was given. Time
  is in nanoseconds. \<open>Client_GrafanaURL\<close> is the field of \<open>harvester.Client\<close> next to its dynamic
  client. \<open>Go_Sched\<close> gives the choices of the goroutine scheduler: any list of numbers is a
  schedule, and every interleaving is given by some list.
\<close>

record 's env =
  Client_GrafanaURL :: string
  Dyn_Create :: "gvr \<Rightarrow> string \<Rightarrow> json \<Rightarrow> 's \<Rightarrow> (error + json) \<times> 's"
  Dyn_Get :: "gvr \<Rightarrow> string \<Rightarrow> string \<Rightarrow> 's \<Rightarrow> (error + json) \<times> 's"
  Dyn_Update :: "gvr \<Rightarrow> string \<Rightarrow> json \<Rightarrow> 's \<Rightarrow> (error + json) \<times> 's"
  Dyn_Delete :: "gvr \<Rightarrow> string \<Rightarrow> string \<Rightarrow> 's \<Rightarrow> error option \<times> 's"
  Dyn_List :: "gvr \<Rightarrow> string \<Rightarrow> 's \<Rightarrow> (error + json list) \<times> 's"
  SetNestedField :: "json \<Rightarrow> json \<Rightarrow> string list \<Rightarrow> json"
  NestedField :: "json \<Rightarrow> string list \<Rightarrow> json option"
  SetLabels :: "json \<Rightarrow> (string \<times> string) list \<Rightarrow> json"
  SetNamespace :: "json \<Rightarrow> string \<Rightarrow> json"
  GetName :: "json \<Rightarrow> string"
  GetCreationTimestamp :: "json \<Rightarrow> int"
  Get_DBInstance :: "string \<Rightarrow> string \<Rightarrow> 's \<Rightarrow> (error + DBInstance) \<times> 's"
  Update_DBInstance :: "DBInstance \<Rightarrow> 's \<Rightarrow> (error option \<times> DBInstance) \<times> 's"
  StatusUpdate_DBInstance :: "DBInstance \<Rightarrow> 's \<Rightarrow> (error option \<times> DBInstance) \<times> 's"
  Create_DBInstance :: "DBInstance \<Rightarrow> 's \<Rightarrow> (error option \<times> DBInstance) \<times> 's"
  Delete_DBInstance :: "DBInstance \<Rightarrow> 's \<Rightarrow> error option \<times> 's"
  List_DBInstance :: "'s \<Rightarrow> (error + DBInstance list) \<times> 's"
  Get_DBSnapshot :: "string \<Rightarrow> string \<Rightarrow> 's \<Rightarrow> (error + DBSnapshot) \<times> 's"
  StatusUpdate_DBSnapshot :: "DBSnapshot \<Rightarrow> 's \<Rightarrow> (error option \<times> DBSnapshot) \<times> 's"
  Get_Secret :: "string \<Rightarrow> string \<Rightarrow> 's \<Rightarrow> (error + (string \<times> string) list) \<times> 's"
  ContainsFinalizer :: "string list \<Rightarrow> string \<Rightarrow> bool"
  AddFinalizer :: "string list \<Rightarrow> string \<Rightarrow> string list"
  RemoveFinalizer :: "string list \<Rightarrow> string \<Rightarrow> string list"
  Time_Now :: "'s \<Rightarrow> int \<times> 's"
  Rand_Read :: "nat \<Rightarrow> 's \<Rightarrow> string \<times> 's"
  Rsa_GenerateKey :: "nat \<Rightarrow> 's \<Rightarrow> (error + string) \<times> 's"
  Rsa_PublicKey :: "string \<Rightarrow> string"
  X509_CreateCertificate ::
    "Certificate \<Rightarrow> Certificate \<Rightarrow> string \<Rightarrow> string \<Rightarrow> 's \<Rightarrow> (error + string) \<times> 's"
  X509_ParseCertificate :: "string \<Rightarrow> error + Certificate"
  X509_MarshalPKCS1PrivateKey :: "string \<Rightarrow> string"
  X509_ParsePKCS1PrivateKey :: "string \<Rightarrow> error + string"
  Pem_Encode :: "string \<Rightarrow> string \<Rightarrow> string"
  Pem_Decode :: "string \<Rightarrow> string option"
  Ed25519_GenerateKey :: "'s \<Rightarrow> (error + (string \<times> string)) \<times> 's"
  Ssh_MarshalPrivateKey :: "string \<Rightarrow> string \<Rightarrow> 's \<Rightarrow> (error + (string \<times> string)) \<times> 's"
  Ssh_NewPublicKey :: "string \<Rightarrow> error + string"
  Ssh_MarshalAuthorizedKey :: "string \<Rightarrow> string"
  Ssh_ParsePrivateKey :: "string \<Rightarrow> error + string"
  Ssh_Dial :: "string \<Rightarrow> string \<Rightarrow> string \<Rightarrow> 's \<Rightarrow> (error + unit) \<times> 's"
  Ssh_NewSession :: "'s \<Rightarrow> (error + unit) \<times> 's"
  Ssh_Run :: "string \<Rightarrow> 's \<Rightarrow> (error option \<times> string) \<times> 's"
  Go_Sched :: "'s \<Rightarrow> nat list \<times> 's"

text \<open>
  \<open>NestedString\<close>, \<open>NestedSlice\<close> and \<open>NestedMap\<close> as the sources use them, with the two flags
  dropped: the value of the right type at the path, or the zero value.
\<close>

definition NestedString :: "'s env \<Rightarrow> json \<Rightarrow> string list \<Rightarrow> string" where
  "NestedString E obj path = (case NestedField E obj path of Some (JStr s) \<Rightarrow> s | _ \<Rightarrow> [])"

definition NestedSlice :: "'s env \<Rightarrow> json \<Rightarrow> string list \<Rightarrow> json list" where
  "NestedSlice E obj path = (case NestedField E obj path of Some (JList l) \<Rightarrow> l | _ \<Rightarrow> [])"

definition NestedMap :: "'s env \<Rightarrow> json \<Rightarrow> string list \<Rightarrow> (string \<times> json) list" where
  "NestedMap E obj path = (case NestedField E obj path of Some (JMap m) \<Rightarrow> m | _ \<Rightarrow> [])"

section \<open>Interleaving\<close>

text \<open>
  The order in which \<open>n\<close> goroutines of one step each run: the next choice, modulo the number of
  goroutines left, says which one is next. \<open>pick\<close> always gives a permutation.
\<close>

fun pick :: "nat list \<Rightarrow> 'a list \<Rightarrow> 'a list" where
  "pick cs [] = []"
| "pick [] (x # xs) = x # xs"
| "pick (c # cs) (x # xs) =
     (let i = c mod length (x # xs)
      in (x # xs) ! i # pick cs (take i (x # xs) @ drop (Suc i) (x # xs)))"

section \<open>Recording the calls\<close>

datatype call =
    CCreate gvr string json
  | CGet gvr string string
  | CUpdate gvr string json
  | CDelete gvr string string
  | CList gvr string
  | CInstGet string string
  | CInstUpdate DBInstance
  | CInstStatus DBInstance
  | CInstCreate DBInstance
  | CInstDelete DBInstance
  | CInstList
  | CSnapGet string string
  | CSnapStatus DBSnapshot
  | CSecretGet string string
  | CSshDial string string string
  | CSshRun string

text \<open>
  Classes of calls: \<open>provisions G\<close> holds of the reads and writes of resources in \<open>G\<close> that are no
  deletions.
\<close>

fun provisions :: "gvr list \<Rightarrow> call \<Rightarrow> bool" where
  "provisions G (CCreate g _ _) = (g \<in> set G)"
| "provisions G (CGet g _ _) = (g \<in> set G)"
| "provisions G (CUpdate g _ _) = (g \<in> set G)"
| "provisions G (CList g _) = (g \<in> set G)"
| "provisions G _ = False"

fun is_create :: "call \<Rightarrow> bool" where
  "is_create (CCreate _ _ _) = True"
| "is_create _ = False"

fun is_delete :: "call \<Rightarrow> bool" where
  "is_delete (CDelete _ _ _) = True"
| "is_delete _ = False"

fun is_status :: "call \<Rightarrow> bool" where
  "is_status (CInstStatus _) = True"
| "is_status _ = False"

text \<open>What a provisioning handler may do: provision resources in \<open>G\<close>, and write the status.\<close>

definition works_on :: "gvr list \<Rightarrow> call \<Rightarrow> bool" where
  "works_on G c = (provisions G c \<or> is_status c)"

fun is_ssh :: "call \<Rightarrow> bool" where
  "is_ssh (CSshDial _ _ _) = True"
| "is_ssh (CSshRun _) = True"
| "is_ssh _ = False"

definition record_call :: "call \<Rightarrow> ('s \<Rightarrow> 'r \<times> 's) \<Rightarrow> 's \<times> call list \<Rightarrow> 'r \<times> ('s \<times> call list)" where
  "record_call c f w = (case f (fst w) of (r, s') \<Rightarrow> (r, (s', snd w @ [c])))"

definition lift_call :: "('s \<Rightarrow> 'r \<times> 's) \<Rightarrow> 's \<times> call list \<Rightarrow> 'r \<times> ('s \<times> call list)" where
  "lift_call f w = (case f (fst w) of (r, s') \<Rightarrow> (r, (s', snd w)))"

definition traced :: "'s env \<Rightarrow> ('s \<times> call list) env" where
  "traced E = \<lparr>
     Client_GrafanaURL = Client_GrafanaURL E,
     Dyn_Create = (\<lambda>g n j. record_call (CCreate g n j) (Dyn_Create E g n j)),
     Dyn_Get = (\<lambda>g n k. record_call (CGet g n k) (Dyn_Get E g n k)),
     Dyn_Update = (\<lambda>g n j. record_call (CUpdate g n j) (Dyn_Update E g n j)),
     Dyn_Delete = (\<lambda>g n k. record_call (CDelete g n k) (Dyn_Delete E g n k)),
     Dyn_List = (\<lambda>g n. record_call (CList g n) (Dyn_List E g n)),
     SetNestedField = SetNestedField E,
     NestedField = NestedField E,
     SetLabels = SetLabels E,
     SetNamespace = SetNamespace E,
     GetName = GetName E,
     GetCreationTimestamp = GetCreationTimestamp E,
     Get_DBInstance = (\<lambda>n k. record_call (CInstGet n k) (Get_DBInstance E n k)),
     Update_DBInstance = (\<lambda>i. record_call (CInstUpdate i) (Update_DBInstance E i)),
     StatusUpdate_DBInstance = (\<lambda>i. record_call (CInstStatus i) (StatusUpdate_DBInstance E i)),
     Create_DBInstance = (\<lambda>i. record_call (CInstCreate i) (Create_DBInstance E i)),
     Delete_DBInstance = (\<lambda>i. record_call (CInstDelete i) (Delete_DBInstance E i)),
     List_DBInstance = record_call CInstList (List_DBInstance E),
     Get_DBSnapshot = (\<lambda>n k. record_call (CSnapGet n k) (Get_DBSnapshot E n k)),
     StatusUpdate_DBSnapshot = (\<lambda>i. record_call (CSnapStatus i) (StatusUpdate_DBSnapshot E i)),
     Get_Secret = (\<lambda>n k. record_call (CSecretGet n k) (Get_Secret E n k)),
     ContainsFinalizer = ContainsFinalizer E,
     AddFinalizer = AddFinalizer E,
     RemoveFinalizer = RemoveFinalizer E,
     Time_Now = lift_call (Time_Now E),
     Rand_Read = (\<lambda>n. lift_call (Rand_Read E n)),
     Rsa_GenerateKey = (\<lambda>b. lift_call (Rsa_GenerateKey E b)),
     Rsa_PublicKey = Rsa_PublicKey E,
     X509_CreateCertificate = (\<lambda>t p k s. lift_call (X509_CreateCertificate E t p k s)),
     X509_ParseCertificate = X509_ParseCertificate E,
     X509_MarshalPKCS1PrivateKey = X509_MarshalPKCS1PrivateKey E,
     X509_ParsePKCS1PrivateKey = X509_ParsePKCS1PrivateKey E,
     Pem_Encode = Pem_Encode E,
     Pem_Decode = Pem_Decode E,
     Ed25519_GenerateKey = lift_call (Ed25519_GenerateKey E),
     Ssh_MarshalPrivateKey = (\<lambda>k c. lift_call (Ssh_MarshalPrivateKey E k c)),
     Ssh_NewPublicKey = Ssh_NewPublicKey E,
     Ssh_MarshalAuthorizedKey = Ssh_MarshalAuthorizedKey E,
     Ssh_ParsePrivateKey = Ssh_ParsePrivateKey E,
     Ssh_Dial = (\<lambda>a u k. record_call (CSshDial a u k) (Ssh_Dial E a u k)),
     Ssh_NewSession = lift_call (Ssh_NewSession E),
     Ssh_Run = (\<lambda>c. record_call (CSshRun c) (Ssh_Run E c)),
     Go_Sched = lift_call (Go_Sched E)\<rparr>"

text \<open>The same with the answers of the dynamic client next to its calls.\<close>

datatype answer = Obj "error + json" | Lst "error + json list" | Other

definition note_call ::
  "call \<Rightarrow> ('r \<Rightarrow> answer) \<Rightarrow> ('s \<Rightarrow> 'r \<times> 's) \<Rightarrow> 's \<times> (call \<times> answer) list
   \<Rightarrow> 'r \<times> ('s \<times> (call \<times> answer) list)" where
  "note_call c a f w = (case f (fst w) of (r, s') \<Rightarrow> (r, (s', snd w @ [(c, a r)])))"

definition carry_call :: "('s \<Rightarrow> 'r \<times> 's) \<Rightarrow> 's \<times> 'l \<Rightarrow> 'r \<times> ('s \<times> 'l)" where
  "carry_call f w = (case f (fst w) of (r, s') \<Rightarrow> (r, (s', snd w)))"

definition answered :: "'s env \<Rightarrow> ('s \<times> (call \<times> answer) list) env" where
  "answered E = \<lparr>
     Client_GrafanaURL = Client_GrafanaURL E,
     Dyn_Create = (\<lambda>g n j. note_call (CCreate g n j) Obj (Dyn_Create E g n j)),
     Dyn_Get = (\<lambda>g n k. note_call (CGet g n k) Obj (Dyn_Get E g n k)),
     Dyn_Update = (\<lambda>g n j. note_call (CUpdate g n j) Obj (Dyn_Update E g n j)),
     Dyn_Delete = (\<lambda>g n k. note_call (CDelete g n k) (\<lambda>_. Other) (Dyn_Delete E g n k)),
     Dyn_List = (\<lambda>g n. note_call (CList g n) Lst (Dyn_List E g n)),
     SetNestedField = SetNestedField E,
     NestedField = NestedField E,
     SetLabels = SetLabels E,
     SetNamespace = SetNamespace E,
     GetName = GetName E,
     GetCreationTimestamp = GetCreationTimestamp E,
     Get_DBInstance = (\<lambda>n k. note_call (CInstGet n k) (\<lambda>_. Other) (Get_DBInstance E n k)),
     Update_DBInstance = (\<lambda>i. note_call (CInstUpdate i) (\<lambda>_. Other) (Update_DBInstance E i)),
     StatusUpdate_DBInstance = (\<lambda>i. note_call (CInstStatus i) (\<lambda>_. Other) (StatusUpdate_DBInstance E i)),
     Create_DBInstance = (\<lambda>i. note_call (CInstCreate i) (\<lambda>_. Other) (Create_DBInstance E i)),
     Delete_DBInstance = (\<lambda>i. note_call (CInstDelete i) (\<lambda>_. Other) (Delete_DBInstance E i)),
     List_DBInstance = note_call CInstList (\<lambda>_. Other) (List_DBInstance E),
     Get_DBSnapshot = (\<lambda>n k. note_call (CSnapGet n k) (\<lambda>_. Other) (Get_DBSnapshot E n k)),
     StatusUpdate_DBSnapshot = (\<lambda>i. note_call (CSnapStatus i) (\<lambda>_. Other) (StatusUpdate_DBSnapshot E i)),
     Get_Secret = (\<lambda>n k. note_call (CSecretGet n k) (\<lambda>_. Other) (Get_Secret E n k)),
     ContainsFinalizer = ContainsFinalizer E,
     AddFinalizer = AddFinalizer E,
     RemoveFinalizer = RemoveFinalizer E,
     Time_Now = carry_call (Time_Now E),
     Rand_Read = (\<lambda>n. carry_call (Rand_Read E n)),
     Rsa_GenerateKey = (\<lambda>b. carry_call (Rsa_GenerateKey E b)),
     Rsa_PublicKey = Rsa_PublicKey E,
     X509_CreateCertificate = (\<lambda>t p k s. carry_call (X509_CreateCertificate E t p k s)),
     X509_ParseCertificate = X509_ParseCertificate E,
     X509_MarshalPKCS1PrivateKey = X509_MarshalPKCS1PrivateKey E,
     X509_ParsePKCS1PrivateKey = X509_ParsePKCS1PrivateKey E,
     Pem_Encode = Pem_Encode E,
     Pem_Decode = Pem_Decode E,
     Ed25519_GenerateKey = carry_call (Ed25519_GenerateKey E),
     Ssh_MarshalPrivateKey = (\<lambda>k c. carry_call (Ssh_MarshalPrivateKey E k c)),
     Ssh_NewPublicKey = Ssh_NewPublicKey E,
     Ssh_MarshalAuthorizedKey = Ssh_MarshalAuthorizedKey E,
     Ssh_ParsePrivateKey = Ssh_ParsePrivateKey E,
     Ssh_Dial = (\<lambda>a u k. note_call (CSshDial a u k) (\<lambda>_. Other) (Ssh_Dial E a u k)),
     Ssh_NewSession = carry_call (Ssh_NewSession E),
     Ssh_Run = (\<lambda>c. note_call (CSshRun c) (\<lambda>_. Other) (Ssh_Run E c)),
     Go_Sched = carry_call (Go_Sched E)\<rparr>"

section \<open>A world that keeps a log\<close>

text \<open>
  \<open>emits lg P s s'\<close>: on the way from \<open>s\<close> to \<open>s'\<close> only calls that satisfy \<open>P\<close> were made. The locale
  states what a log \<open>lg\<close> of the calls is; the client code proves its effect lemmas inside it.
\<close>

definition emits :: "('s \<Rightarrow> call list) \<Rightarrow> (call \<Rightarrow> bool) \<Rightarrow> 's \<Rightarrow> 's \<Rightarrow> bool" where
  "emits lg P s s' = (\<exists>cs. lg s' = lg s @ cs \<and> list_all P cs)"

lemma emits_refl [simp, intro]: "emits lg P s s"
  by (simp add: emits_def)

lemma emits_trans [trans]: "emits lg P s s' \<Longrightarrow> emits lg P s' s'' \<Longrightarrow> emits lg P s s''"
  by (auto simp: emits_def)

lemma emits_mono: "emits lg P s s' \<Longrightarrow> (\<And>c. P c \<Longrightarrow> Q c) \<Longrightarrow> emits lg Q s s'"
  by (auto simp: emits_def list_all_iff)

lemma emits_one: "lg s' = lg s @ [c] \<Longrightarrow> P c \<Longrightarrow> emits lg P s s'"
  by (simp add: emits_def)

lemma emits_none: "lg s' = lg s \<Longrightarrow> emits lg P s s'"
  by (simp add: emits_def)

lemma emits_False: "emits lg (\<lambda>_. False) s s' \<longleftrightarrow> lg s' = lg s"
  by (auto simp: emits_def list_all_iff)

locale recorder =
  fixes E :: "'s env" and lg :: "'s \<Rightarrow> call list"
  assumes Dyn_Create_log: "Dyn_Create E g n j s = (r1, s') \<Longrightarrow> lg s' = lg s @ [CCreate g n j]"
    and Dyn_Get_log: "Dyn_Get E g n k s = (r2, s') \<Longrightarrow> lg s' = lg s @ [CGet g n k]"
    and Dyn_Update_log: "Dyn_Update E g n j s = (r3, s') \<Longrightarrow> lg s' = lg s @ [CUpdate g n j]"
    and Dyn_Delete_log: "Dyn_Delete E g n k s = (r4, s') \<Longrightarrow> lg s' = lg s @ [CDelete g n k]"
    and Dyn_List_log: "Dyn_List E g n s = (r5, s') \<Longrightarrow> lg s' = lg s @ [CList g n]"
    and Get_DBInstance_log: "Get_DBInstance E n k s = (r6, s') \<Longrightarrow> lg s' = lg s @ [CInstGet n k]"
    and Update_DBInstance_log: "Update_DBInstance E i s = (r7, s') \<Longrightarrow> lg s' = lg s @ [CInstUpdate i]"
    and StatusUpdate_DBInstance_log:
      "StatusUpdate_DBInstance E i s = (r8, s') \<Longrightarrow> lg s' = lg s @ [CInstStatus i]"
    and Create_DBInstance_log: "Create_DBInstance E i s = (r9, s') \<Longrightarrow> lg s' = lg s @ [CInstCreate i]"
    and Delete_DBInstance_log: "Delete_DBInstance E i s = (r10, s') \<Longrightarrow> lg s' = lg s @ [CInstDelete i]"
    and List_DBInstance_log: "List_DBInstance E s = (r11, s') \<Longrightarrow> lg s' = lg s @ [CInstList]"
    and Get_DBSnapshot_log: "Get_DBSnapshot E n k s = (r12, s') \<Longrightarrow> lg s' = lg s @ [CSnapGet n k]"
    and StatusUpdate_DBSnapshot_log:
      "StatusUpdate_DBSnapshot E sn s = (r13, s') \<Longrightarrow> lg s' = lg s @ [CSnapStatus sn]"
    and Get_Secret_log: "Get_Secret E n k s = (r14, s') \<Longrightarrow> lg s' = lg s @ [CSecretGet n k]"
    and Ssh_Dial_log: "Ssh_Dial E a u k s = (r15, s') \<Longrightarrow> lg s' = lg s @ [CSshDial a u k]"
    and Ssh_Run_log: "Ssh_Run E c s = (r16, s') \<Longrightarrow> lg s' = lg s @ [CSshRun c]"
    and Time_Now_log: "Time_Now E s = (r17, s') \<Longrightarrow> lg s' = lg s"
    and Rand_Read_log: "Rand_Read E m s = (r18, s') \<Longrightarrow> lg s' = lg s"
    and Rsa_GenerateKey_log: "Rsa_GenerateKey E m s = (r19, s') \<Longrightarrow> lg s' = lg s"
    and X509_CreateCertificate_log:
      "X509_CreateCertificate E t p k1 k2 s = (r20, s') \<Longrightarrow> lg s' = lg s"
    and Ed25519_GenerateKey_log: "Ed25519_GenerateKey E s = (r21, s') \<Longrightarrow> lg s' = lg s"
    and Ssh_MarshalPrivateKey_log: "Ssh_MarshalPrivateKey E k c s = (r22, s') \<Longrightarrow> lg s' = lg s"
    and Ssh_NewSession_log: "Ssh_NewSession E s = (r23, s') \<Longrightarrow> lg s' = lg s"
    and Go_Sched_log: "Go_Sched E s = (r24, s') \<Longrightarrow> lg s' = lg s"
begin

lemmas dyn_log = Dyn_Create_log Dyn_Get_log Dyn_Update_log Dyn_Delete_log Dyn_List_log

lemmas cr_log = Get_DBInstance_log Update_DBInstance_log StatusUpdate_DBInstance_log
  Create_DBInstance_log Delete_DBInstance_log List_DBInstance_log Get_DBSnapshot_log
  StatusUpdate_DBSnapshot_log Get_Secret_log

lemmas silent_log = Time_Now_log Rand_Read_log Rsa_GenerateKey_log X509_CreateCertificate_log
  Ed25519_GenerateKey_log Ssh_MarshalPrivateKey_log Ssh_NewSession_log Go_Sched_log

lemmas all_log = dyn_log cr_log Ssh_Dial_log Ssh_Run_log silent_log

end

lemma provisions_mono: "provisions G c \<Longrightarrow> set G \<subseteq> set H \<Longrightarrow> provisions H c"
  by (cases c) auto

lemma provisions_no_delete: "provisions G c \<Longrightarrow> \<not> is_delete c"
  by (cases c) auto

lemma provisions_no_ssh: "provisions G c \<Longrightarrow> \<not> is_ssh c"
  by (cases c) auto

lemma works_on_no_delete: "works_on G c \<Longrightarrow> \<not> is_delete c"
  by (cases c) (auto simp: works_on_def)

lemma works_on_quiet: "emits lg (works_on G) s s' \<Longrightarrow> emits lg (\<lambda>c. \<not> is_delete c) s s'"
  by (erule emits_mono) (erule works_on_no_delete)

lemma emits_works_on: "emits lg (provisions G) s s' \<Longrightarrow> set G \<subseteq> set H \<Longrightarrow> emits lg (works_on H) s s'"
  by (erule emits_mono) (simp add: works_on_def provisions_mono)

lemma record_call_eq: "record_call c f w = (r, w') \<Longrightarrow> snd w' = snd w @ [c]"
  by (auto simp: record_call_def split: prod.splits)

lemma lift_call_eq: "lift_call f w = (r, w') \<Longrightarrow> snd w' = snd w"
  by (auto simp: lift_call_def split: prod.splits)

text \<open>The recorder wrapped around any world keeps such a log.\<close>

interpretation tr: recorder "traced E" snd
  by unfold_locales (auto simp: traced_def dest: record_call_eq lift_call_eq)

text \<open>What \<open>traced\<close> leaves alone.\<close>

lemma traced_pure [simp]:
  "Client_GrafanaURL (traced E) = Client_GrafanaURL E"
  "SetNestedField (traced E) = SetNestedField E"
  "NestedField (traced E) = NestedField E"
  "SetLabels (traced E) = SetLabels E"
  "SetNamespace (traced E) = SetNamespace E"
  "GetName (traced E) = GetName E"
  "GetCreationTimestamp (traced E) = GetCreationTimestamp E"
  "ContainsFinalizer (traced E) = ContainsFinalizer E"
  "AddFinalizer (traced E) = AddFinalizer E"
  "RemoveFinalizer (traced E) = RemoveFinalizer E"
  "Pem_Decode (traced E) = Pem_Decode E"
  "Ssh_ParsePrivateKey (traced E) = Ssh_ParsePrivateKey E"
  by (simp_all add: traced_def)

lemma note_call_eq: "note_call c a f w = (r, w') \<Longrightarrow> snd w' = snd w @ [(c, a r)]"
  by (auto simp: note_call_def split: prod.splits)

lemma carry_call_eq: "carry_call f w = (r, w') \<Longrightarrow> snd w' = snd w"
  by (auto simp: carry_call_def split: prod.splits)

interpretation an: recorder "answered E" "\<lambda>w. map fst (snd w)"
  by unfold_locales (auto simp: answered_def dest!: note_call_eq carry_call_eq)

lemma answered_pure [simp]:
  "SetNestedField (answered E) = SetNestedField E"
  "NestedField (answered E) = NestedField E"
  "SetLabels (answered E) = SetLabels E"
  "SetNamespace (answered E) = SetNamespace E"
  "GetName (answered E) = GetName E"
  "ContainsFinalizer (answered E) = ContainsFinalizer E"
  by (simp_all add: answered_def)

lemma answered_dyn:
  "Dyn_Create (answered E) g n j = note_call (CCreate g n j) Obj (Dyn_Create E g n j)"
  "Dyn_Get (answered E) g n k = note_call (CGet g n k) Obj (Dyn_Get E g n k)"
  "Dyn_Update (answered E) g n j = note_call (CUpdate g n j) Obj (Dyn_Update E g n j)"
  "Dyn_List (answered E) g n = note_call (CList g n) Lst (Dyn_List E g n)"
  by (simp_all add: answered_def)

lemma note_call_iff:
  "note_call c a f w = (r, w') \<longleftrightarrow> f (fst w) = (r, fst w') \<and> snd w' = snd w @ [(c, a r)]"
  by (cases w') (auto simp: note_call_def split: prod.splits)

section \<open>The controller-runtime client\<close>

text \<open>
  What the reconciler relies on when it goes on with an object after writing it: a status write
  gives the object back as it was, up to the resource version, whether it succeeds or not; and
  the finalizer helpers of \<open>controllerutil\<close> do what they say.
\<close>

definition same_object :: "DBInstance \<Rightarrow> DBInstance \<Rightarrow> bool" where
  "same_object i j =
     (inst_Spec j = inst_Spec i \<and> inst_Status j = inst_Status i \<and> inst_TypeMeta j = inst_TypeMeta i
      \<and> (inst_ObjectMeta j)\<lparr>m_ResourceVersion := []\<rparr> = (inst_ObjectMeta i)\<lparr>m_ResourceVersion := []\<rparr>)"

lemma same_object_meta:
  assumes "same_object i j"
  shows "m_Name (inst_ObjectMeta j) = m_Name (inst_ObjectMeta i)"
    and "m_Namespace (inst_ObjectMeta j) = m_Namespace (inst_ObjectMeta i)"
    and "m_Generation (inst_ObjectMeta j) = m_Generation (inst_ObjectMeta i)"
    and "m_DeletionTimestamp (inst_ObjectMeta j) = m_DeletionTimestamp (inst_ObjectMeta i)"
    and "m_Finalizers (inst_ObjectMeta j) = m_Finalizers (inst_ObjectMeta i)"
proof -
  have eq: "(inst_ObjectMeta j)\<lparr>m_ResourceVersion := []\<rparr> = (inst_ObjectMeta i)\<lparr>m_ResourceVersion := []\<rparr>"
    using assms by (simp add: same_object_def)
  show "m_Name (inst_ObjectMeta j) = m_Name (inst_ObjectMeta i)"
    using arg_cong [OF eq, of m_Name] by simp
  show "m_Namespace (inst_ObjectMeta j) = m_Namespace (inst_ObjectMeta i)"
    using arg_cong [OF eq, of m_Namespace] by simp
  show "m_Generation (inst_ObjectMeta j) = m_Generation (inst_ObjectMeta i)"
    using arg_cong [OF eq, of m_Generation] by simp
  show "m_DeletionTimestamp (inst_ObjectMeta j) = m_DeletionTimestamp (inst_ObjectMeta i)"
    using arg_cong [OF eq, of m_DeletionTimestamp] by simp
  show "m_Finalizers (inst_ObjectMeta j) = m_Finalizers (inst_ObjectMeta i)"
    using arg_cong [OF eq, of m_Finalizers] by simp
qed

locale cr_client =
  fixes E :: "'s env"
  assumes status_same: "StatusUpdate_DBInstance E i s = ((err, i'), s') \<Longrightarrow> same_object i i'"
    and contains_iff: "ContainsFinalizer E fs f \<longleftrightarrow> f \<in> set fs"
    and add_set: "set (AddFinalizer E fs f) = insert f (set fs)"
    and remove_set: "set (RemoveFinalizer E fs f) = set fs - {f}"
begin

lemma status_kept:
  assumes "StatusUpdate_DBInstance E i s = ((err, i'), s')"
  shows "inst_Status i' = inst_Status i" and "inst_Spec i' = inst_Spec i"
    and "m_Name (inst_ObjectMeta i') = m_Name (inst_ObjectMeta i)"
    and "m_Namespace (inst_ObjectMeta i') = m_Namespace (inst_ObjectMeta i)"
    and "m_Generation (inst_ObjectMeta i') = m_Generation (inst_ObjectMeta i)"
    and "m_DeletionTimestamp (inst_ObjectMeta i') = m_DeletionTimestamp (inst_ObjectMeta i)"
    and "m_Finalizers (inst_ObjectMeta i') = m_Finalizers (inst_ObjectMeta i)"
  using status_same [OF assms]
  by (simp_all only: same_object_def same_object_meta [OF status_same [OF assms]])

end

text \<open>Recording the calls of such a client changes none of this.\<close>

lemma cr_client_traced: "cr_client E \<Longrightarrow> cr_client (traced E)"
  unfolding cr_client_def
  by (auto simp: traced_def record_call_def split: prod.splits)

lemma cr_client_answered: "cr_client E \<Longrightarrow> cr_client (answered E)"
  unfolding cr_client_def
  by (auto simp: answered_def note_call_def split: prod.splits)

section \<open>Interleaving\<close>

lemma mset_remove_nth: "i < length xs \<Longrightarrow> add_mset (xs ! i) (mset (take i xs @ drop (Suc i) xs)) = mset xs"
  by (metis append_take_drop_id Cons_nth_drop_Suc mset_append mset.simps(2) union_mset_add_mset_right)

lemma mset_pick [simp]: "mset (pick cs xs) = mset xs"
proof (induction cs xs rule: pick.induct)
  case (3 c cs x xs)
  let ?i = "c mod length (x # xs)"
  have "?i < length (x # xs)" by simp
  then show ?case
    using 3 mset_remove_nth [of ?i "x # xs"] by (simp add: Let_def)
qed simp_all

lemma set_pick [simp]: "set (pick cs xs) = set xs"
  using mset_pick by (metis set_mset_mset)

text \<open>Every order of the tasks is the outcome of some schedule.\<close>

lemma pick_all: "mset ys = mset xs \<Longrightarrow> \<exists>cs. pick cs xs = ys"
proof (induction ys arbitrary: xs)
  case Nil
  then show ?case by simp
next
  case (Cons y ys)
  then have "y \<in> set xs" by (metis list.set_intros(1) set_mset_mset)
  then obtain i where i: "i < length xs" "xs ! i = y" by (auto simp: in_set_conv_nth)
  have "mset ys = mset (take i xs @ drop (Suc i) xs)"
    using mset_remove_nth [OF i(1)] i(2) Cons.prems by (metis add_mset_add_mset_same_iff mset.simps(2))
  with Cons.IH obtain cs where "pick cs (take i xs @ drop (Suc i) xs) = ys" by blast
  with i have "pick (i # cs) xs = y # ys"
    by (cases xs) (simp_all add: Let_def)
  then show ?case by blast
qed

section \<open>Unstructured objects\<close>

text \<open>
  \<open>unstructured.NestedFieldNoCopy\<close> and \<open>SetNestedField\<close> as documented: a write fails, leaving the
  object alone, when a level above the field exists and is no map; otherwise it creates the missing
  levels. Two paths are \<open>apart\<close> when neither is a prefix of the other.
\<close>

definition is_map :: "json \<Rightarrow> bool" where
  "is_map j = (case j of JMap _ \<Rightarrow> True | _ \<Rightarrow> False)"

definition apart :: "string list \<Rightarrow> string list \<Rightarrow> bool" where
  "apart p q = (\<not> prefix p q \<and> \<not> prefix q p)"

definition settable :: "(json \<Rightarrow> string list \<Rightarrow> json option) \<Rightarrow> json \<Rightarrow> string list \<Rightarrow> bool" where
  "settable get j p =
     (is_map j \<and> p \<noteq> [] \<and> list_all (\<lambda>q. case get j q of None \<Rightarrow> True | Some w \<Rightarrow> is_map w)
        (map (\<lambda>n. take n p) [0..<length p]))"

lemma settable_iff:
  "settable get j p \<longleftrightarrow>
     is_map j \<and> p \<noteq> [] \<and> (\<forall>q w. strict_prefix q p \<and> get j q = Some w \<longrightarrow> is_map w)"
proof -
  have "strict_prefix q p \<longleftrightarrow> (\<exists>n < length p. q = take n p)" for q
    by (metis append_eq_conv_conj append_take_drop_id length_take min.absorb4 prefix_def
        prefix_length_less strict_prefix_def nat_less_le take_all_iff linorder_not_le)
  then show ?thesis
    unfolding settable_def list_all_iff by (fastforce split: option.splits)
qed

locale unstructured_api =
  fixes get :: "json \<Rightarrow> string list \<Rightarrow> json option"
    and put :: "json \<Rightarrow> json \<Rightarrow> string list \<Rightarrow> json"
  assumes get_self: "get j [] = Some j"
    and put_map: "is_map j \<Longrightarrow> is_map (put j v p)"
    and get_put: "is_map j \<Longrightarrow> p \<noteq> [] \<Longrightarrow>
      (\<And>q w. strict_prefix q p \<Longrightarrow> get j q = Some w \<Longrightarrow> is_map w) \<Longrightarrow> get (put j v p) p = Some v"
    and get_put_above: "is_map j \<Longrightarrow> strict_prefix q p \<Longrightarrow>
      (\<And>q w. strict_prefix q p \<Longrightarrow> get j q = Some w \<Longrightarrow> is_map w) \<Longrightarrow>
      \<exists>w. get (put j v p) q = Some w \<and> is_map w"
    and get_put_apart: "apart p q \<Longrightarrow> get (put j v p) q = get j q"
begin

lemma put_settable: "settable get j p \<Longrightarrow> get (put j v p) p = Some v"
  using get_put by (simp add: settable_iff)

text \<open>A write keeps every path writable that it is apart from.\<close>

lemma settable_put:
  assumes "settable get j p" "settable get j q" "apart p q"
  shows "settable get (put j v p) q"
  unfolding settable_iff
proof (intro conjI allI impI)
  show "is_map (put j v p)" and "q \<noteq> []"
    using assms by (simp_all add: settable_iff put_map)
next
  fix q' w assume w: "strict_prefix q' q \<and> get (put j v p) q' = Some w"
  show "is_map w"
  proof (cases "apart p q'")
    case True
    with w assms(2) show ?thesis by (auto simp: settable_iff get_put_apart)
  next
    case False
    with w assms(3) have "strict_prefix q' p"
      by (auto simp: apart_def strict_prefix_def dest: prefix_order.trans)
    with assms(1) w show ?thesis
      using get_put_above [of j q' p v] by (auto simp: settable_iff)
  qed
qed

text \<open>Two writes apart from each other both hold at the end, and nothing else has changed.\<close>

lemma put_twice:
  assumes "settable get j p" "settable get j q" "apart p q"
  shows "get (put (put j v p) w q) p = Some v" and "get (put (put j v p) w q) q = Some w"
  using assms put_settable settable_put get_put_apart by (auto simp: apart_def)

end

end
