(* ===== verification/HvCommon.thy ===== *)
theory HvCommon
  imports Kube
begin

text \<open>
  The shared part of \<open>internal/harvester/client.go\<close>: the resource identifiers, the parameter and
  readiness structs, the constructor of unstructured objects, the NIC and network lists of the VM,
  the subnet derivation and the password generator.
\<close>

unbundle bit_operations_syntax

section \<open>Resource identifiers\<close>

definition vmGVR :: gvr where "vmGVR = mk_gvr ''kubevirt.io'' ''v1'' ''virtualmachines''"

definition vmiGVR :: gvr where "vmiGVR = mk_gvr ''kubevirt.io'' ''v1'' ''virtualmachineinstances''"

definition dvGVR :: gvr where "dvGVR = mk_gvr ''cdi.kubevirt.io'' ''v1beta1'' ''datavolumes''"

definition vpcGVR :: gvr where "vpcGVR = mk_gvr ''kubeovn.io'' ''v1'' ''vpcs''"

definition subnetGVR :: gvr where "subnetGVR = mk_gvr ''kubeovn.io'' ''v1'' ''subnets''"

definition nadGVR :: gvr where
  "nadGVR = mk_gvr ''k8s.cni.cncf.io'' ''v1'' ''network-attachment-definitions''"

definition secretGVR :: gvr where "secretGVR = mk_gvr '''' ''v1'' ''secrets''"

definition serviceGVR :: gvr where "serviceGVR = mk_gvr '''' ''v1'' ''services''"

definition smGVR :: gvr where "smGVR = mk_gvr ''monitoring.coreos.com'' ''v1'' ''servicemonitors''"

definition vpcPeeringGVR :: gvr where "vpcPeeringGVR = mk_gvr ''kubeovn.io'' ''v1'' ''vpc-peerings''"

definition vmImageGVR :: gvr where
  "vmImageGVR = mk_gvr ''harvesterhci.io'' ''v1beta1'' ''virtualmachineimages''"

definition vmiPhaseRunning :: string where "vmiPhaseRunning = ''Running''"

section \<open>Parameter structs\<close>

record VMCreateParams =
  p_ID :: string
  p_Namespace :: string
  p_CPUCores :: int
  p_MemoryMB :: int
  p_OSImage :: string
  p_DataVolumeRef :: string
  p_SubnetName :: string
  p_NADName :: string
  p_MasterUser :: string
  p_DBName :: string
  p_Port :: int
  p_MaxConnections :: int
  p_BackupEnabled :: bool
  p_BackupWindow :: string
  p_S3Config :: "S3BackupConfig option"
  p_VMPassword :: string
  p_ConsumerNetwork :: string

record VMIReadiness =
  rd_Running :: bool
  rd_IP :: string
  rd_MgmtIP :: string
  rd_Ready :: bool

section \<open>Helpers\<close>

definition newUnstructured :: "'s env \<Rightarrow> string \<Rightarrow> string \<Rightarrow> string \<Rightarrow> string \<Rightarrow> json" where
  "newUnstructured E apiVersion kind name namespace =
     (let obj = JMap [(''apiVersion'', JStr apiVersion), (''kind'', JStr kind),
                      (''metadata'', JMap [(''name'', JStr name)])]
      in if namespace \<noteq> [] then SetNamespace E obj namespace else obj)"

definition ignoreAlreadyExists :: "error \<Rightarrow> error option" where
  "ignoreAlreadyExists e = (if IsAlreadyExists e then None else Some e)"

text \<open>
  The pattern \<open>if _, e := Create(...); e != nil { err = ignoreAlreadyExists(e) }\<close> that every
  provisioning step uses.
\<close>

definition create_tolerant ::
  "'s env \<Rightarrow> gvr \<Rightarrow> string \<Rightarrow> json \<Rightarrow> 's \<Rightarrow> error option \<times> 's" where
  "create_tolerant E g ns obj s = (case Dyn_Create E g ns obj s of
       (Inl e, s') \<Rightarrow> (ignoreAlreadyExists e, s')
     | (Inr _, s') \<Rightarrow> (None, s'))"

definition vmInterfaces :: "string \<Rightarrow> json list" where
  "vmInterfaces consumerNetwork =
     [JMap [(''name'', JStr ''mgmt-net''), (''masquerade'', JMap [])],
      JMap [(''name'', JStr ''vpc-net''), (''bridge'', JMap [])]]
     @ (if consumerNetwork \<noteq> []
        then [JMap [(''name'', JStr ''consumer-net''), (''bridge'', JMap [])]] else [])"

definition networkName :: "string \<Rightarrow> string \<Rightarrow> string" where
  "networkName namespace nadName =
     (if \<not> Contains nadName ''/'' then namespace @ ''/'' @ nadName else nadName)"

definition vmNetworks :: "string \<Rightarrow> string \<Rightarrow> string \<Rightarrow> json list" where
  "vmNetworks namespace nadName consumerNetwork =
     [JMap [(''name'', JStr ''mgmt-net''), (''pod'', JMap [])],
      JMap [(''name'', JStr ''vpc-net''),
            (''multus'', JMap [(''networkName'', JStr (networkName namespace nadName))])]]
     @ (if consumerNetwork \<noteq> []
        then [JMap [(''name'', JStr ''consumer-net''),
                    (''multus'', JMap [(''networkName'', JStr consumerNetwork)])]] else [])"

text \<open>The two variable octets of the subnet, then the CIDR and the gateway.\<close>

definition subnet_octets :: "string \<Rightarrow> int \<times> int" where
  "subnet_octets ident =
     (let v = fnv32a ident
      in (100 + uint (drop_bit 8 v AND 127), uint (v AND 255)))"

definition subnetCIDRForID :: "string \<Rightarrow> string \<times> string" where
  "subnetCIDRForID ident =
     (let (a, b) = subnet_octets ident
      in (''10.'' @ itoa a @ ''.'' @ itoa b @ ''.0/24'', ''10.'' @ itoa a @ ''.'' @ itoa b @ ''.1''))"

text \<open>
  \<open>rand.Read(b)\<close> overwrites the front of a zeroed buffer of \<open>n\<close> bytes with what the source gives;
  its count and error are ignored.
\<close>

definition fill_buffer :: "nat \<Rightarrow> string \<Rightarrow> string" where
  "fill_buffer n bs = take n (bs @ replicate (n - length bs) (char_of (0::nat)))"

definition randomString :: "'s env \<Rightarrow> nat \<Rightarrow> 's \<Rightarrow> string \<times> 's" where
  "randomString E n s = (case Rand_Read E n s of
       (bs, s') \<Rightarrow> (take n (URLEncodeToString (fill_buffer n bs)), s'))"

section \<open>The subnet derivation\<close>

lemma uint_and_mask_le: "uint ((w :: 32 word) AND 127) \<le> 127" "uint ((w :: 32 word) AND 255) \<le> 255"
proof -
  have "w AND 127 \<le> 127" "w AND 255 \<le> 255"
    by (rule word_and_le1)+
  then show "uint (w AND 127) \<le> 127" "uint (w AND 255) \<le> 255"
    by (simp_all add: word_le_def)
qed

lemma subnet_octets_bounds:
  "subnet_octets ident = (a, b) \<Longrightarrow> 100 \<le> a \<and> a \<le> 227 \<and> 0 \<le> b \<and> b \<le> 255"
  using uint_and_mask_le [of "drop_bit 8 (fnv32a ident)"] uint_and_mask_le [of "fnv32a ident"]
  by (auto simp: subnet_octets_def Let_def)

text \<open>The two octets are the low fifteen bits of the hash, no more and no less.\<close>

lemma masks32: "(127 :: 32 word) = mask 7" "(255 :: 32 word) = mask 8" "(32767 :: 32 word) = mask 15"
  by (simp_all add: mask_eq_exp_minus_1)

lemma low15_split:
  fixes v w :: "32 word"
  shows "(drop_bit 8 v AND 127 = drop_bit 8 w AND 127 \<and> v AND 255 = w AND 255)
     \<longleftrightarrow> v AND 32767 = w AND 32767"
proof
  assume eq: "drop_bit 8 v AND 127 = drop_bit 8 w AND 127 \<and> v AND 255 = w AND 255"
  have high: "bit v (8 + n) = bit w (8 + n)" if "n < 7" for n
    using arg_cong [OF conjunct1 [OF eq], of "\<lambda>x. bit x n"] that
    by (simp add: masks32 bit_and_iff bit_drop_bit_eq bit_mask_iff)
  have low: "bit v n = bit w n" if "n < 8" for n
    using arg_cong [OF conjunct2 [OF eq], of "\<lambda>x. bit x n"] that
    by (simp add: masks32 bit_and_iff bit_mask_iff)
  show "v AND 32767 = w AND 32767"
  proof (rule bit_word_eqI)
    fix n
    show "bit (v AND 32767) n = bit (w AND 32767) n"
      using low [of n] high [of "n - 8"]
      by (cases "n < 8") (auto simp: masks32 bit_and_iff bit_mask_iff)
  qed
next
  assume eq: "v AND 32767 = w AND 32767"
  have same: "bit v n = bit w n" if "n < 15" for n
    using arg_cong [OF eq, of "\<lambda>x. bit x n"] that
    by (simp add: masks32 bit_and_iff bit_mask_iff)
  show "drop_bit 8 v AND 127 = drop_bit 8 w AND 127 \<and> v AND 255 = w AND 255"
    by (auto intro!: bit_word_eqI simp: masks32 bit_and_iff bit_mask_iff bit_drop_bit_eq same)
qed

lemma subnet_octets_eq_iff:
  "subnet_octets x = subnet_octets y \<longleftrightarrow> fnv32a x AND 32767 = fnv32a y AND 32767"
  using low15_split [of "fnv32a x" "fnv32a y"]
  by (simp add: subnet_octets_def Let_def word_uint_eq_iff)

text \<open>Numbers separated by dots can be read back.\<close>

lemma append_sep_inject:
  "c \<notin> set xs \<Longrightarrow> c \<notin> set xs' \<Longrightarrow> xs @ c # ys = xs' @ c # ys' \<longleftrightarrow> xs = xs' \<and> ys = ys'"
proof (induction xs arbitrary: xs')
  case Nil
  then show ?case by (cases xs') auto
next
  case (Cons x xs)
  then show ?case by (cases xs') auto
qed

lemma dot_notin_itoa: "0 \<le> a \<Longrightarrow> CHR ''.'' \<notin> set (itoa a)"
  using dec_digits_all_digits [of "nat a"] by (auto simp: itoa_def is_digit_def)

lemma itoa_inject: "0 \<le> a \<Longrightarrow> 0 \<le> b \<Longrightarrow> itoa a = itoa b \<longleftrightarrow> a = b"
  using injD [OF inj_dec_digits, of "nat a" "nat b"] by (auto simp: itoa_def)

lemma cidr_inject:
  assumes "0 \<le> a" "0 \<le> b" "0 \<le> a'" "0 \<le> b'"
  shows "itoa a @ CHR ''.'' # itoa b @ CHR ''.'' # r = itoa a' @ CHR ''.'' # itoa b' @ CHR ''.'' # r
     \<longleftrightarrow> a = a' \<and> b = b'"
  using assms by (simp add: append_sep_inject dot_notin_itoa itoa_inject)

lemma subnetCIDR_octets:
  "subnetCIDRForID x = subnetCIDRForID y \<longleftrightarrow> subnet_octets x = subnet_octets y"
proof -
  obtain a b a' b' where oc: "subnet_octets x = (a, b)" "subnet_octets y = (a', b')"
    by (metis surj_pair)
  with subnet_octets_bounds [OF oc(1)] subnet_octets_bounds [OF oc(2)] show ?thesis
    using cidr_inject [of a b a' b' "''0/24''"] by (auto simp: subnetCIDRForID_def)
qed

text \<open>
  C33: the subnet of an instance is a /24 inside 10.100.0.0 to 10.227.255.255 whose gateway is its
  first address.
\<close>

theorem subnet_range:
  "\<exists>a b. 100 \<le> a \<and> a \<le> 227 \<and> 0 \<le> b \<and> b \<le> 255
     \<and> subnetCIDRForID ident = (''10.'' @ itoa a @ ''.'' @ itoa b @ ''.0/24'',
                                ''10.'' @ itoa a @ ''.'' @ itoa b @ ''.1'')"
proof -
  obtain a b where oc: "subnet_octets ident = (a, b)" by (metis surj_pair)
  with subnet_octets_bounds [OF oc] show ?thesis
    by (intro exI [of _ a] exI [of _ b]) (simp add: subnetCIDRForID_def)
qed

text \<open>
  C34: two instances get the same subnet exactly when the low fifteen bits of the FNV-1a hashes of
  their names agree: of the hash nothing more and nothing less enters the subnet.
\<close>

theorem subnet_collision_iff:
  "subnetCIDRForID x = subnetCIDRForID y \<longleftrightarrow> fnv32a x AND 32767 = fnv32a y AND 32767"
  by (simp add: subnetCIDR_octets subnet_octets_eq_iff)

text \<open>
  Subnets are not unique to an instance: the names \<open>59\<close> and \<open>asd\<close> get the same one.
\<close>

theorem subnet_clash: "''59'' \<noteq> ''asd'' \<and> subnetCIDRForID ''59'' = subnetCIDRForID ''asd''"
  by (simp add: subnetCIDR_octets subnet_octets_eq_iff) code_simp

section \<open>Passwords\<close>

lemma length_fill_buffer [simp]: "length (fill_buffer n bs) = n"
  by (simp add: fill_buffer_def)

text \<open>
  A generated password has the length asked for and consists of characters of the URL-safe
  base64 alphabet, whatever the random source answers.
\<close>

theorem randomString_ok:
  "length (fst (randomString E n s)) = n \<and> set (fst (randomString E n s)) \<subseteq> set b64_url"
proof -
  obtain bs s' where r: "Rand_Read E n s = (bs, s')" by (metis surj_pair)
  have "n \<le> 4 * ((n + 2) div 3)" and "n \<le> (4 * n + 2) div 3" by linarith+
  then show ?thesis
    using b64_encode_front [of b64_url n "fill_buffer n bs"]
    by (simp add: randomString_def r URLEncodeToString_def length_b64_encode)
qed

section \<open>Network interfaces\<close>

definition json_name :: "json \<Rightarrow> string" where
  "json_name j = (case j of
       JMap m \<Rightarrow> (case map_of m ''name'' of Some (JStr s) \<Rightarrow> s | _ \<Rightarrow> [])
     | _ \<Rightarrow> [])"

text \<open>
  KubeVirt pairs interfaces and networks by name: both lists have the same names in the same
  order, all different, and a consumer network adds one more pair.
\<close>

theorem nics_match_networks:
  "map json_name (vmInterfaces cn) = map json_name (vmNetworks ns nad cn)
   \<and> distinct (map json_name (vmInterfaces cn))
   \<and> length (vmInterfaces cn) = (if cn = [] then 2 else 3)"
  by (simp add: vmInterfaces_def vmNetworks_def json_name_def)

section \<open>New objects\<close>

text \<open>
  What is expected of apimachinery's unstructured objects: a field of a literal map is read from
  it, the setter of the namespace writes \<open>metadata.namespace\<close>, and \<open>GetName\<close> reads \<open>metadata.name\<close>.
\<close>

locale object_api = unstructured_api "NestedField E" "SetNestedField E"
  for E :: "'s env" +
  assumes nested_literal: "NestedField E (JMap m) (k # p) = Option.bind (map_of m k) (\<lambda>j. NestedField E j p)"
    and set_namespace: "SetNamespace E j n = SetNestedField E j (JStr n) [''metadata'', ''namespace'']"
    and get_name: "NestedField E j [''metadata'', ''name''] = Some (JStr name) \<Longrightarrow> GetName E j = name"
begin

lemma settable_field: "is_map j \<Longrightarrow> settable (NestedField E) j [k]"
  by (simp add: settable_def get_self)

lemma new_object:
  "is_map (newUnstructured E v k name ns)"
  "NestedField E (newUnstructured E v k name ns) [''metadata'', ''name''] = Some (JStr name)"
proof -
  let ?obj = "JMap [(''apiVersion'', JStr v), (''kind'', JStr k), (''metadata'', JMap [(''name'', JStr name)])]"
  have m: "is_map ?obj" by (simp add: is_map_def)
  have n: "NestedField E ?obj [''metadata'', ''name''] = Some (JStr name)"
    by (simp add: nested_literal get_self)
  have "apart [''metadata'', ''namespace''] [''metadata'', ''name'']" by (simp add: apart_def)
  with m n show "is_map (newUnstructured E v k name ns)"
    and "NestedField E (newUnstructured E v k name ns) [''metadata'', ''name''] = Some (JStr name)"
    by (simp_all add: newUnstructured_def Let_def set_namespace put_map get_put_apart)
qed

text \<open>A new cluster-scoped object has no \<open>spec\<close> yet, so its fields can be set.\<close>

lemma new_spec_settable: "settable (NestedField E) (newUnstructured E v k name []) [''spec'', f]"
proof -
  have "[0..<2] = [0, Suc 0]" by (simp add: upt_rec)
  then show ?thesis
    using new_object(1) [of v k name "[]"]
    by (simp add: settable_def get_self newUnstructured_def nested_literal numeral_2_eq_2)
qed

end

end
