(* ===== verification/RefWorld.thy ===== *)
theory RefWorld
  imports Kube "HOL-Library.AList"
begin

text \<open>
  A small cluster in memory: an executable instance of the interface \<open>'s env\<close>. It stores objects
  under their resource, namespace and name, answers \<open>AlreadyExists\<close> and \<open>NotFound\<close> as the API server
  does, and implements the helpers on unstructured objects. It is what the concrete instances of the
  theorems are evaluated on, and it satisfies the laws of the locales, so none of them is
  contradictory. It is no part of the program.
\<close>

section \<open>Unstructured objects\<close>

fun jget :: "json \<Rightarrow> string list \<Rightarrow> json option" where
  "jget j [] = Some j"
| "jget (JMap m) (k # ks) = (case map_of m k of None \<Rightarrow> None | Some v \<Rightarrow> jget v ks)"
| "jget _ (k # ks) = None"

fun jput :: "json \<Rightarrow> json \<Rightarrow> string list \<Rightarrow> json option" where
  "jput j v [] = None"
| "jput (JMap m) v [k] = Some (JMap (AList.update k v m))"
| "jput (JMap m) v (k # k' # ks) =
     map_option (\<lambda>w. JMap (AList.update k w m))
       (jput (case map_of m k of None \<Rightarrow> JMap [] | Some w \<Rightarrow> w) v (k' # ks))"
| "jput _ v (k # ks) = None"

definition jset :: "json \<Rightarrow> json \<Rightarrow> string list \<Rightarrow> json" where
  "jset j v p = (case jput j v p of None \<Rightarrow> j | Some j' \<Rightarrow> j')"

lemma map_of_update: "map_of (AList.update k v m) k' = (if k' = k then Some v else map_of m k')"
  by (simp add: update_conv')

lemma jput_map: "jput j v p = Some j' \<Longrightarrow> is_map j'"
  by (induction j v p arbitrary: j' rule: jput.induct) (auto simp: is_map_def)

lemma jget_jput: "jput j v p = Some j' \<Longrightarrow> jget j' p = Some v"
  by (induction j v p arbitrary: j' rule: jput.induct) (auto simp: map_of_update)

lemma jget_jput_apart: "jput j v p = Some j' \<Longrightarrow> apart p q \<Longrightarrow> jget j' q = jget j q"
proof (induction j v p arbitrary: j' q rule: jput.induct)
  case (2 m v k)
  then show ?case by (cases q) (auto simp: apart_def map_of_update)
next
  case (3 m v k k' ks)
  then obtain w where w: "jput (case map_of m k of None \<Rightarrow> JMap [] | Some w \<Rightarrow> w) v (k' # ks) = Some w"
    and j': "j' = JMap (AList.update k w m)" by auto
  from 3(3) obtain h t where q: "q = h # t" by (cases q) (auto simp: apart_def)
  show ?case
  proof (cases "h = k")
    case True
    with 3(3) q have ap: "apart (k' # ks) t" by (auto simp: apart_def)
    then have "t \<noteq> []" by (auto simp: apart_def)
    with ap 3(1) [OF w ap] True q j' show ?thesis
      by (cases t) (auto simp: map_of_update split: option.splits)
  next
    case False
    with q j' show ?thesis by (simp add: map_of_update)
  qed
qed auto

lemma jput_above:
  "jput j v p = Some j' \<Longrightarrow> strict_prefix q p \<Longrightarrow> \<exists>w. jget j' q = Some w \<and> is_map w"
proof (induction j v p arbitrary: j' q rule: jput.induct)
  case (2 m v k)
  then show ?case by (cases q) (auto simp: is_map_def)
next
  case (3 m v k k' ks)
  then obtain w where w: "jput (case map_of m k of None \<Rightarrow> JMap [] | Some w \<Rightarrow> w) v (k' # ks) = Some w"
    and j': "j' = JMap (AList.update k w m)" by auto
  show ?case
  proof (cases q)
    case Nil
    with j' show ?thesis by (simp add: is_map_def)
  next
    case (Cons h t)
    with 3(3) have "h = k" and "strict_prefix t (k' # ks)" by auto
    with 3(1) [OF w, of t] Cons j' show ?thesis by (simp add: map_of_update)
  qed
qed auto

lemma jput_defined:
  "is_map j \<Longrightarrow> p \<noteq> [] \<Longrightarrow> (\<And>q w. strict_prefix q p \<Longrightarrow> jget j q = Some w \<Longrightarrow> is_map w)
   \<Longrightarrow> \<exists>j'. jput j v p = Some j'"
proof (induction j v p rule: jput.induct)
  case (3 m v k k' ks)
  let ?w = "case map_of m k of None \<Rightarrow> JMap [] | Some w \<Rightarrow> w"
  have "is_map ?w"
  proof (cases "map_of m k")
    case (Some w)
    with 3(4) [of "[k]" w] show ?thesis by simp
  qed (simp add: is_map_def)
  moreover have "is_map w'" if "strict_prefix q (k' # ks)" "jget ?w q = Some w'" for q w'
  proof (cases "map_of m k")
    case None
    with that show ?thesis by (cases q) (auto simp: is_map_def)
  next
    case (Some w)
    with that 3(4) [of "k # q" w'] show ?thesis by simp
  qed
  ultimately show ?case using 3(1) by auto
qed (auto simp: is_map_def)

interpretation ju: unstructured_api jget jset
proof
  fix j v :: json and p q :: "string list"
  show "jget j [] = Some j" by simp
  show "is_map (jset j v p)" if "is_map j"
    using that jput_map by (auto simp: jset_def split: option.splits)
  show "jget (jset j v p) q = jget j q" if "apart p q"
    using that jget_jput_apart by (auto simp: jset_def split: option.splits)
  assume "is_map j" and "p \<noteq> []"
    and "\<And>q w. strict_prefix q p \<Longrightarrow> jget j q = Some w \<Longrightarrow> is_map w"
  then obtain j' where j': "jput j v p = Some j'" using jput_defined by blast
  then show "jget (jset j v p) p = Some v"
    using jget_jput by (simp add: jset_def)
next
  fix j v :: json and p q :: "string list"
  assume *: "is_map j" "strict_prefix q p"
    "\<And>q w. strict_prefix q p \<Longrightarrow> jget j q = Some w \<Longrightarrow> is_map w"
  then have "p \<noteq> []" by auto
  with * obtain j' where "jput j v p = Some j'" using jput_defined [of j p v] by blast
  then show "\<exists>w. jget (jset j v p) q = Some w \<and> is_map w"
    using jput_above [OF _ *(2)] by (simp add: jset_def)
qed

section \<open>The cluster\<close>

record cluster =
  cl_objs :: "((gvr \<times> string \<times> string) \<times> json) list"
  cl_insts :: "DBInstance list"
  cl_snaps :: "DBSnapshot list"
  cl_keys :: "(string \<times> string) list"
  cl_now :: int
  cl_sched :: "nat list"

definition empty_cluster :: cluster where
  "empty_cluster = \<lparr>cl_objs = [], cl_insts = [], cl_snaps = [], cl_keys = [], cl_now = 0, cl_sched = []\<rparr>"

definition jname :: "json \<Rightarrow> string" where
  "jname j = (case jget j [''metadata'', ''name''] of Some (JStr s) \<Rightarrow> s | _ \<Rightarrow> [])"

definition not_found :: error where "not_found = Error NotFound ''not found''"

definition already_exists :: error where "already_exists = Error AlreadyExists ''already exists''"

text \<open>Of a Secret, \<open>stringData\<close> is stored base64-encoded in \<open>data\<close>.\<close>

definition admit :: "gvr \<Rightarrow> json \<Rightarrow> json" where
  "admit g j = (if gvr_Resource g = ''secrets''
     then (case jget j [''stringData''] of
         Some (JMap m) \<Rightarrow>
           jset j (JMap (map (\<lambda>kv. (fst kv, case snd kv of JStr v \<Rightarrow> JStr (StdEncodeToString v) | v \<Rightarrow> v)) m))
             [''data'']
       | _ \<Rightarrow> j)
     else j)"

definition same_key :: "DBInstance \<Rightarrow> DBInstance \<Rightarrow> bool" where
  "same_key i j = (m_Name (inst_ObjectMeta i) = m_Name (inst_ObjectMeta j)
     \<and> m_Namespace (inst_ObjectMeta i) = m_Namespace (inst_ObjectMeta j))"

definition ref_create :: "gvr \<Rightarrow> string \<Rightarrow> json \<Rightarrow> cluster \<Rightarrow> (error + json) \<times> cluster" where
  "ref_create g n j s = (case map_of (cl_objs s) (g, n, jname j) of
       Some _ \<Rightarrow> (Inl already_exists, s)
     | None \<Rightarrow> (Inr (admit g j), s\<lparr>cl_objs := ((g, n, jname j), admit g j) # cl_objs s\<rparr>))"

definition ref_get :: "gvr \<Rightarrow> string \<Rightarrow> string \<Rightarrow> cluster \<Rightarrow> (error + json) \<times> cluster" where
  "ref_get g n k s = (case map_of (cl_objs s) (g, n, k) of
       None \<Rightarrow> (Inl not_found, s)
     | Some j \<Rightarrow> (Inr j, s))"

definition ref_update :: "gvr \<Rightarrow> string \<Rightarrow> json \<Rightarrow> cluster \<Rightarrow> (error + json) \<times> cluster" where
  "ref_update g n j s = (case map_of (cl_objs s) (g, n, jname j) of
       None \<Rightarrow> (Inl not_found, s)
     | Some _ \<Rightarrow> (Inr (admit g j), s\<lparr>cl_objs := AList.update (g, n, jname j) (admit g j) (cl_objs s)\<rparr>))"

definition ref_delete :: "gvr \<Rightarrow> string \<Rightarrow> string \<Rightarrow> cluster \<Rightarrow> error option \<times> cluster" where
  "ref_delete g n k s = (case map_of (cl_objs s) (g, n, k) of
       None \<Rightarrow> (Some not_found, s)
     | Some _ \<Rightarrow> (None, s\<lparr>cl_objs := AList.delete (g, n, k) (cl_objs s)\<rparr>))"

definition ref_write_inst ::
  "(DBInstance \<Rightarrow> DBInstance) \<Rightarrow> DBInstance \<Rightarrow> cluster \<Rightarrow> (error option \<times> DBInstance) \<times> cluster" where
  "ref_write_inst f i s = (if list_ex (same_key i) (cl_insts s)
     then ((None, i), s\<lparr>cl_insts := map (\<lambda>j. if same_key i j then f j else j) (cl_insts s)\<rparr>)
     else ((Some not_found, i), s))"

definition ref_cert :: "string \<Rightarrow> Certificate" where
  "ref_cert cn = \<lparr>crt_SerialNumber = 1, crt_CommonName = cn, crt_NotBefore = 0, crt_NotAfter = 0,
     crt_IsCA = True, crt_KeyUsage = [KeyUsageCertSign], crt_ExtKeyUsageServerAuth = False,
     crt_BasicConstraintsValid = True, crt_DNSNames = [], crt_IPAddresses = []\<rparr>"

definition ref_env :: "cluster env" where
  "ref_env = \<lparr>
     Client_GrafanaURL = ''https://grafana'',
     Dyn_Create = ref_create,
     Dyn_Get = ref_get,
     Dyn_Update = ref_update,
     Dyn_Delete = ref_delete,
     Dyn_List = (\<lambda>g n s. (Inr (map snd (filter (\<lambda>e. fst (fst e) = g \<and> fst (snd (fst e)) = n) (cl_objs s))), s)),
     SetNestedField = jset,
     NestedField = jget,
     SetLabels = (\<lambda>j l. jset j (JMap (map (\<lambda>kv. (fst kv, JStr (snd kv))) l)) [''metadata'', ''labels'']),
     SetNamespace = (\<lambda>j n. jset j (JStr n) [''metadata'', ''namespace'']),
     GetName = jname,
     GetCreationTimestamp = (\<lambda>_. 0),
     Get_DBInstance = (\<lambda>n k s. (case find (\<lambda>i. m_Name (inst_ObjectMeta i) = k
            \<and> m_Namespace (inst_ObjectMeta i) = n) (cl_insts s) of
          None \<Rightarrow> Inl not_found | Some i \<Rightarrow> Inr i, s)),
     Update_DBInstance = (\<lambda>i. ref_write_inst (\<lambda>j. i\<lparr>inst_Status := inst_Status j\<rparr>) i),
     StatusUpdate_DBInstance = (\<lambda>i. ref_write_inst (\<lambda>j. j\<lparr>inst_Status := inst_Status i\<rparr>) i),
     Create_DBInstance = (\<lambda>i s. (if list_ex (same_key i) (cl_insts s) then ((Some already_exists, i), s)
          else ((None, i), s\<lparr>cl_insts := i # cl_insts s\<rparr>))),
     Delete_DBInstance = (\<lambda>i s. (if list_ex (same_key i) (cl_insts s)
          then (None, s\<lparr>cl_insts := filter (\<lambda>j. \<not> same_key i j) (cl_insts s)\<rparr>) else (Some not_found, s))),
     List_DBInstance = (\<lambda>s. (Inr (cl_insts s), s)),
     Get_DBSnapshot = (\<lambda>n k s. (case find (\<lambda>i. m_Name (snap_ObjectMeta i) = k
            \<and> m_Namespace (snap_ObjectMeta i) = n) (cl_snaps s) of
          None \<Rightarrow> Inl not_found | Some i \<Rightarrow> Inr i, s)),
     StatusUpdate_DBSnapshot = (\<lambda>i s. ((None, i), s\<lparr>cl_snaps := map (\<lambda>j.
          if m_Name (snap_ObjectMeta j) = m_Name (snap_ObjectMeta i)
            \<and> m_Namespace (snap_ObjectMeta j) = m_Namespace (snap_ObjectMeta i)
          then j\<lparr>snap_Status := snap_Status i\<rparr> else j) (cl_snaps s)\<rparr>)),
     Get_Secret = (\<lambda>n k s. (if k = ''dbaas-api-keys'' \<and> n = ''dbaas-system'' then Inr (cl_keys s)
          else Inl not_found, s)),
     ContainsFinalizer = (\<lambda>fs f. f \<in> set fs),
     AddFinalizer = (\<lambda>fs f. if f \<in> set fs then fs else fs @ [f]),
     RemoveFinalizer = (\<lambda>fs f. filter (\<lambda>x. x \<noteq> f) fs),
     Time_Now = (\<lambda>s. (cl_now s, s\<lparr>cl_now := cl_now s + 1\<rparr>)),
     Rand_Read = (\<lambda>n s. (replicate n (CHR ''r''), s)),
     Rsa_GenerateKey = (\<lambda>b s. (Inr ''rsa'', s)),
     Rsa_PublicKey = (\<lambda>k. k @ ''.pub''),
     X509_CreateCertificate = (\<lambda>t p k1 k2 s. (Inr (crt_CommonName t), s)),
     X509_ParseCertificate = (\<lambda>der. Inr (ref_cert der)),
     X509_MarshalPKCS1PrivateKey = (\<lambda>k. k),
     X509_ParsePKCS1PrivateKey = (\<lambda>k. Inr k),
     Pem_Encode = (\<lambda>ty b. ''PEM:'' @ b),
     Pem_Decode = (\<lambda>t. if prefix ''PEM:'' t then Some (drop 4 t) else None),
     Ed25519_GenerateKey = (\<lambda>s. (Inr (''ed.pub'', ''ed''), s)),
     Ssh_MarshalPrivateKey = (\<lambda>k c s. (Inr (''OPENSSH PRIVATE KEY'', k), s)),
     Ssh_NewPublicKey = (\<lambda>k. Inr k),
     Ssh_MarshalAuthorizedKey = (\<lambda>k. ''ssh-ed25519 '' @ k @ [CHR 0x0A]),
     Ssh_ParsePrivateKey = (\<lambda>t. if prefix ''PEM:'' t then Inr (drop 4 t) else Inl (Errorf ''no key'')),
     Ssh_Dial = (\<lambda>a u k s. (Inr (), s)),
     Ssh_NewSession = (\<lambda>s. (Inr (), s)),
     Ssh_Run = (\<lambda>c s. ((None, ''ok''), s)),
     Go_Sched = (\<lambda>s. (cl_sched s, s))\<rparr>"

interpretation ref_client: cr_client ref_env
  by unfold_locales (auto simp: ref_env_def ref_write_inst_def same_object_def split: if_splits)

interpretation ref_objects: unstructured_api "NestedField ref_env" "SetNestedField ref_env"
  using ju.unstructured_api_axioms by (simp add: ref_env_def)

end
