(* ===== verification/HvNetwork.thy ===== *)
theory HvNetwork
  imports HvCommon RefWorld
begin

text \<open>
  The network, storage and monitoring operations of \<open>internal/harvester/client.go\<close>:
  \<open>CreateVPCNetwork\<close>, \<open>CreateVpcPeering\<close>, \<open>CreateDataVolume\<close>, \<open>ResizeDataVolume\<close> and
  \<open>DeployMonitoring\<close>.
\<close>

section \<open>Names of the objects of an instance\<close>

definition vpc_name :: "string \<Rightarrow> string" where "vpc_name ident = ''dbaas-'' @ ident @ ''-vpc''"

definition subnet_name :: "string \<Rightarrow> string" where
  "subnet_name ident = ''dbaas-'' @ ident @ ''-subnet''"

definition nad_name :: "string \<Rightarrow> string" where "nad_name ident = ''dbaas-'' @ ident @ ''-nad''"

definition peering_name :: "string \<Rightarrow> string" where
  "peering_name ident = ''dbaas-'' @ ident @ ''-peering''"

definition dv_name :: "string \<Rightarrow> string" where "dv_name ident = ''pg-'' @ ident @ ''-data''"

definition sm_name :: "string \<Rightarrow> string" where "sm_name ident = ''pg-'' @ ident @ ''-monitor''"

definition svc_name :: "string \<Rightarrow> string" where "svc_name ident = ''pg-'' @ ident @ ''-metrics''"

section \<open>Network\<close>

definition nad_provider :: "string \<Rightarrow> string \<Rightarrow> string" where
  "nad_provider ident ns = nad_name ident @ ''.'' @ ns @ ''.ovn''"

definition vpc_object :: "'s env \<Rightarrow> string \<Rightarrow> string \<Rightarrow> json" where
  "vpc_object E ident ns =
     SetNestedField E (newUnstructured E ''kubeovn.io/v1'' ''Vpc'' (vpc_name ident) [])
       (JList [JStr ns]) [''spec'', ''namespaces'']"

definition nad_config :: "string \<Rightarrow> string" where
  "nad_config provider =
     ''{\"cniVersion\":\"0.3.1\",\"type\":\"kube-ovn\",\"server_socket\":\"/run/openvswitch/kube-ovn-daemon.sock\",\"provider\":\"''
     @ provider @ ''\"}''"

definition nad_object :: "'s env \<Rightarrow> string \<Rightarrow> string \<Rightarrow> json" where
  "nad_object E ident ns =
     (let nad = SetLabels E
            (newUnstructured E ''k8s.cni.cncf.io/v1'' ''NetworkAttachmentDefinition'' (nad_name ident) ns)
            [(''network.harvesterhci.io/type'', ''OverlayNetwork''),
             (''network.harvesterhci.io/clusternetwork'', ''mgmt''),
             (''network.harvesterhci.io/ready'', ''true'')]
      in SetNestedField E nad (JStr (nad_config (nad_provider ident ns))) [''spec'', ''config''])"

definition subnet_object :: "'s env \<Rightarrow> string \<Rightarrow> string \<Rightarrow> string \<Rightarrow> json" where
  "subnet_object E ident ns consumerVLAN =
     (let (cidr, gw) = subnetCIDRForID ident;
          set = (\<lambda>key v obj. SetNestedField E obj v [''spec'', key])
      in set ''allowSubnets'' (JList [JStr consumerVLAN])
         (set ''enableDHCP'' (JBool True)
         (set ''private'' (JBool True)
         (set ''namespaces'' (JList [JStr ns])
         (set ''protocol'' (JStr ''IPv4'')
         (set ''gateway'' (JStr gw)
         (set ''cidrBlock'' (JStr cidr)
         (set ''provider'' (JStr (nad_provider ident ns))
         (set ''vpc'' (JStr (vpc_name ident))
         (newUnstructured E ''kubeovn.io/v1'' ''Subnet'' (subnet_name ident) []))))))))))"

definition static_route :: "string \<Rightarrow> json" where
  "static_route consumerVLAN =
     JMap [(''cidr'', JStr consumerVLAN), (''nextHopIP'', JStr ''autodetect''),
           (''policy'', JStr ''policyDst'')]"

definition add_static_route :: "'s env \<Rightarrow> string \<Rightarrow> json \<Rightarrow> json" where
  "add_static_route E consumerVLAN created =
     SetNestedField E created
       (JList (NestedSlice E created [''spec'', ''staticRoutes''] @ [static_route consumerVLAN]))
       [''spec'', ''staticRoutes'']"

text \<open>
  Step 1: create the VPC; when it exists already, read it, and go on without it if that fails.
\<close>

definition ensure_vpc :: "'s env \<Rightarrow> string \<Rightarrow> string \<Rightarrow> 's \<Rightarrow> (error + json option) \<times> 's" where
  "ensure_vpc E ident ns s =
     (case Dyn_Create E vpcGVR [] (vpc_object E ident ns) s of
        (Inr created, s1) \<Rightarrow> (Inr (Some created), s1)
      | (Inl e, s1) \<Rightarrow>
          if \<not> IsAlreadyExists e then (Inl e, s1)
          else (case Dyn_Get E vpcGVR [] (vpc_name ident) s1 of
                  (Inr created, s2) \<Rightarrow> (Inr (Some created), s2)
                | (Inl _, s2) \<Rightarrow> (Inr None, s2)))"

definition CreateVPCNetwork ::
  "'s env \<Rightarrow> string \<Rightarrow> string \<Rightarrow> string \<Rightarrow> 's \<Rightarrow> (string \<times> string \<times> string \<times> error option) \<times> 's" where
  "CreateVPCNetwork E ident ns consumerVLAN s =
     (let ret = (\<lambda>err. (vpc_name ident, subnet_name ident, nad_name ident, err)) in
      case ensure_vpc E ident ns s of
        (Inl e, s1) \<Rightarrow> (ret (Some e), s1)
      | (Inr created, s1) \<Rightarrow>
          (case create_tolerant E nadGVR ns (nad_object E ident ns) s1 of
             (Some e, s2) \<Rightarrow> (ret (Some e), s2)
           | (None, s2) \<Rightarrow>
               (case create_tolerant E subnetGVR [] (subnet_object E ident ns consumerVLAN) s2 of
                  (Some e, s3) \<Rightarrow> (ret (Some e), s3)
                | (None, s3) \<Rightarrow>
                    (case created of
                       None \<Rightarrow> (ret None, s3)
                     | Some vpc \<Rightarrow>
                         (case Dyn_Update E vpcGVR [] (add_static_route E consumerVLAN vpc) s3 of
                            (_, s4) \<Rightarrow> (ret None, s4))))))"

definition peering_object :: "'s env \<Rightarrow> string \<Rightarrow> string \<Rightarrow> string \<Rightarrow> string \<Rightarrow> string \<Rightarrow> json" where
  "peering_object E ident dbVpcName dbSubnetName remoteVpc remoteSubnet =
     (let set = (\<lambda>key v obj. SetNestedField E obj v [''spec'', key])
      in set ''remoteSubnets'' (JList [JStr remoteSubnet])
         (set ''localSubnets'' (JList [JStr dbSubnetName])
         (set ''remoteVpc'' (JStr remoteVpc)
         (set ''localVpc'' (JStr dbVpcName)
         (newUnstructured E ''kubeovn.io/v1'' ''VpcPeering'' (peering_name ident) [])))))"

definition CreateVpcPeering ::
  "'s env \<Rightarrow> string \<Rightarrow> string \<Rightarrow> string \<Rightarrow> string \<Rightarrow> string \<Rightarrow> 's \<Rightarrow> (string \<times> error option) \<times> 's" where
  "CreateVpcPeering E ident dbVpcName dbSubnetName remoteVpc remoteSubnet s =
     (case Dyn_Create E vpcPeeringGVR []
             (peering_object E ident dbVpcName dbSubnetName remoteVpc remoteSubnet) s of
        (Inl e, s1) \<Rightarrow>
          (if IsAlreadyExists e then (peering_name ident, None) else ([], Some e), s1)
      | (Inr _, s1) \<Rightarrow> ((peering_name ident, None), s1))"

section \<open>Storage\<close>

abbreviation storage_path :: "string list" where
  "storage_path \<equiv> [''spec'', ''pvc'', ''resources'', ''requests'', ''storage'']"

definition dv_object :: "'s env \<Rightarrow> string \<Rightarrow> string \<Rightarrow> int \<Rightarrow> string \<Rightarrow> json" where
  "dv_object E ident ns sizeGB storageClass =
     (let dv0 = SetLabels E
            (newUnstructured E ''cdi.kubevirt.io/v1beta1'' ''DataVolume'' (dv_name ident) ns)
            [(LabelInstance, ident), (LabelRole, ''pgdata'')];
          dv1 = SetNestedField E dv0 (JMap []) [''spec'', ''source'', ''blank''];
          dv2 = SetNestedField E dv1 (JList [JStr ''ReadWriteOnce'']) [''spec'', ''pvc'', ''accessModes''];
          dv3 = SetNestedField E dv2 (JStr ''Block'') [''spec'', ''pvc'', ''volumeMode''];
          dv4 = SetNestedField E dv3 (JStr (itoa sizeGB @ ''Gi'')) storage_path
      in SetNestedField E dv4 (JStr storageClass) [''spec'', ''pvc'', ''storageClassName''])"

definition CreateDataVolume ::
  "'s env \<Rightarrow> string \<Rightarrow> string \<Rightarrow> int \<Rightarrow> string \<Rightarrow> 's \<Rightarrow> (string \<times> error option) \<times> 's" where
  "CreateDataVolume E ident ns sizeGB storageClass s =
     (case create_tolerant E dvGVR ns (dv_object E ident ns sizeGB storageClass) s of
        (err, s1) \<Rightarrow> ((dv_name ident, err), s1))"

text \<open>
  A read followed by a write. \<open>resize_dv_edit\<close> is what happens to the object in between; the two
  API calls are separate steps where the operation runs beside another one.
\<close>

definition resize_dv_edit :: "'s env \<Rightarrow> int \<Rightarrow> json \<Rightarrow> json" where
  "resize_dv_edit E newSizeGB dv = SetNestedField E dv (JStr (itoa newSizeGB @ ''Gi'')) storage_path"

definition get_edit_update ::
  "'s env \<Rightarrow> gvr \<Rightarrow> string \<Rightarrow> string \<Rightarrow> (json \<Rightarrow> json) \<Rightarrow> 's \<Rightarrow> error option \<times> 's" where
  "get_edit_update E g ns name edit s =
     (case Dyn_Get E g ns name s of
        (Inl e, s1) \<Rightarrow> (Some e, s1)
      | (Inr obj, s1) \<Rightarrow>
          (case Dyn_Update E g ns (edit obj) s1 of
             (Inl e, s2) \<Rightarrow> (Some e, s2)
           | (Inr _, s2) \<Rightarrow> (None, s2)))"

definition ResizeDataVolume :: "'s env \<Rightarrow> string \<Rightarrow> string \<Rightarrow> int \<Rightarrow> 's \<Rightarrow> error option \<times> 's" where
  "ResizeDataVolume E ns dvName newSizeGB s =
     get_edit_update E dvGVR ns dvName (resize_dv_edit E newSizeGB) s"

section \<open>Monitoring\<close>

definition metrics_service :: "'s env \<Rightarrow> string \<Rightarrow> string \<Rightarrow> json" where
  "metrics_service E ident ns =
     (let svc0 = SetLabels E (newUnstructured E ''v1'' ''Service'' (svc_name ident) ns)
            [(LabelInstance, ident), (LabelMetrics, ''true'')];
          svc1 = SetNestedField E svc0 (JStr ''ClusterIP'') [''spec'', ''type''];
          svc2 = SetNestedField E svc1 (JStr ''None'') [''spec'', ''clusterIP''];
          svc3 = SetNestedField E svc2 (JMap [(LabelInstance, JStr ident)]) [''spec'', ''selector'']
      in SetNestedField E svc3
           (JList [JMap [(''name'', JStr ''metrics''), (''port'', JInt 9187),
                         (''targetPort'', JInt 9187), (''protocol'', JStr ''TCP'')]])
           [''spec'', ''ports''])"

definition service_monitor :: "'s env \<Rightarrow> string \<Rightarrow> string \<Rightarrow> json" where
  "service_monitor E ident ns =
     (let sm0 = SetLabels E
            (newUnstructured E ''monitoring.coreos.com/v1'' ''ServiceMonitor'' (sm_name ident) ns)
            [(LabelInstance, ident), (''release'', ''prometheus'')];
          sm1 = SetNestedField E sm0
            (JMap [(''matchLabels'', JMap [(LabelMetrics, JStr ''true''), (LabelInstance, JStr ident)])])
            [''spec'', ''selector'']
      in SetNestedField E sm1
           (JList [JMap [(''port'', JStr ''metrics''), (''interval'', JStr ''15s''),
                         (''path'', JStr ''/metrics'')]])
           [''spec'', ''endpoints''])"

definition DeployMonitoring ::
  "'s env \<Rightarrow> string \<Rightarrow> string \<Rightarrow> string \<Rightarrow> int \<Rightarrow> 's
   \<Rightarrow> (string \<times> string \<times> string \<times> error option) \<times> 's" where
  "DeployMonitoring E ident ns vmAddr pgPort s =
     (let grafanaURL = Client_GrafanaURL E @ ''/d/dbaas-'' @ ident @ ''/postgresql-'' @ ident;
          promTarget = svc_name ident @ ''.'' @ ns @ ''.svc:9187''
      in case Dyn_Create E serviceGVR ns (metrics_service E ident ns) s of (_, s1) \<Rightarrow>
         (case Dyn_Create E smGVR ns (service_monitor E ident ns) s1 of
            (Inl e, s2) \<Rightarrow> ((sm_name ident, grafanaURL, promTarget, Some e), s2)
          | (Inr _, s2) \<Rightarrow> ((sm_name ident, grafanaURL, promTarget, None), s2)))"

section \<open>Effects\<close>

text \<open>Which calls each operation makes, over any log.\<close>

abbreviation network_kinds :: "gvr list" where "network_kinds \<equiv> [vpcGVR, nadGVR, subnetGVR]"

context recorder
begin

lemma create_tolerant_log:
  "create_tolerant E g ns obj s = (r, s') \<Longrightarrow> lg s' = lg s @ [CCreate g ns obj]"
  by (auto simp: create_tolerant_def split: prod.splits sum.splits dest: Dyn_Create_log)

lemma get_edit_update_emits:
  "get_edit_update E g ns name edit s = (r, s') \<Longrightarrow> emits lg (provisions [g]) s s'"
  by (auto simp: get_edit_update_def emits_def split: prod.splits sum.splits
      dest!: Dyn_Get_log Dyn_Update_log)

lemma ensure_vpc_log:
  "ensure_vpc E ident ns s = (r, s') \<Longrightarrow>
     lg s' = lg s @ [CCreate vpcGVR [] (vpc_object E ident ns)]
     \<or> lg s' = lg s @ [CCreate vpcGVR [] (vpc_object E ident ns), CGet vpcGVR [] (vpc_name ident)]"
  by (auto simp: ensure_vpc_def split: prod.splits sum.splits if_splits
      dest!: Dyn_Create_log Dyn_Get_log)

text \<open>The objects of the network, in the order in which they are created.\<close>

lemma CreateVPCNetwork_log:
  assumes "CreateVPCNetwork E ident ns vlan s = (r, s')"
  shows "\<exists>cs. lg s' = lg s @ cs \<and> list_all (provisions network_kinds) cs
     \<and> prefix (filter is_create cs)
         [CCreate vpcGVR [] (vpc_object E ident ns), CCreate nadGVR ns (nad_object E ident ns),
          CCreate subnetGVR [] (subnet_object E ident ns vlan)]
     \<and> (snd (snd (snd r)) = None \<longrightarrow> filter is_create cs =
         [CCreate vpcGVR [] (vpc_object E ident ns), CCreate nadGVR ns (nad_object E ident ns),
          CCreate subnetGVR [] (subnet_object E ident ns vlan)])"
  using assms
  by (auto simp: CreateVPCNetwork_def Let_def split: prod.splits sum.splits option.splits
      dest!: ensure_vpc_log create_tolerant_log Dyn_Update_log)

lemma CreateVPCNetwork_emits:
  "CreateVPCNetwork E ident ns vlan s = (r, s') \<Longrightarrow> emits lg (provisions network_kinds) s s'"
  using CreateVPCNetwork_log unfolding emits_def by blast

lemma CreateVpcPeering_log:
  "CreateVpcPeering E ident lv ls rv rs s = (r, s') \<Longrightarrow>
     lg s' = lg s @ [CCreate vpcPeeringGVR [] (peering_object E ident lv ls rv rs)]"
  by (auto simp: CreateVpcPeering_def split: prod.splits sum.splits dest: Dyn_Create_log)

lemma CreateDataVolume_log:
  "CreateDataVolume E ident ns gb cls s = (r, s') \<Longrightarrow>
     lg s' = lg s @ [CCreate dvGVR ns (dv_object E ident ns gb cls)]"
  by (auto simp: CreateDataVolume_def split: prod.splits dest: create_tolerant_log)

lemma DeployMonitoring_log:
  "DeployMonitoring E ident ns addr port s = (r, s') \<Longrightarrow>
     lg s' = lg s @ [CCreate serviceGVR ns (metrics_service E ident ns),
                     CCreate smGVR ns (service_monitor E ident ns)]"
  by (auto simp: DeployMonitoring_def Let_def split: prod.splits sum.splits dest!: Dyn_Create_log)

end

lemma CreateVPCNetwork_names:
  "CreateVPCNetwork E ident ns vlan s = ((v, n, d, err), s') \<Longrightarrow>
     v = vpc_name ident \<and> n = subnet_name ident \<and> d = nad_name ident"
  by (auto simp: CreateVPCNetwork_def Let_def split: prod.splits sum.splits option.splits)

lemma CreateDataVolume_name:
  "CreateDataVolume E ident ns gb cls s = ((n, err), s') \<Longrightarrow> n = dv_name ident"
  by (auto simp: CreateDataVolume_def split: prod.splits)

lemma CreateVpcPeering_name:
  "CreateVpcPeering E ident lv ls rv rs s = ((n, None), s') \<Longrightarrow> n = peering_name ident"
  by (auto simp: CreateVpcPeering_def split: prod.splits sum.splits if_splits)

lemma DeployMonitoring_name:
  "DeployMonitoring E ident ns addr port s = ((n, u, t, err), s') \<Longrightarrow> n = sm_name ident"
  by (auto simp: DeployMonitoring_def Let_def split: prod.splits sum.splits)

lemma names_nonempty [simp]:
  "vpc_name ident \<noteq> []" "subnet_name ident \<noteq> []" "nad_name ident \<noteq> []" "peering_name ident \<noteq> []"
  "dv_name ident \<noteq> []" "sm_name ident \<noteq> []" "svc_name ident \<noteq> []"
  by (simp_all add: vpc_name_def subnet_name_def nad_name_def peering_name_def dv_name_def
      sm_name_def svc_name_def)

text \<open>The objects do not depend on the recorder.\<close>

lemma newUnstructured_traced [simp]: "newUnstructured (traced E) = newUnstructured E"
  by (simp add: fun_eq_iff newUnstructured_def Let_def)

lemma network_objects_traced [simp]:
  "vpc_object (traced E) = vpc_object E" "nad_object (traced E) = nad_object E"
  "subnet_object (traced E) = subnet_object E" "peering_object (traced E) = peering_object E"
  "dv_object (traced E) = dv_object E" "metrics_service (traced E) = metrics_service E"
  "service_monitor (traced E) = service_monitor E" "resize_dv_edit (traced E) = resize_dv_edit E"
  by (simp_all add: fun_eq_iff vpc_object_def nad_object_def subnet_object_def peering_object_def
      dv_object_def metrics_service_def service_monitor_def resize_dv_edit_def)

lemma network_objects_answered [simp]:
  "newUnstructured (answered E) = newUnstructured E"
  "vpc_object (answered E) = vpc_object E" "nad_object (answered E) = nad_object E"
  "subnet_object (answered E) = subnet_object E"
  "NestedSlice (answered E) = NestedSlice E" "add_static_route (answered E) = add_static_route E"
  by (simp_all add: fun_eq_iff newUnstructured_def vpc_object_def nad_object_def subnet_object_def
      NestedSlice_def add_static_route_def Let_def)

text \<open>An answer to a creation after which the client goes on.\<close>

definition tolerated :: "answer \<Rightarrow> bool" where
  "tolerated a = (case a of Obj (Inr _) \<Rightarrow> True | Obj (Inl e) \<Rightarrow> IsAlreadyExists e | _ \<Rightarrow> False)"

lemma create_tolerant_answered:
  "create_tolerant (answered E) g ns obj w = (err, w') \<Longrightarrow>
     \<exists>a. snd w' = snd w @ [(CCreate g ns obj, Obj a)]
       \<and> (case err of None \<Rightarrow> tolerated (Obj a) | Some e \<Rightarrow> a = Inl e \<and> \<not> IsAlreadyExists e)"
  by (auto simp: create_tolerant_def answered_dyn note_call_iff tolerated_def ignoreAlreadyExists_def
      split: prod.splits sum.splits if_splits)

text \<open>How a VPC is come by: it is created, or it is there already and read, perhaps in vain.\<close>

definition vpc_part :: "'s env \<Rightarrow> string \<Rightarrow> string \<Rightarrow> (call \<times> answer) list \<Rightarrow> json option \<Rightarrow> bool" where
  "vpc_part E ident ns L vpc =
     ((\<exists>v. L = [(CCreate vpcGVR [] (vpc_object E ident ns), Obj (Inr v))] \<and> vpc = Some v)
      \<or> (\<exists>e a. L = [(CCreate vpcGVR [] (vpc_object E ident ns), Obj (Inl e)),
                    (CGet vpcGVR [] (vpc_name ident), Obj a)]
           \<and> IsAlreadyExists e \<and> vpc = (case a of Inr v \<Rightarrow> Some v | Inl _ \<Rightarrow> None)))"

lemma ensure_vpc_answered:
  "ensure_vpc (answered E) ident ns w = (r, w') \<Longrightarrow>
     (case r of
        Inr vpc \<Rightarrow> \<exists>L. snd w' = snd w @ L \<and> vpc_part E ident ns L vpc
      | Inl e \<Rightarrow> snd w' = snd w @ [(CCreate vpcGVR [] (vpc_object E ident ns), Obj (Inl e))]
                 \<and> \<not> IsAlreadyExists e)"
  by (auto simp: ensure_vpc_def answered_dyn note_call_iff vpc_part_def
      split: prod.splits sum.splits if_splits)

text \<open>
  C21: \<open>CreateVPCNetwork\<close> comes by the VPC, then creates the network attachment, then the subnet,
  each with its answer; an error other than \<open>AlreadyExists\<close> is returned and nothing is called after it. Only when all
  three are there is the VPC written back, once and last, with the route to the consumer's network
  added behind the routes it had; that write is left out when the VPC could not be read.
\<close>

theorem network_order:
  assumes "CreateVPCNetwork (answered E) ident ns vlan (s, []) = ((v, n, d, err), (s', L))"
  shows "(v, n, d) = (vpc_name ident, subnet_name ident, nad_name ident)
    \<and> (let nad = CCreate nadGVR ns (nad_object E ident ns);
           subnet = CCreate subnetGVR [] (subnet_object E ident ns vlan)
       in case err of
         None \<Rightarrow> \<exists>H vpc a b. vpc_part E ident ns H vpc \<and> tolerated a \<and> tolerated b
           \<and> (case vpc of
                None \<Rightarrow> L = H @ [(nad, a), (subnet, b)]
              | Some x \<Rightarrow> \<exists>c. L = H @ [(nad, a), (subnet, b),
                  (CUpdate vpcGVR [] (SetNestedField E x
                     (JList (NestedSlice E x [''spec'', ''staticRoutes'']
                       @ [JMap [(''cidr'', JStr vlan), (''nextHopIP'', JStr ''autodetect''),
                                (''policy'', JStr ''policyDst'')]])) [''spec'', ''staticRoutes'']), c)])
       | Some e \<Rightarrow> \<not> IsAlreadyExists e
           \<and> (L = [(CCreate vpcGVR [] (vpc_object E ident ns), Obj (Inl e))]
              \<or> (\<exists>H vpc. vpc_part E ident ns H vpc
                   \<and> (L = H @ [(nad, Obj (Inl e))]
                      \<or> (\<exists>a. tolerated a \<and> L = H @ [(nad, a), (subnet, Obj (Inl e))])))))"
proof (rule conjI, goal_cases)
  case 1
  show ?case using CreateVPCNetwork_names [OF assms] by simp
next
  case 2
  show ?case
    using assms unfolding Let_def
    by (auto simp: CreateVPCNetwork_def Let_def add_static_route_def static_route_def answered_dyn note_call_iff
        split: prod.splits sum.splits option.splits
        dest!: ensure_vpc_answered create_tolerant_answered) blast+
qed

theorem network_order_witness:
  "\<exists>L x c. snd (snd (CreateVPCNetwork (answered ref_env) ''db'' ''team-a'' ''10.50.0.0/24'' (empty_cluster, [])))
     = L @ [(CUpdate vpcGVR [] x, c)]
   \<and> map fst L = [CCreate vpcGVR [] (vpc_object ref_env ''db'' ''team-a''),
        CCreate nadGVR ''team-a'' (nad_object ref_env ''db'' ''team-a''),
        CCreate subnetGVR [] (subnet_object ref_env ''db'' ''team-a'' ''10.50.0.0/24'')]"
proof -
  let ?run = "CreateVPCNetwork (answered ref_env) ''db'' ''team-a'' ''10.50.0.0/24'' (empty_cluster, [])"
  obtain v n d err s' L where r: "?run = ((v, n, d, err), (s', L))" by (metis surj_pair)
  have "snd (snd (snd (fst ?run))) = None" "\<not> (case fst (snd (snd ?run) ! 1) of CGet _ _ _ \<Rightarrow> True | _ \<Rightarrow> False)"
    by code_simp+
  then have "err = None" "\<not> (case fst (L ! 1) of CGet _ _ _ \<Rightarrow> True | _ \<Rightarrow> False)" by (simp_all add: r)
  with network_order [OF r] show ?thesis
    by (auto simp: r vpc_part_def Let_def split: option.splits)
qed

section \<open>Resizing a volume\<close>

text \<open>
  Resizing a data volume sets the requested size and leaves every other field of the object as
  it was read.
\<close>

theorem resize_dv_frame:
  assumes "unstructured_api (NestedField E) (SetNestedField E)"
    and "settable (NestedField E) dv storage_path"
  shows "NestedField E (resize_dv_edit E gb dv) storage_path = Some (JStr (itoa gb @ ''Gi''))
     \<and> (apart storage_path q \<longrightarrow> NestedField E (resize_dv_edit E gb dv) q = NestedField E dv q)"
  using unstructured_api.put_settable [OF assms] unstructured_api.get_put_apart [OF assms(1)]
  by (simp add: resize_dv_edit_def)

definition sample_dv :: json where
  "sample_dv = JMap [(''metadata'', JMap [(''name'', JStr ''pg-a-data'')]),
     (''spec'', JMap [(''pvc'', JMap [(''volumeMode'', JStr ''Block''),
        (''resources'', JMap [(''requests'', JMap [(''storage'', JStr ''20Gi'')])])])])]"

theorem resize_dv_frame_witness:
  "NestedField ref_env (resize_dv_edit ref_env 50 sample_dv) storage_path = Some (JStr ''50Gi'')
   \<and> NestedField ref_env (resize_dv_edit ref_env 50 sample_dv) [''spec'', ''pvc'', ''volumeMode'']
       = Some (JStr ''Block'')"
proof -
  have s: "settable (NestedField ref_env) sample_dv storage_path"
    by (simp add: settable_def ref_env_def sample_dv_def is_map_def)
  have a: "apart storage_path [''spec'', ''pvc'', ''volumeMode'']"
    by (simp add: apart_def)
  have i: "itoa 50 = ''50''" by code_simp
  from resize_dv_frame [OF ref_objects.unstructured_api_axioms s, of 50 "[''spec'', ''pvc'', ''volumeMode'']"] a i
  show ?thesis by (simp add: sample_dv_def) (simp add: ref_env_def)
qed

section \<open>Cluster-scoped names\<close>

text \<open>
  What is expected of the API server: it stores what it creates under resource, namespace and name, answers
  \<open>AlreadyExists\<close> exactly when something is stored there, and each write concerns one object.
\<close>

locale object_store = object_api E for E :: "'s env" +
  fixes stored :: "'s \<Rightarrow> gvr \<times> string \<times> string \<Rightarrow> json option"
  assumes create_stores: "Dyn_Create E g n obj s = (Inr x, s') \<Longrightarrow> gvr_Resource g \<noteq> ''secrets'' \<Longrightarrow>
      stored s' (g, n, GetName E obj) = Some obj"
    and create_exists: "stored s (g, n, GetName E obj) = Some y \<Longrightarrow> Dyn_Create E g n obj s = (r1, s') \<Longrightarrow>
      stored s' (g, n, GetName E obj) = Some y"
    and create_refused: "Dyn_Create E g n obj s = (Inl e, s') \<Longrightarrow> IsAlreadyExists e \<Longrightarrow>
      stored s (g, n, GetName E obj) \<noteq> None"
    and create_frame: "Dyn_Create E g n obj s = (r2, s') \<Longrightarrow> key \<noteq> (g, n, GetName E obj) \<Longrightarrow>
      stored s' key = stored s key"
    and update_frame: "Dyn_Update E g n obj s = (r3, s') \<Longrightarrow> key \<noteq> (g, n, GetName E obj) \<Longrightarrow>
      stored s' key = stored s key"
    and get_frame: "Dyn_Get E g n k s = (r4, s') \<Longrightarrow> stored s' key = stored s key"
begin

lemma subnet_fields:
  "GetName E (subnet_object E ident ns vlan) = subnet_name ident"
  "NestedField E (subnet_object E ident ns vlan) [''spec'', ''provider''] = Some (JStr (nad_provider ident ns))"
proof -
  have apart: "apart [''spec'', k] [''metadata'', ''name'']"
    "k \<noteq> k' \<Longrightarrow> apart [''spec'', k] [''spec'', k']" for k k' :: string
    by (simp_all add: apart_def)
  show "GetName E (subnet_object E ident ns vlan) = subnet_name ident"
    by (rule get_name) (simp add: subnet_object_def Let_def get_put_apart apart new_object split: prod.splits)
  have "settable (NestedField E) (SetNestedField E (newUnstructured E v k name []) x [''spec'', ''vpc''])
      [''spec'', ''provider'']" for v k name x
    by (rule settable_put) (simp_all add: new_spec_settable apart)
  then show "NestedField E (subnet_object E ident ns vlan) [''spec'', ''provider'']
      = Some (JStr (nad_provider ident ns))"
    by (simp add: subnet_object_def Let_def get_put_apart apart put_settable split: prod.splits)
qed

abbreviation subnet_at :: "'s \<Rightarrow> string \<Rightarrow> json option" where
  "subnet_at s ident \<equiv> stored s (subnetGVR, [], subnet_name ident)"

lemma other_kinds: "vpcGVR \<noteq> subnetGVR" "nadGVR \<noteq> subnetGVR" "gvr_Resource subnetGVR \<noteq> ''secrets''"
  by (simp_all add: vpcGVR_def nadGVR_def subnetGVR_def mk_gvr_def)

lemma subnet_frame:
  assumes "g \<noteq> subnetGVR"
  shows "Dyn_Create E g n obj s = (r1, s') \<Longrightarrow> subnet_at s' i = subnet_at s i"
    "create_tolerant E g n obj s = (r2, s') \<Longrightarrow> subnet_at s' i = subnet_at s i"
    "Dyn_Update E g n obj s = (r3, s') \<Longrightarrow> subnet_at s' i = subnet_at s i"
  using assms create_frame [of g n obj s] update_frame [of g n obj s]
  by (auto simp: create_tolerant_def split: prod.splits sum.splits)

lemma ensure_vpc_frame: "ensure_vpc E ident ns s = (r, s') \<Longrightarrow> subnet_at s' i = subnet_at s i"
  using subnet_frame(1) [OF other_kinds(1)] get_frame
  by (auto simp: ensure_vpc_def split: prod.splits sum.splits if_splits)

text \<open>A successful run leaves a subnet: the one that was there, or the one it made.\<close>

lemma network_subnet:
  assumes "CreateVPCNetwork E ident ns vlan s = ((v, n, d, None), s')"
  shows "subnet_at s' ident = (case subnet_at s ident of
      None \<Rightarrow> Some (subnet_object E ident ns vlan) | Some y \<Rightarrow> Some y)"
proof -
  obtain vpc s1 s2 s3 where run: "ensure_vpc E ident ns s = (Inr vpc, s1)"
    "create_tolerant E nadGVR ns (nad_object E ident ns) s1 = (None, s2)"
    "create_tolerant E subnetGVR [] (subnet_object E ident ns vlan) s2 = (None, s3)"
    "s' = s3 \<or> (\<exists>x r. Dyn_Update E vpcGVR [] x s3 = (r, s'))"
    using assms by (auto simp: CreateVPCNetwork_def Let_def split: prod.splits sum.splits option.splits)
  have before: "subnet_at s2 ident = subnet_at s ident"
    using ensure_vpc_frame [OF run(1)] subnet_frame(2) [OF other_kinds(2) run(2)] by simp
  have after: "subnet_at s' ident = subnet_at s3 ident"
    using run(4) subnet_frame(3) [OF other_kinds(1)] by auto
  obtain r where c: "Dyn_Create E subnetGVR [] (subnet_object E ident ns vlan) s2 = (r, s3)"
    "(\<exists>x. r = Inr x) \<or> (\<exists>e. r = Inl e \<and> IsAlreadyExists e)"
    using run(3) by (auto simp: create_tolerant_def ignoreAlreadyExists_def
        split: prod.splits sum.splits if_splits)
  show ?thesis
  proof (cases "subnet_at s2 ident")
    case None
    with c create_refused [of subnetGVR "[]" "subnet_object E ident ns vlan" s2]
    have "subnet_at s3 ident = Some (subnet_object E ident ns vlan)"
      using create_stores [of subnetGVR "[]" "subnet_object E ident ns vlan" s2] other_kinds(3)
      by (auto simp: subnet_fields)
    with None before after show ?thesis by simp
  next
    case (Some y)
    with c(1) create_exists [of s2 subnetGVR "[]" "subnet_object E ident ns vlan" y]
    have "subnet_at s3 ident = Some y" by (simp add: subnet_fields)
    with Some before after show ?thesis by simp
  qed
qed

end


section \<open>The cluster in memory as a store\<close>

interpretation ref_api: object_api ref_env
proof
  fix m :: "(string \<times> json) list" and k :: string and p
  show "NestedField ref_env (JMap m) (k # p) = Option.bind (map_of m k) (\<lambda>j. NestedField ref_env j p)"
    by (simp add: ref_env_def split: option.splits)
qed (simp_all add: ref_env_def jname_def)

interpretation ref_store: object_store ref_env "\<lambda>s. map_of (cl_objs s)"
  by unfold_locales
    (auto simp: ref_env_def ref_create_def ref_update_def ref_get_def admit_def map_of_update split: option.splits)


end
