(* ===== verification/CloudInit.thy ===== *)
theory CloudInit
  imports HvCommon
begin

text \<open>
  \<open>internal/harvester/cloudinit.go\<close>: the cloud-init document of a database VM. The literal parts of
  the Go raw strings are the constants \<open>ci_*\<close>, byte for byte (the two dashes beyond ASCII as their
  UTF-8 bytes); \<open>fmt.Sprintf\<close> is concatenation around the values. \<open>TLSBundle\<close> and \<open>SSHKeyPair\<close> are the
  structs of \<open>tlsgen.go\<close> and \<open>sshkeygen.go\<close>. The theorems say which schedule the backup window
  yields and which secrets can reach the VM at all.
\<close>

section \<open>Structs\<close>

record TLSBundle =
  tls_CACertPEM :: string
  tls_CAKeyPEM :: string
  tls_ServerCertPEM :: string
  tls_ServerKeyPEM :: string

record SSHKeyPair =
  ssh_PrivateKeyPEM :: string
  ssh_AuthorizedKeyLine :: string

record resolvedS3Config =
  rs3_Endpoint :: string
  rs3_Bucket :: string
  rs3_Region :: string
  rs3_Path :: string
  rs3_AccessKey :: string
  rs3_SecretKey :: string

section \<open>The backup window\<close>

definition backupWindowToCron :: "string \<Rightarrow> int \<times> int" where
  "backupWindowToCron window =
     (if window = [] then (2, 1)
      else (case sscanf_colon (hd (SplitN2 window (CHR ''-''))) of
              None \<Rightarrow> (2, 1)
            | Some (h, m) \<Rightarrow> (h, wrap64 (h + 23) smod 24)))"

section \<open>Literal parts of the document\<close>

abbreviation nl :: string where "nl \<equiv> [CHR 0x0A]"

abbreviation sq :: string where "sq \<equiv> [CHR 0x27]"

abbreviation bs :: string where "bs \<equiv> [CHR 0x5C]"

definition lines_of :: "string list \<Rightarrow> string" where
  "lines_of ls = Join ls nl"

definition ci_cron_head :: string where
  "ci_cron_head = lines_of
    [[],
     ''  - path: /etc/cron.d/pgbackrest'',
     ''    permissions: \"0644\"'',
     ''    content: |'',
     ''      SHELL=/bin/bash'',
     ''      PATH=/usr/local/sbin:/usr/local/bin:/usr/sbin:/usr/bin:/sbin:/bin'',
     ''      0 '']"

definition ci_boot_echo :: string where
  "ci_boot_echo = lines_of
    [[],
     ''      # --- pgBackRest: write config now that postgres user exists ---'',
     ''      mkdir -p /etc/pgbackrest'',
     ''      echo '']"

definition ci_boot_rest :: string where
  "ci_boot_rest = lines_of
    ['' | base64 -d > /etc/pgbackrest/pgbackrest.conf'',
     ''      sed -i \"s|PGVERPLACEHOLDER|/var/lib/postgresql/${PG_VER}/main|\" /etc/pgbackrest/pgbackrest.conf'',
     ''      chmod 0640 /etc/pgbackrest/pgbackrest.conf'',
     ''      chown root:postgres /etc/pgbackrest/pgbackrest.conf'',
     [],
     ''      # --- pgBackRest WAL archiving ---'',
     ''      sed -i \"s/^#'' @ bs @ ''?archive_mode.*/archive_mode = on/\" \"${PG_CONF}/postgresql.conf\"'',
     ''      sed -i \"s/^#'' @ bs @ ''?wal_level.*/wal_level = replica/\" \"${PG_CONF}/postgresql.conf\"'',
     ''      sed -i \"s|^#'' @ bs @ ''?archive_command.*|archive_command = '' @ sq @ ''pgbackrest --stanza=${INSTANCE_ID} archive-push %p'' @ sq @ ''|\" \"${PG_CONF}/postgresql.conf\"'',
     ''      systemctl restart postgresql'',
     [],
     ''      # Register stanza and take initial full backup'',
     ''      sudo -u postgres pgbackrest --stanza=${INSTANCE_ID} stanza-create'',
     ''      sudo -u postgres pgbackrest --stanza=${INSTANCE_ID} backup --type=full'']"

definition ci_consumer :: string where
  "ci_consumer = lines_of
    [[],
     ''          enp3s0:'',
     ''            dhcp4: true'',
     ''            dhcp4-overrides:'',
     ''              use-routes: true'',
     ''              route-metric: 300'']"

definition ci_packages :: string where
  "ci_packages = lines_of
    [''package_update: true'',
     ''packages:'',
     ''  - postgresql'',
     ''  - postgresql-contrib'',
     ''  - pgbackrest'',
     ''  - jq'',
     ''  - qemu-guest-agent'',
     ''write_files:'',
     ''  - path: /etc/dbaas/bootstrap.env'',
     ''    permissions: \"0600\"'',
     ''    content: |'',
     ''      INSTANCE_ID='']"

definition ci_netplan :: string where
  "ci_netplan = lines_of
    [[],
     ''  - path: /etc/netplan/60-vpc-net.yaml'',
     ''    permissions: \"0600\"'',
     ''    content: |'',
     ''      network:'',
     ''        version: 2'',
     ''        ethernets:'',
     ''          enp2s0:'',
     ''            dhcp4: true'',
     ''            dhcp4-overrides:'',
     ''              use-routes: true'',
     ''              route-metric: 200'']"

definition ci_ca_cert :: string where
  "ci_ca_cert = lines_of
    [[],
     ''  - path: /etc/ssl/certs/pg-ca.crt'',
     ''    encoding: b64'',
     ''    permissions: \"0644\"'',
     ''    content: '']"

definition ci_server_cert :: string where
  "ci_server_cert = lines_of
    [[],
     ''  - path: /etc/ssl/certs/pg-server.crt'',
     ''    encoding: b64'',
     ''    permissions: \"0644\"'',
     ''    content: '']"

definition ci_server_key :: string where
  "ci_server_key = lines_of
    [[],
     ''  - path: /etc/ssl/private/pg-server.key'',
     ''    encoding: b64'',
     ''    permissions: \"0600\"'',
     ''    content: '']"

definition ci_bootstrap_sh :: string where
  "ci_bootstrap_sh = lines_of
    [[],
     ''  - path: /etc/dbaas/bootstrap.sh'',
     ''    permissions: \"0700\"'',
     ''    content: |'',
     ''      #!/bin/bash'',
     ''      set -euo pipefail'',
     ''      source /etc/dbaas/bootstrap.env'',
     [],
     ''      PG_VER=$(pg_lsclusters -h | awk '' @ sq @ ''{print $1}'' @ sq @ '' | head -1)'',
     ''      PG_CONF=\"/etc/postgresql/${PG_VER}/main\"'',
     [],
     ''      # Fix server key ownership now that postgres user exists'',
     ''      chown postgres:postgres /etc/ssl/private/pg-server.key'',
     [],
     ''      # Listen on all interfaces and set port / max_connections'',
     ''      sed -i \"s/^#'' @ bs @ ''?listen_addresses.*/listen_addresses = '' @ sq @ ''*'' @ sq @ ''/\" \"${PG_CONF}/postgresql.conf\"'',
     ''      sed -i \"s/^#'' @ bs @ ''?port.*/port = ${DB_PORT}/\" \"${PG_CONF}/postgresql.conf\"'',
     ''      sed -i \"s/^#'' @ bs @ ''?max_connections.*/max_connections = ${MAX_CONNECTIONS}/\" \"${PG_CONF}/postgresql.conf\"'',
     [],
     ''      # Enable SSL'',
     ''      sed -i \"s/^#'' @ bs @ ''?ssl'' @ bs @ ''b.*/ssl = on/\" \"${PG_CONF}/postgresql.conf\"'',
     ''      sed -i \"s|^#'' @ bs @ ''?ssl_cert_file.*|ssl_cert_file = '' @ sq @ ''/etc/ssl/certs/pg-server.crt'' @ sq @ ''|\" \"${PG_CONF}/postgresql.conf\"'',
     ''      sed -i \"s|^#'' @ bs @ ''?ssl_key_file.*|ssl_key_file = '' @ sq @ ''/etc/ssl/private/pg-server.key'' @ sq @ ''|\" \"${PG_CONF}/postgresql.conf\"'',
     ''      sed -i \"s|^#'' @ bs @ ''?ssl_ca_file.*|ssl_ca_file = '' @ sq @ ''/etc/ssl/certs/pg-ca.crt'' @ sq @ ''|\" \"${PG_CONF}/postgresql.conf\"'',
     [],
     ''      # SSL-only remote connections '' @ [CHR 0xE2] @ [CHR 0x80] @ [CHR 0x94] @ '' plain-text is rejected'',
     ''      echo \"hostssl all all 0.0.0.0/0 scram-sha-256\" >> \"${PG_CONF}/pg_hba.conf\"'',
     ''      echo \"hostssl replication all 0.0.0.0/0 scram-sha-256\" >> \"${PG_CONF}/pg_hba.conf\"'',
     [],
     ''      systemctl restart postgresql'',
     [],
     ''      # Create admin user (CREATEDB CREATEROLE '' @ [CHR 0xE2] @ [CHR 0x80] @ [CHR 0x94] @ '' not SUPERUSER) and initial database'',
     ''      sudo -u postgres psql -p \"${DB_PORT}\" <<EOSQL'',
     ''      DO '' @ bs @ ''$'' @ bs @ ''$'',
     ''      BEGIN'',
     ''        IF NOT EXISTS (SELECT FROM pg_roles WHERE rolname = '' @ sq @ ''${MASTER_USER}'' @ sq @ '') THEN'',
     ''          CREATE ROLE ${MASTER_USER} LOGIN CREATEDB CREATEROLE PASSWORD '' @ sq @ ''${MASTER_PASSWORD}'' @ sq @ '';'',
     ''        END IF;'',
     ''      END '' @ bs @ ''$'' @ bs @ ''$;'',
     ''      SELECT '' @ sq @ ''CREATE DATABASE ${DB_NAME} OWNER ${MASTER_USER}'' @ sq,
     ''        WHERE NOT EXISTS (SELECT FROM pg_database WHERE datname = '' @ sq @ ''${DB_NAME}'' @ sq @ '')'' @ bs @ ''gexec'',
     ''      EOSQL'',
     []]"

definition ci_runcmd :: string where
  "ci_runcmd = lines_of
    [[],
     ''runcmd:'',
     ''  - systemctl enable --now qemu-guest-agent'',
     ''  - netplan apply'',
     ''  - mkdir -p /var/lib/dbaas'',
     ''  - chown postgres:postgres /var/lib/dbaas'',
     ''  - /etc/dbaas/bootstrap.sh'',
     ''final_message: \"DBaaS bootstrap complete for '']"

section \<open>The document\<close>

definition pgbr_cron :: "VMCreateParams \<Rightarrow> string" where
  "pgbr_cron p = (case backupWindowToCron (p_BackupWindow p) of (incrHour, fullHour) \<Rightarrow>
     ci_cron_head @ itoa incrHour @ '' * * * postgres pgbackrest --stanza='' @ p_ID p
     @ '' backup --type=incr 2>&1 | logger -t pgbackrest'' @ nl
     @ ''      0 '' @ itoa fullHour @ '' * * 0 postgres pgbackrest --stanza='' @ p_ID p
     @ '' backup --type=full 2>&1 | logger -t pgbackrest'')"

definition pgbr_conf :: "VMCreateParams \<Rightarrow> resolvedS3Config \<Rightarrow> string" where
  "pgbr_conf p s3 =
     ''[global]'' @ nl @ ''repo1-type=s3'' @ nl @ ''repo1-s3-endpoint='' @ rs3_Endpoint s3 @ nl
     @ ''repo1-s3-bucket='' @ rs3_Bucket s3 @ nl @ ''repo1-s3-region='' @ rs3_Region s3 @ nl
     @ ''repo1-s3-key='' @ rs3_AccessKey s3 @ nl @ ''repo1-s3-key-secret='' @ rs3_SecretKey s3 @ nl
     @ ''repo1-s3-uri-style=path'' @ nl @ ''repo1-path='' @ rs3_Path s3 @ nl
     @ ''repo1-retention-full=2'' @ nl @ ''repo1-retention-diff=7'' @ nl
     @ ''log-level-console=info'' @ nl @ ''log-level-file=detail'' @ nl @ nl
     @ ''['' @ p_ID p @ '']'' @ nl @ ''pg1-path=PGVERPLACEHOLDER'' @ nl
     @ ''pg1-port='' @ itoa (p_Port p) @ nl"

definition pgbr_bootstrap :: "VMCreateParams \<Rightarrow> resolvedS3Config \<Rightarrow> string" where
  "pgbr_bootstrap p s3 = ci_boot_echo @ StdEncodeToString (pgbr_conf p s3) @ ci_boot_rest"

definition ssh_auth_keys :: "SSHKeyPair option \<Rightarrow> string" where
  "ssh_auth_keys sshKey = (case sshKey of
       None \<Rightarrow> []
     | Some k \<Rightarrow> ''ssh_authorized_keys:'' @ nl @ ''  - '' @ TrimSpace (ssh_AuthorizedKeyLine k) @ nl)"

definition vm_user_block :: "VMCreateParams \<Rightarrow> string" where
  "vm_user_block p = (if p_VMPassword p = [] then []
     else ''password: '' @ p_VMPassword p @ nl @ ''chpasswd:'' @ nl @ ''  expire: false'' @ nl
          @ ''ssh_pwauth: true'' @ nl)"

definition backup_env :: "resolvedS3Config option \<Rightarrow> string" where
  "backup_env s3 = (case s3 of
       None \<Rightarrow> ''# backups disabled''
     | Some c \<Rightarrow> ''BACKUP_ENABLED=true'' @ nl @ ''      S3_BUCKET='' @ rs3_Bucket c @ nl
         @ ''      S3_PATH='' @ rs3_Path c)"

definition buildCloudInit ::
  "VMCreateParams \<Rightarrow> string \<Rightarrow> string \<Rightarrow> string \<Rightarrow> string \<Rightarrow> TLSBundle \<Rightarrow> SSHKeyPair option
   \<Rightarrow> resolvedS3Config option \<Rightarrow> string" where
  "buildCloudInit p adminPw replPw exporterPw luksKey tls sshKey s3 =
     (let pgbrConf = [];
          pgbrCron = (case s3 of None \<Rightarrow> [] | Some c \<Rightarrow> pgbr_cron p);
          pgbrBootstrap = (case s3 of None \<Rightarrow> [] | Some c \<Rightarrow> pgbr_bootstrap p c);
          caCertB64 = StdEncodeToString (tls_CACertPEM tls);
          serverCertB64 = StdEncodeToString (tls_ServerCertPEM tls);
          serverKeyB64 = StdEncodeToString (tls_ServerKeyPEM tls);
          consumerNetplan = (if p_ConsumerNetwork p \<noteq> [] then ci_consumer else [])
      in ''#cloud-config'' @ nl @ vm_user_block p @ ssh_auth_keys sshKey
         @ ci_packages @ p_ID p @ nl
         @ ''      DB_NAME='' @ p_DBName p @ nl
         @ ''      DB_PORT='' @ itoa (p_Port p) @ nl
         @ ''      MASTER_USER='' @ p_MasterUser p @ nl
         @ ''      MASTER_PASSWORD='' @ adminPw @ nl
         @ ''      REPL_PASSWORD='' @ replPw @ nl
         @ ''      EXPORTER_PASSWORD='' @ exporterPw @ nl
         @ ''      MAX_CONNECTIONS='' @ itoa (p_MaxConnections p) @ nl
         @ ''      LUKS_KEY='' @ luksKey @ nl
         @ ''      '' @ backup_env s3
         @ ci_netplan @ consumerNetplan
         @ ci_ca_cert @ caCertB64
         @ ci_server_cert @ serverCertB64
         @ ci_server_key @ serverKeyB64
         @ ci_bootstrap_sh @ pgbrBootstrap @ pgbrConf @ pgbrCron
         @ ci_runcmd @ p_ID p @ ''\"'' @ nl)"

section \<open>The backup schedule\<close>

lemma skip_space_suffix: "skip_space s = Some t \<Longrightarrow> suffix t s"
proof (induction s rule: skip_space.induct)
  case (1 s)
  show ?case
  proof (cases s)
    case Nil
    with "1.prems" show ?thesis by (simp add: skip_space.simps [of "[]"])
  next
    case (Cons c r)
    show ?thesis
    proof (cases "find (\<lambda>p. p \<noteq> [] \<and> prefix p s) ws_runes")
      case None
      with "1.prems" Cons show ?thesis by (simp add: skip_space.simps [of "c # r"] split: if_splits)
    next
      case (Some p)
      with "1.prems" Cons have ne: "of_char c \<noteq> (10::nat)" and r: "skip_space (drop (length p) s) = Some t"
        by (simp_all add: skip_space.simps [of "c # r"] split: if_splits)
      from "1.IH" [OF Cons ne Some r] show ?thesis
        using suffix_drop suffix_order.trans by blast
    qed
  qed
qed

text \<open>Without a minus sign in the text, the number read is not negative.\<close>

lemma scan_int_nonneg: "CHR ''-'' \<notin> set s \<Longrightarrow> scan_int s = Some (v, r) \<Longrightarrow> 0 \<le> v"
proof -
  assume nominus: "CHR ''-'' \<notin> set s" and sc: "scan_int s = Some (v, r)"
  then obtain t where t: "skip_space s = Some t" by (auto simp: scan_int_def split: option.splits)
  have "set t \<subseteq> set s" using skip_space_suffix [OF t] by (rule set_mono_suffix)
  with nominus have "\<not> (t \<noteq> [] \<and> hd t = CHR ''-'')" by (cases t) auto
  with sc t show ?thesis by (auto simp: scan_int_def Let_def split: if_splits)
qed

lemma SplitN2_hd: "hd (SplitN2 s c) = takeWhile (\<lambda>x. x \<noteq> c) s"
proof (cases "dropWhile (\<lambda>x. x \<noteq> c) s")
  case Nil
  then have "takeWhile (\<lambda>x. x \<noteq> c) s = s"
    by (simp add: dropWhile_eq_Nil_conv takeWhile_eq_all_conv)
  then show ?thesis unfolding SplitN2_def Nil by (simp only: list.case list.sel)
qed (simp add: SplitN2_def)

lemma window_hour_nonneg:
  assumes "sscanf_colon (hd (SplitN2 w (CHR ''-''))) = Some (h, m)"
  shows "0 \<le> h"
proof -
  have "CHR ''-'' \<notin> set (hd (SplitN2 w (CHR ''-'')))"
    by (auto simp: SplitN2_hd dest: set_takeWhileD)
  with assms scan_int_nonneg show ?thesis
    by (fastforce simp: sscanf_colon_def split: option.splits list.splits if_splits prod.splits)
qed

lemma wrap64_small: "- (2 ^ 63) \<le> i \<Longrightarrow> i < 2 ^ 63 \<Longrightarrow> wrap64 i = i"
  by (simp add: wrap64_def)

lemma hour_before: "0 \<le> h \<Longrightarrow> h < 24 \<Longrightarrow> wrap64 (h + 23) smod 24 = (h + 23) mod 24"
  by (simp add: wrap64_small smod_int_alt_def)

text \<open>
  Whatever the window, the hour of the incremental backup is not negative, and as long as it
  is an hour of the day, the weekly full backup runs the hour before it, round the clock.
\<close>

theorem backup_hours:
  "0 \<le> fst (backupWindowToCron w)
   \<and> (if fst (backupWindowToCron w) < 24
      then snd (backupWindowToCron w) = (fst (backupWindowToCron w) + 23) mod 24
           \<and> snd (backupWindowToCron w) \<in> {0..23}
      else True)"
proof (cases "w = [] \<or> sscanf_colon (hd (SplitN2 w (CHR ''-''))) = None")
  case True
  then show ?thesis by (auto simp: backupWindowToCron_def)
next
  case False
  then obtain h m where hm: "sscanf_colon (hd (SplitN2 w (CHR ''-''))) = Some (h, m)" by auto
  with False window_hour_nonneg [OF hm] show ?thesis
    by (auto simp: backupWindowToCron_def hour_before)
qed

text \<open>A window is read from its text.\<close>

lemma digit_not: "is_digit c \<Longrightarrow> c \<noteq> CHR ''-'' \<and> c \<noteq> CHR '':''"
  by (auto simp: is_digit_def)

lemma takeWhile_window:
  assumes "\<forall>d \<in> set hs. is_digit d" "\<forall>d \<in> set ms. is_digit d"
  shows "takeWhile (\<lambda>c. c \<noteq> CHR ''-'') (hs @ CHR '':'' # ms @ CHR ''-'' # rest) = hs @ CHR '':'' # ms"
  using assms digit_not by (auto simp: takeWhile_append takeWhile_eq_all_conv)

lemma sscanf_digits:
  assumes "hs \<noteq> []" "\<forall>d \<in> set hs. is_digit d" "digits_val hs < 2 ^ 63"
    and "ms \<noteq> []" "\<forall>d \<in> set ms. is_digit d" "digits_val ms < 2 ^ 63"
  shows "sscanf_colon (hs @ CHR '':'' # ms) = Some (int (digits_val hs), int (digits_val ms))"
proof -
  have "\<not> is_digit (CHR '':'')" by (simp add: is_digit_def)
  then show ?thesis
    using scan_int_digits [OF assms(1,2) _ assms(3), of "CHR '':'' # ms"]
      scan_int_digits [OF assms(4,5) _ assms(6), of "[]"]
    by (simp add: sscanf_colon_def)
qed



section \<open>What reaches the VM\<close>

text \<open>
  C36: the document does not depend on the private key of the CA nor on the SSH private key of the
  controller: neither can reach the VM through it. It does not depend on whether backups are
  enabled either, only on the S3 configuration.
\<close>

theorem cloudinit_independence:
  "buildCloudInit (p\<lparr>p_BackupEnabled := b\<rparr>) adminPw replPw exporterPw luksKey
     (tls\<lparr>tls_CAKeyPEM := caKey\<rparr>) (map_option (\<lambda>k. k\<lparr>ssh_PrivateKeyPEM := priv\<rparr>) sshKey) s3
   = buildCloudInit p adminPw replPw exporterPw luksKey tls sshKey s3"
  by (cases sshKey; cases s3)
    (simp_all add: buildCloudInit_def vm_user_block_def ssh_auth_keys_def pgbr_cron_def
      pgbr_bootstrap_def pgbr_conf_def)

text \<open>
  Without an S3 configuration the document holds no trace of the backup window, of the storage
  credentials or of pgBackRest's cron file.
\<close>

theorem cloudinit_no_backup:
  "buildCloudInit (p\<lparr>p_BackupWindow := w\<rparr>) adminPw replPw exporterPw luksKey tls sshKey None
   = buildCloudInit p adminPw replPw exporterPw luksKey tls sshKey None"
  by (simp add: buildCloudInit_def vm_user_block_def)

end
