(* ===== verification/KeyGen.thy ===== *)
theory KeyGen
  imports CloudInit RefWorld
begin

text \<open>
  \<open>internal/harvester/tlsgen.go\<close> and \<open>sshkeygen.go\<close>: the per-instance CA, the server certificate it
  signs, its renewal, and the controller's SSH key. Key generation, X.509, PEM and the OpenSSH
  formats are fields of \<open>E\<close>; \<open>RenewServerCert\<close> dereferences the result of \<open>pem.Decode\<close>, which is nil
  on text that is no PEM block, so it can panic.
\<close>

section \<open>TLS\<close>

definition tlsPemEncode :: "'s env \<Rightarrow> string \<Rightarrow> string \<Rightarrow> string" where
  "tlsPemEncode E blockType bytes = Pem_Encode E blockType bytes"

definition tlsPemEncodeKey :: "'s env \<Rightarrow> string \<Rightarrow> string" where
  "tlsPemEncodeKey E key =
     tlsPemEncode E ''RSA PRIVATE KEY'' (X509_MarshalPKCS1PrivateKey E key)"

abbreviation minute_ns :: int where "minute_ns \<equiv> 60 * 1000000000"

abbreviation ten_years_ns :: int where "ten_years_ns \<equiv> 10 * 365 * 24 * 60 * 60 * 1000000000"

definition server_template :: "string \<Rightarrow> string list \<Rightarrow> int \<Rightarrow> int \<Rightarrow> Certificate" where
  "server_template commonName ips now1 now2 = \<lparr>
     crt_SerialNumber = 2,
     crt_CommonName = commonName,
     crt_NotBefore = now1 - minute_ns,
     crt_NotAfter = now2 + ten_years_ns,
     crt_IsCA = False,
     crt_KeyUsage = [KeyUsageDigitalSignature, KeyUsageKeyEncipherment],
     crt_ExtKeyUsageServerAuth = True,
     crt_BasicConstraintsValid = False,
     crt_DNSNames = [commonName],
     crt_IPAddresses = ips\<rparr>"

definition ca_template :: "string \<Rightarrow> int \<Rightarrow> int \<Rightarrow> Certificate" where
  "ca_template commonName now1 now2 = \<lparr>
     crt_SerialNumber = 1,
     crt_CommonName = ''dbaas-ca-'' @ commonName,
     crt_NotBefore = now1 - minute_ns,
     crt_NotAfter = now2 + ten_years_ns,
     crt_IsCA = True,
     crt_KeyUsage = [KeyUsageCertSign, KeyUsageCRLSign],
     crt_ExtKeyUsageServerAuth = False,
     crt_BasicConstraintsValid = True,
     crt_DNSNames = [],
     crt_IPAddresses = []\<rparr>"

text \<open>The certificate and key in PEM form, or the error.\<close>

definition issueServerCert ::
  "'s env \<Rightarrow> Certificate \<Rightarrow> string \<Rightarrow> string \<Rightarrow> string list \<Rightarrow> 's \<Rightarrow> (error + (string \<times> string)) \<times> 's" where
  "issueServerCert E caCert caKey commonName ips s =
     (case Rsa_GenerateKey E 2048 s of
        (Inl e, s1) \<Rightarrow> (Inl e, s1)
      | (Inr serverKey, s1) \<Rightarrow>
          (case Time_Now E s1 of (now1, s2) \<Rightarrow>
           case Time_Now E s2 of (now2, s3) \<Rightarrow>
           (case X509_CreateCertificate E (server_template commonName ips now1 now2) caCert
                   (Rsa_PublicKey E serverKey) caKey s3 of
              (Inl e, s4) \<Rightarrow> (Inl e, s4)
            | (Inr der, s4) \<Rightarrow>
                (Inr (tlsPemEncode E ''CERTIFICATE'' der, tlsPemEncodeKey E serverKey), s4))))"

definition generateTLS :: "'s env \<Rightarrow> string \<Rightarrow> 's \<Rightarrow> (error + TLSBundle) \<times> 's" where
  "generateTLS E commonName s =
     (case Rsa_GenerateKey E 2048 s of
        (Inl e, s1) \<Rightarrow> (Inl e, s1)
      | (Inr caKey, s1) \<Rightarrow>
          (case Time_Now E s1 of (now1, s2) \<Rightarrow>
           case Time_Now E s2 of (now2, s3) \<Rightarrow>
           let caTemplate = ca_template commonName now1 now2 in
           (case X509_CreateCertificate E caTemplate caTemplate (Rsa_PublicKey E caKey) caKey s3 of
             (Inl e, s4) \<Rightarrow> (Inl e, s4)
           | (Inr caCertDER, s4) \<Rightarrow>
               (case X509_ParseCertificate E caCertDER of
                  Inl e \<Rightarrow> (Inl e, s4)
                | Inr caCert \<Rightarrow>
                    (case issueServerCert E caCert caKey commonName [] s4 of
                       (Inl e, s5) \<Rightarrow> (Inl e, s5)
                     | (Inr (serverCertPEM, serverKeyPEM), s5) \<Rightarrow>
                         (Inr \<lparr>tls_CACertPEM = tlsPemEncode E ''CERTIFICATE'' caCertDER,
                               tls_CAKeyPEM = tlsPemEncodeKey E caKey,
                               tls_ServerCertPEM = serverCertPEM,
                               tls_ServerKeyPEM = serverKeyPEM\<rparr>, s5))))))"

definition RenewServerCert ::
  "'s env \<Rightarrow> string \<Rightarrow> string \<Rightarrow> string \<Rightarrow> string list \<Rightarrow> 's
   \<Rightarrow> (error + (string \<times> string)) outcome \<times> 's" where
  "RenewServerCert E caCertPEM caKeyPEM commonName ips s =
     (case Pem_Decode E caKeyPEM of
        None \<Rightarrow> (Panic, s)
      | Some keyBytes \<Rightarrow>
          (case X509_ParsePKCS1PrivateKey E keyBytes of
             Inl e \<Rightarrow> (Return (Inl e), s)
           | Inr caKey \<Rightarrow>
               (case Pem_Decode E caCertPEM of
                  None \<Rightarrow> (Panic, s)
                | Some certBytes \<Rightarrow>
                    (case X509_ParseCertificate E certBytes of
                       Inl e \<Rightarrow> (Return (Inl e), s)
                     | Inr caCert \<Rightarrow>
                         (case issueServerCert E caCert caKey commonName ips s of
                            (r, s') \<Rightarrow> (Return r, s'))))))"

section \<open>SSH\<close>

definition generateSSHKeyPair :: "'s env \<Rightarrow> 's \<Rightarrow> (error + SSHKeyPair) \<times> 's" where
  "generateSSHKeyPair E s =
     (case Ed25519_GenerateKey E s of
        (Inl e, s1) \<Rightarrow> (Inl e, s1)
      | (Inr (pub, priv), s1) \<Rightarrow>
          (case Ssh_MarshalPrivateKey E priv ''dbaas-controller'' s1 of
             (Inl e, s2) \<Rightarrow> (Inl e, s2)
           | (Inr (blockType, blockBytes), s2) \<Rightarrow>
               (case Ssh_NewPublicKey E pub of
                  Inl e \<Rightarrow> (Inl e, s2)
                | Inr sshPub \<Rightarrow>
                    (Inr \<lparr>ssh_PrivateKeyPEM = Pem_Encode E blockType blockBytes,
                          ssh_AuthorizedKeyLine = Ssh_MarshalAuthorizedKey E sshPub\<rparr>, s2))))"

section \<open>Effects\<close>

context recorder
begin

lemma randomString_log: "randomString E n s = (r, s') \<Longrightarrow> lg s' = lg s"
  by (auto simp: randomString_def split: prod.splits dest: Rand_Read_log)

lemma issueServerCert_log: "issueServerCert E caCert caKey cn ips s = (r, s') \<Longrightarrow> lg s' = lg s"
  by (auto simp: issueServerCert_def split: prod.splits sum.splits dest!: silent_log)

lemma generateTLS_log: "generateTLS E cn s = (r, s') \<Longrightarrow> lg s' = lg s"
  by (auto simp: generateTLS_def Let_def split: prod.splits sum.splits
      dest!: silent_log issueServerCert_log)

lemma generateSSHKeyPair_log: "generateSSHKeyPair E s = (r, s') \<Longrightarrow> lg s' = lg s"
  by (auto simp: generateSSHKeyPair_def split: prod.splits sum.splits dest!: silent_log)

lemmas keygen_log = randomString_log generateTLS_log generateSSHKeyPair_log

end

text \<open>Key generation is not seen in the log of answers, and does not depend on it.\<close>

lemma carry_call_iff: "carry_call f w = (r, w') \<longleftrightarrow> f (fst w) = (r, fst w') \<and> snd w' = snd w"
  by (cases w') (auto simp: carry_call_def split: prod.splits)

lemma randomString_answered:
  "randomString (answered E) n w = (r, w') \<Longrightarrow> randomString E n (fst w) = (r, fst w') \<and> snd w' = snd w"
  by (auto simp: randomString_def answered_def carry_call_iff split: prod.splits)

lemma issueServerCert_answered:
  "issueServerCert (answered E) c k cn ips w = (r, w') \<Longrightarrow>
     issueServerCert E c k cn ips (fst w) = (r, fst w') \<and> snd w' = snd w"
  by (auto simp: issueServerCert_def tlsPemEncode_def tlsPemEncodeKey_def answered_def carry_call_iff
      split: prod.splits sum.splits)

lemma generateTLS_answered:
  "generateTLS (answered E) cn w = (r, w') \<Longrightarrow> generateTLS E cn (fst w) = (r, fst w') \<and> snd w' = snd w"
  unfolding generateTLS_def Let_def
  by (auto simp: tlsPemEncode_def tlsPemEncodeKey_def answered_def carry_call_iff
      split: prod.splits sum.splits dest!: issueServerCert_answered [unfolded answered_def])

lemma generateSSHKeyPair_answered:
  "generateSSHKeyPair (answered E) w = (r, w') \<Longrightarrow> generateSSHKeyPair E (fst w) = (r, fst w') \<and> snd w' = snd w"
  by (auto simp: generateSSHKeyPair_def answered_def carry_call_iff split: prod.splits sum.splits)

lemmas keygen_answered = randomString_answered generateTLS_answered generateSSHKeyPair_answered

section \<open>Renewal\<close>

text \<open>
  What renewal relies on: PEM and PKCS1 decode what they encoded, and a certificate the library has
  created can be parsed.
\<close>

locale x509_codec =
  fixes E :: "'s env"
  assumes pem_roundtrip: "Pem_Decode E (Pem_Encode E ty bytes) = Some bytes"
    and pkcs1_roundtrip: "X509_ParsePKCS1PrivateKey E (X509_MarshalPKCS1PrivateKey E k) = Inr k"
begin

lemma decode_key: "Pem_Decode E (tlsPemEncodeKey E k) = Some (X509_MarshalPKCS1PrivateKey E k)"
  by (simp add: tlsPemEncodeKey_def tlsPemEncode_def pem_roundtrip)

text \<open>A bundle holds the key and the certificate of its CA in the form renewal reads.\<close>

lemma generateTLS_ca:
  assumes "generateTLS E cn s = (Inr tls, s')"
  shows "\<exists>caKey der caCert. tls_CAKeyPEM tls = tlsPemEncodeKey E caKey
     \<and> tls_CACertPEM tls = tlsPemEncode E ''CERTIFICATE'' der
     \<and> X509_ParseCertificate E der = Inr caCert"
  using assms
  by (auto simp: generateTLS_def Let_def split: prod.splits sum.splits)

lemma renew_from_bundle:
  assumes "generateTLS E cn s = (Inr tls, s')"
  shows "\<exists>caCert caKey. tls_CAKeyPEM tls = tlsPemEncodeKey E caKey
     \<and> RenewServerCert E (tls_CACertPEM tls) (tls_CAKeyPEM tls) cn' ips t
       = (case issueServerCert E caCert caKey cn' ips t of (r, t') \<Rightarrow> (Return r, t'))"
proof -
  obtain caKey der caCert where "tls_CAKeyPEM tls = tlsPemEncodeKey E caKey"
    "tls_CACertPEM tls = tlsPemEncode E ''CERTIFICATE'' der" "X509_ParseCertificate E der = Inr caCert"
    using generateTLS_ca [OF assms] by blast
  then show ?thesis
    by (intro exI [of _ caCert] exI [of _ caKey])
      (simp add: RenewServerCert_def decode_key pkcs1_roundtrip tlsPemEncode_def pem_roundtrip)
qed

end

interpretation ref_x509: x509_codec ref_env
  by unfold_locales (simp_all add: ref_env_def)

text \<open>
  C26: renewing with the CA that an instance was created with never panics and never fails to decode:
  the new server certificate is issued by the key of that very CA.
\<close>

theorem renew_roundtrip:
  assumes "x509_codec E" and "generateTLS E cn s = (Inr tls, s')"
  shows "\<exists>caCert caKey. tls_CAKeyPEM tls = tlsPemEncodeKey E caKey
     \<and> RenewServerCert E (tls_CACertPEM tls) (tls_CAKeyPEM tls) cn' ips t
       = (case issueServerCert E caCert caKey cn' ips t of (r, t') \<Rightarrow> (Return r, t'))"
  by (rule x509_codec.renew_from_bundle [OF assms])

theorem renew_roundtrip_witness:
  "\<exists>tls caCert caKey. fst (generateTLS ref_env ''pg-a'' empty_cluster) = Inr tls
     \<and> RenewServerCert ref_env (tls_CACertPEM tls) (tls_CAKeyPEM tls) ''pg-a'' [''10.0.0.5''] empty_cluster
       = (case issueServerCert ref_env caCert caKey ''pg-a'' [''10.0.0.5''] empty_cluster of
            (r, t') \<Rightarrow> (Return r, t'))"
proof -
  obtain tls s' where tls: "generateTLS ref_env ''pg-a'' empty_cluster = (Inr tls, s')"
    by (simp add: generateTLS_def issueServerCert_def ref_env_def Let_def)
  show ?thesis
    using renew_roundtrip [OF ref_x509.x509_codec_axioms tls, of "''pg-a''" "[''10.0.0.5'']" empty_cluster]
    by (auto simp: tls)
qed



end
