(* ===== verification/HvVM.thy ===== *)
theory HvVM
  imports HvNetwork KeyGen
begin

text \<open>
  The virtual-machine operations of \<open>internal/harvester/client.go\<close>: image resolution, creation of
  the credentials Secret and the VM, readiness, power state, resizing, SSH and Secret access.
\<close>

section \<open>Secrets and SSH\<close>

text \<open>Values that are no strings or no base64 are left out.\<close>

definition decode_entry :: "string \<times> json \<Rightarrow> (string \<times> string) option" where
  "decode_entry kv = (case snd kv of
       JStr v \<Rightarrow> map_option (\<lambda>d. (fst kv, d)) (StdDecodeString v)
     | _ \<Rightarrow> None)"

definition GetSecret ::
  "'s env \<Rightarrow> string \<Rightarrow> string \<Rightarrow> 's \<Rightarrow> (error + (string \<times> string) list) \<times> 's" where
  "GetSecret E ns name s =
     (case Dyn_Get E secretGVR ns name s of
        (Inl e, s1) \<Rightarrow> (Inl e, s1)
      | (Inr obj, s1) \<Rightarrow> (Inr (List.map_filter decode_entry (NestedMap E obj [''data''])), s1))"

text \<open>Reading a missing key of a Go map gives the zero value.\<close>

definition map_get :: "(string \<times> string) list \<Rightarrow> string \<Rightarrow> string" where
  "map_get m k = (case map_of m k of None \<Rightarrow> [] | Some v \<Rightarrow> v)"

definition JoinHostPort :: "string \<Rightarrow> string \<Rightarrow> string" where
  "JoinHostPort host port =
     (if CHR '':'' \<in> set host then ''['' @ host @ '']:'' @ port else host @ '':'' @ port)"

definition SSHExec ::
  "'s env \<Rightarrow> string \<Rightarrow> string \<Rightarrow> string \<Rightarrow> 's \<Rightarrow> (string \<times> error option) \<times> 's" where
  "SSHExec E ip privateKeyPEM command s =
     (case Ssh_ParsePrivateKey E privateKeyPEM of
        Inl e \<Rightarrow> (([], Some (Errorw ''parse private key: '' e)), s)
      | Inr signer \<Rightarrow>
          (case Ssh_Dial E (JoinHostPort ip ''22'') ''ubuntu'' signer s of
             (Inl e, s1) \<Rightarrow> (([], Some (Errorw (''ssh dial '' @ ip @ '': '') e)), s1)
           | (Inr _, s1) \<Rightarrow>
               (case Ssh_NewSession E s1 of
                  (Inl e, s2) \<Rightarrow> (([], Some (Errorw ''ssh session: '' e)), s2)
                | (Inr _, s2) \<Rightarrow>
                    (case Ssh_Run E command s2 of
                       ((Some e, out), s3) \<Rightarrow>
                         ((out, Some (Errorw (''ssh run '' @ Quote command @ '': '') e)), s3)
                     | ((None, out), s3) \<Rightarrow> ((out, None), s3)))))"

section \<open>Image resolution\<close>

definition image_ref :: "string \<Rightarrow> string \<times> string" where
  "image_ref ref = (let i = Index ref ''/'' in
     if 0 < i then (take (nat i) ref, drop (nat i + 1) ref) else (''default'', ref))"

definition image_class :: "'s env \<Rightarrow> json \<Rightarrow> string" where
  "image_class E img = NestedString E img [''status'', ''storageClassName'']"

definition resolveVMImage ::
  "'s env \<Rightarrow> string \<Rightarrow> 's \<Rightarrow> (string \<times> string \<times> string \<times> error option) \<times> 's" where
  "resolveVMImage E ref s =
     (case image_ref ref of (ns, spec) \<Rightarrow>
      (case Dyn_Get E vmImageGVR ns spec s of
        (Inr img, s1) \<Rightarrow>
          ((ns, spec, image_class E img,
            if image_class E img = []
            then Some (Errorf (''VirtualMachineImage '' @ ns @ ''/'' @ spec
                   @ '' has no status.storageClassName yet (image not ready)''))
            else None), s1)
      | (Inl e, s1) \<Rightarrow>
          if \<not> IsNotFound e then ((ns, [], [], Some e), s1)
          else (case Dyn_List E vmImageGVR ns s1 of
              (Inl e', s2) \<Rightarrow> ((ns, [], [], Some e'), s2)
            | (Inr items, s2) \<Rightarrow>
                (case find (\<lambda>item. NestedString E item [''spec'', ''displayName''] = spec) items of
                   None \<Rightarrow>
                     ((ns, [], [], Some (Errorf (''no VirtualMachineImage in namespace '' @ ns
                         @ '' matching name or displayName '' @ Quote spec))), s2)
                 | Some item \<Rightarrow>
                     ((ns, GetName E item, image_class E item,
                       if image_class E item = []
                       then Some (Errorf (''VirtualMachineImage '' @ ns @ ''/'' @ GetName E item
                              @ '' (displayName='' @ spec @ '') has no status.storageClassName yet''))
                       else None), s2)))))"

section \<open>Creation\<close>

definition vm_name :: "string \<Rightarrow> string" where "vm_name ident = ''pg-'' @ ident"

definition secret_name :: "string \<Rightarrow> string" where
  "secret_name ident = ''pg-'' @ ident @ ''-credentials''"

definition os_dv_name :: "string \<Rightarrow> string" where "os_dv_name ident = ''pg-'' @ ident @ ''-os''"

definition resolve_s3 ::
  "'s env \<Rightarrow> VMCreateParams \<Rightarrow> 's \<Rightarrow> (error + resolvedS3Config option) \<times> 's" where
  "resolve_s3 E p s = (case p_S3Config p of
       None \<Rightarrow> (Inr None, s)
     | Some cfg \<Rightarrow>
         (case GetSecret E (p_Namespace p) (s3_SecretRef cfg) s of
            (Inl e, s1) \<Rightarrow> (Inl (Errorw (''read S3 secret '' @ Quote (s3_SecretRef cfg) @ '': '') e), s1)
          | (Inr m, s1) \<Rightarrow>
              (Inr (Some \<lparr>rs3_Endpoint = s3_Endpoint cfg, rs3_Bucket = s3_Bucket cfg,
                 rs3_Region = s3_Region cfg, rs3_Path = ''/'' @ p_ID p,
                 rs3_AccessKey = map_get m ''accessKey'', rs3_SecretKey = map_get m ''secretKey''\<rparr>), s1)))"

definition secret_object ::
  "'s env \<Rightarrow> VMCreateParams \<Rightarrow> string \<Rightarrow> string \<Rightarrow> string \<Rightarrow> string \<Rightarrow> TLSBundle \<Rightarrow> SSHKeyPair
   \<Rightarrow> resolvedS3Config option \<Rightarrow> json" where
  "secret_object E p adminPw replPw exporterPw luksKey tls sshKey s3 =
     (let cloudInit = buildCloudInit p adminPw replPw exporterPw luksKey tls (Some sshKey) s3;
          secret0 = newUnstructured E ''v1'' ''Secret'' (secret_name (p_ID p)) (p_Namespace p);
          secret1 = SetNestedField E secret0 (JStr ''Opaque'') [''type'']
      in SetNestedField E secret1
           (JMap [(''admin_user'', JStr (p_MasterUser p)),
                  (''admin_password'', JStr adminPw),
                  (''repl_password'', JStr replPw),
                  (''exporter_password'', JStr exporterPw),
                  (''luks_key'', JStr luksKey),
                  (SecretKeyCACert, JStr (tls_CACertPEM tls)),
                  (SecretKeyCAKey, JStr (tls_CAKeyPEM tls)),
                  (''server_cert'', JStr (tls_ServerCertPEM tls)),
                  (''server_key'', JStr (tls_ServerKeyPEM tls)),
                  (SecretKeySSHPrivateKey, JStr (ssh_PrivateKeyPEM sshKey)),
                  (''userdata'', JStr cloudInit)]) [''stringData''])"

definition virtio_disk :: "string \<Rightarrow> (string \<times> json) list \<Rightarrow> json" where
  "virtio_disk name extra =
     JMap ([(''name'', JStr name), (''disk'', JMap [(''bus'', JStr ''virtio'')])] @ extra)"

definition os_disk_template :: "VMCreateParams \<Rightarrow> string \<Rightarrow> string \<Rightarrow> string \<Rightarrow> json" where
  "os_disk_template p imgNs imgName imgSC =
     JMap [(''apiVersion'', JStr ''cdi.kubevirt.io/v1beta1''),
           (''kind'', JStr ''DataVolume''),
           (''metadata'', JMap [(''name'', JStr (os_dv_name (p_ID p))),
              (''annotations'', JMap [(''harvesterhci.io/imageId'', JStr (imgNs @ ''/'' @ imgName))])]),
           (''spec'', JMap [(''source'', JMap [(''blank'', JMap [])]),
              (''pvc'', JMap [(''accessModes'', JList [JStr ''ReadWriteMany'']),
                 (''volumeMode'', JStr ''Block''),
                 (''storageClassName'', JStr imgSC),
                 (''resources'', JMap [(''requests'', JMap [(''storage'', JStr ''20Gi'')])])])])]"

definition vm_spec :: "VMCreateParams \<Rightarrow> string \<Rightarrow> string \<Rightarrow> string \<Rightarrow> json" where
  "vm_spec p imgNs imgName imgSC =
     JMap [(''running'', JBool True),
       (''dataVolumeTemplates'', JList [os_disk_template p imgNs imgName imgSC]),
       (''template'', JMap [
          (''metadata'', JMap [
             (''labels'', JMap [(LabelInstance, JStr (p_ID p))]),
             (''annotations'', JMap [(''ovn.kubernetes.io/logical_switch'', JStr (p_SubnetName p))])]),
          (''spec'', JMap [
             (''domain'', JMap [
                (''cpu'', JMap [(''cores'', JInt (p_CPUCores p)), (''sockets'', JInt 1), (''threads'', JInt 1)]),
                (''memory'', JMap [(''guest'', JStr (itoa (p_MemoryMB p) @ ''Mi''))]),
                (''devices'', JMap [
                   (''disks'', JList [virtio_disk ''os-disk'' [(''bootOrder'', JInt 1)],
                      virtio_disk ''pgdata-disk'' [], virtio_disk ''cloudinit'' []]),
                   (''interfaces'', JList (vmInterfaces (p_ConsumerNetwork p)))])]),
             (''networks'', JList (vmNetworks (p_Namespace p) (p_NADName p) (p_ConsumerNetwork p))),
             (''volumes'', JList [
                JMap [(''name'', JStr ''os-disk''),
                      (''dataVolume'', JMap [(''name'', JStr (os_dv_name (p_ID p)))])],
                JMap [(''name'', JStr ''pgdata-disk''),
                      (''dataVolume'', JMap [(''name'', JStr (p_DataVolumeRef p))])],
                JMap [(''name'', JStr ''cloudinit''),
                      (''cloudInitNoCloud'', JMap [(''secretRef'',
                         JMap [(''name'', JStr (secret_name (p_ID p)))])])]])])])]"

definition vm_object :: "'s env \<Rightarrow> VMCreateParams \<Rightarrow> string \<Rightarrow> string \<Rightarrow> string \<Rightarrow> json" where
  "vm_object E p imgNs imgName imgSC =
     SetNestedField E
       (SetLabels E (newUnstructured E ''kubevirt.io/v1'' ''VirtualMachine'' (vm_name (p_ID p)) (p_Namespace p))
          [(LabelInstance, p_ID p), (LabelRole, ''primary'')])
       (vm_spec p imgNs imgName imgSC) [''spec'']"

text \<open>The second half: the Secret, the image, the VM.\<close>

definition create_secret_and_vm ::
  "'s env \<Rightarrow> VMCreateParams \<Rightarrow> json \<Rightarrow> string \<Rightarrow> 's
   \<Rightarrow> (string \<times> string \<times> string \<times> error option) \<times> 's" where
  "create_secret_and_vm E p secret caCertPEM s =
     (let ret = (\<lambda>err. (vm_name (p_ID p), secret_name (p_ID p), caCertPEM, err)) in
      case create_tolerant E secretGVR (p_Namespace p) secret s of
        (Some e, s1) \<Rightarrow> (ret (Some e), s1)
      | (None, s1) \<Rightarrow>
          (case resolveVMImage E (p_OSImage p) s1 of
             ((imgNs, imgName, imgSC, Some e), s2) \<Rightarrow> (ret (Some e), s2)
           | ((imgNs, imgName, imgSC, None), s2) \<Rightarrow>
               (case create_tolerant E vmGVR (p_Namespace p) (vm_object E p imgNs imgName imgSC) s2 of
                  (err, s3) \<Rightarrow> (ret err, s3))))"

definition CreatePostgresVM ::
  "'s env \<Rightarrow> VMCreateParams \<Rightarrow> 's \<Rightarrow> (string \<times> string \<times> string \<times> error option) \<times> 's" where
  "CreatePostgresVM E p s =
     (let ret = (\<lambda>ca err. (vm_name (p_ID p), secret_name (p_ID p), ca, err)) in
      case randomString E 32 s of (adminPw, s1) \<Rightarrow>
      case randomString E 32 s1 of (replPw, s2) \<Rightarrow>
      case randomString E 24 s2 of (exporterPw, s3) \<Rightarrow>
      case randomString E 64 s3 of (luksKey, s4) \<Rightarrow>
      (case generateTLS E (vm_name (p_ID p)) s4 of
        (Inl e, s5) \<Rightarrow> (ret [] (Some (Errorw ''TLS generation: '' e)), s5)
      | (Inr tls, s5) \<Rightarrow>
          (case generateSSHKeyPair E s5 of
             (Inl e, s6) \<Rightarrow>
               (ret (tls_CACertPEM tls) (Some (Errorw ''SSH key generation: '' e)), s6)
           | (Inr sshKey, s6) \<Rightarrow>
               (case resolve_s3 E p s6 of
                  (Inl e, s7) \<Rightarrow> (ret (tls_CACertPEM tls) (Some e), s7)
                | (Inr s3cfg, s7) \<Rightarrow>
                    create_secret_and_vm E p
                      (secret_object E p adminPw replPw exporterPw luksKey tls sshKey s3cfg)
                      (tls_CACertPEM tls) s7))))"

section \<open>Readiness\<close>

definition iface_str :: "(string \<times> json) list \<Rightarrow> string \<Rightarrow> string" where
  "iface_str m k = (case map_of m k of Some (JStr v) \<Rightarrow> v | _ \<Rightarrow> [])"

text \<open>The loop over the interfaces; the state is (\<open>ip\<close>, \<open>mgmtIP\<close>, \<open>fallbackIP\<close>).\<close>

fun scan_interfaces :: "json list \<Rightarrow> string \<times> string \<times> string \<Rightarrow> string \<times> string \<times> string" where
  "scan_interfaces [] acc = acc"
| "scan_interfaces (JMap m # rest) (ip, mgmtIP, fallbackIP) =
     (let addr = iface_str m ''ipAddress'' in
      if addr = [] then scan_interfaces rest (ip, mgmtIP, fallbackIP)
      else (let name = iface_str m ''name'' in
        scan_interfaces rest
          (if name = ''vpc-net'' then addr else ip,
           if name = ''mgmt-net'' then addr else mgmtIP,
           if fallbackIP = [] then addr else fallbackIP)))"
| "scan_interfaces (_ # rest) acc = scan_interfaces rest acc"

definition no_readiness :: VMIReadiness where
  "no_readiness = \<lparr>rd_Running = False, rd_IP = [], rd_MgmtIP = [], rd_Ready = False\<rparr>"

definition GetVMIReadiness ::
  "'s env \<Rightarrow> string \<Rightarrow> string \<Rightarrow> 's \<Rightarrow> (VMIReadiness \<times> error option) \<times> 's" where
  "GetVMIReadiness E ns vmName s =
     (case Dyn_Get E vmiGVR ns vmName s of
        (Inl e, s1) \<Rightarrow> ((no_readiness, Some e), s1)
      | (Inr vmi, s1) \<Rightarrow>
          (let running = (NestedString E vmi [''status'', ''phase''] = vmiPhaseRunning);
               (ip, mgmtIP, fallbackIP) =
                 scan_interfaces (NestedSlice E vmi [''status'', ''interfaces'']) ([], [], []);
               addr = (if ip = [] then fallbackIP else ip)
           in if running
              then (case Time_Now E s1 of (now, s2) \<Rightarrow>
                ((\<lparr>rd_Running = True, rd_IP = addr, rd_MgmtIP = mgmtIP,
                   rd_Ready = (now - GetCreationTimestamp E vmi > 3 * minute_ns)\<rparr>, None), s2))
              else ((\<lparr>rd_Running = False, rd_IP = addr, rd_MgmtIP = mgmtIP, rd_Ready = False\<rparr>, None), s1)))"

section \<open>Power state and size\<close>

definition running_edit :: "'s env \<Rightarrow> bool \<Rightarrow> json \<Rightarrow> json" where
  "running_edit E running vm = SetNestedField E vm (JBool running) [''spec'', ''running'']"

definition setVMRunning :: "'s env \<Rightarrow> string \<Rightarrow> string \<Rightarrow> bool \<Rightarrow> 's \<Rightarrow> error option \<times> 's" where
  "setVMRunning E ns vmName running s = get_edit_update E vmGVR ns vmName (running_edit E running) s"

definition StopVM :: "'s env \<Rightarrow> string \<Rightarrow> string \<Rightarrow> 's \<Rightarrow> error option \<times> 's" where
  "StopVM E ns vmName s = setVMRunning E ns vmName False s"

definition StartVM :: "'s env \<Rightarrow> string \<Rightarrow> string \<Rightarrow> 's \<Rightarrow> error option \<times> 's" where
  "StartVM E ns vmName s = setVMRunning E ns vmName True s"

abbreviation cores_path :: "string list" where
  "cores_path \<equiv> [''spec'', ''template'', ''spec'', ''domain'', ''cpu'', ''cores'']"

abbreviation guest_path :: "string list" where
  "guest_path \<equiv> [''spec'', ''template'', ''spec'', ''domain'', ''memory'', ''guest'']"

definition resize_vm_edit :: "'s env \<Rightarrow> int \<Rightarrow> int \<Rightarrow> json \<Rightarrow> json" where
  "resize_vm_edit E cpuCores memoryMB vm =
     SetNestedField E (SetNestedField E vm (JInt cpuCores) cores_path)
       (JStr (itoa memoryMB @ ''Mi'')) guest_path"

definition ResizeVM :: "'s env \<Rightarrow> string \<Rightarrow> string \<Rightarrow> int \<Rightarrow> int \<Rightarrow> 's \<Rightarrow> error option \<times> 's" where
  "ResizeVM E ns vmName cpuCores memoryMB s =
     get_edit_update E vmGVR ns vmName (resize_vm_edit E cpuCores memoryMB) s"

section \<open>Teardown\<close>

record deleteTask =
  dt_gvr :: gvr
  dt_namespace :: string
  dt_name :: string

definition task :: "gvr \<Rightarrow> string \<Rightarrow> string \<Rightarrow> deleteTask" where
  "task g ns n = \<lparr>dt_gvr = g, dt_namespace = ns, dt_name = n\<rparr>"

definition teardown_tasks :: "string \<Rightarrow> ResourceRefs \<Rightarrow> deleteTask list" where
  "teardown_tasks ns refs =
     (let ownedNAD = (if res_VPCName refs \<noteq> [] then res_NADName refs else [])
      in filter (\<lambda>t. dt_name t \<noteq> [])
        [task smGVR ns (res_ServiceMonitor refs),
         task vmGVR ns (res_VMName refs),
         task dvGVR ns (res_DataVolumeName refs),
         task secretGVR ns (res_SecretName refs),
         task nadGVR ns ownedNAD,
         task subnetGVR [] (res_SubnetName refs),
         task vpcPeeringGVR [] (res_VpcPeeringName refs),
         task vpcGVR [] (res_VPCName refs)])"

fun run_deletes :: "'s env \<Rightarrow> deleteTask list \<Rightarrow> 's \<Rightarrow> 's" where
  "run_deletes E [] s = s"
| "run_deletes E (t # ts) s =
     run_deletes E ts (snd (Dyn_Delete E (dt_gvr t) (dt_namespace t) (dt_name t) s))"

text \<open>One goroutine per task, each with one call whose error is dropped, then \<open>wg.Wait\<close>.\<close>

definition TeardownAll :: "'s env \<Rightarrow> string \<Rightarrow> string \<Rightarrow> ResourceRefs \<Rightarrow> 's \<Rightarrow> 's" where
  "TeardownAll E ident ns refs s =
     (case Go_Sched E s of (cs, s1) \<Rightarrow> run_deletes E (pick cs (teardown_tasks ns refs)) s1)"

section \<open>Effects\<close>

abbreviation vm_kinds :: "gvr list" where "vm_kinds \<equiv> [secretGVR, vmImageGVR, vmGVR]"

definition delete_call :: "deleteTask \<Rightarrow> call" where
  "delete_call t = CDelete (dt_gvr t) (dt_namespace t) (dt_name t)"

context recorder
begin

lemma GetSecret_log: "GetSecret E ns name s = (r, s') \<Longrightarrow> lg s' = lg s @ [CGet secretGVR ns name]"
  by (auto simp: GetSecret_def split: prod.splits sum.splits dest: Dyn_Get_log)

lemma resolve_s3_log:
  "resolve_s3 E p s = (r, s') \<Longrightarrow>
     \<exists>cs. lg s' = lg s @ cs \<and> list_all (provisions vm_kinds) cs \<and> filter is_create cs = []"
  by (auto simp: resolve_s3_def split: option.splits prod.splits sum.splits dest!: GetSecret_log)

lemma resolveVMImage_log:
  "resolveVMImage E ref s = (r, s') \<Longrightarrow>
     \<exists>cs. lg s' = lg s @ cs \<and> list_all (provisions vm_kinds) cs \<and> filter is_create cs = []"
  by (auto simp: resolveVMImage_def split: prod.splits sum.splits if_splits option.splits
      dest!: Dyn_Get_log Dyn_List_log)

lemma create_secret_and_vm_log:
  assumes "create_secret_and_vm E p secret ca s = (r, s')"
  shows "\<exists>cs rest. lg s' = lg s @ cs \<and> list_all (provisions vm_kinds) cs
     \<and> filter is_create cs = CCreate secretGVR (p_Namespace p) secret # rest
     \<and> (rest = [] \<or> (\<exists>ns n sc. rest = [CCreate vmGVR (p_Namespace p) (vm_object E p ns n sc)]))
     \<and> (snd (snd (snd r)) = None \<longrightarrow> rest \<noteq> [])"
  using assms
  by (auto simp: create_secret_and_vm_def Let_def split: prod.splits option.splits
      dest!: create_tolerant_log resolveVMImage_log) blast

text \<open>
  \<open>CreatePostgresVM\<close> creates nothing, or the Secret, or the Secret and then the VM; on success both.
\<close>

lemma CreatePostgresVM_log:
  assumes "CreatePostgresVM E p s = (r, s')"
  shows "\<exists>cs. lg s' = lg s @ cs \<and> list_all (provisions vm_kinds) cs
     \<and> (filter is_create cs = []
        \<or> (\<exists>secret. filter is_create cs = [CCreate secretGVR (p_Namespace p) secret])
        \<or> (\<exists>secret ns n sc. filter is_create cs = [CCreate secretGVR (p_Namespace p) secret,
             CCreate vmGVR (p_Namespace p) (vm_object E p ns n sc)]))
     \<and> (snd (snd (snd r)) = None \<longrightarrow> length (filter is_create cs) = 2)"
  using assms
  by (fastforce simp: CreatePostgresVM_def Let_def split: prod.splits sum.splits
      dest!: keygen_log resolve_s3_log create_secret_and_vm_log)

lemma CreatePostgresVM_emits:
  "CreatePostgresVM E p s = (r, s') \<Longrightarrow> emits lg (provisions vm_kinds) s s'"
  using CreatePostgresVM_log unfolding emits_def by blast

lemma GetVMIReadiness_log:
  "GetVMIReadiness E ns vm s = (r, s') \<Longrightarrow> lg s' = lg s @ [CGet vmiGVR ns vm]"
  by (auto simp: GetVMIReadiness_def Let_def split: prod.splits sum.splits if_splits
      dest!: Dyn_Get_log Time_Now_log)

lemma setVMRunning_emits: "setVMRunning E ns vm b s = (r, s') \<Longrightarrow> emits lg (provisions [vmGVR]) s s'"
  by (auto simp: setVMRunning_def dest: get_edit_update_emits)

lemma run_deletes_log: "lg (run_deletes E ts s) = lg s @ map delete_call ts"
proof (induction ts arbitrary: s)
  case (Cons t ts)
  obtain r s' where d: "Dyn_Delete E (dt_gvr t) (dt_namespace t) (dt_name t) s = (r, s')"
    by (metis surj_pair)
  with Cons show ?case
    by (simp add: delete_call_def Dyn_Delete_log [OF d])
qed simp

text \<open>The deletions of a teardown, in an order the scheduler chooses.\<close>

lemma TeardownAll_log:
  "\<exists>ts. lg (TeardownAll E ident ns refs s) = lg s @ map delete_call ts
      \<and> mset ts = mset (teardown_tasks ns refs)"
proof -
  obtain cs s1 where g: "Go_Sched E s = (cs, s1)" by (metis surj_pair)
  show ?thesis
    by (intro exI [of _ "pick cs (teardown_tasks ns refs)"])
      (simp add: TeardownAll_def g run_deletes_log Go_Sched_log [OF g])
qed

lemma SSHExec_emits: "SSHExec E ip key cmd s = (r, s') \<Longrightarrow> emits lg is_ssh s s'"
  by (auto simp: SSHExec_def emits_def split: sum.splits prod.splits option.splits
      dest!: Ssh_Dial_log Ssh_NewSession_log Ssh_Run_log)

end

lemma vm_object_traced [simp]: "vm_object (traced E) = vm_object E"
  by (simp add: fun_eq_iff vm_object_def)

lemma CreatePostgresVM_names:
  "CreatePostgresVM E p s = ((v, n, ca, err), s') \<Longrightarrow> v = vm_name (p_ID p) \<and> n = secret_name (p_ID p)"
  by (auto simp: CreatePostgresVM_def create_secret_and_vm_def Let_def
      split: prod.splits sum.splits option.splits)

lemma vm_names_nonempty [simp]: "vm_name ident \<noteq> []" "secret_name ident \<noteq> []"
  by (simp_all add: vm_name_def secret_name_def)

section \<open>Creation and teardown\<close>

lemma vm_objects_answered [simp]:
  "vm_object (answered E) = vm_object E" "secret_object (answered E) = secret_object E"
  "NestedString (answered E) = NestedString E" "NestedMap (answered E) = NestedMap E"
  "image_class (answered E) = image_class E"
  by (simp_all add: fun_eq_iff vm_object_def secret_object_def NestedString_def NestedMap_def
      image_class_def)

text \<open>
  What it means for an image to have been found, in terms of the answers of the API server: the image of that name
  was read, or there is none and one of that display name was listed; and its storage class is known.
\<close>

definition image_found ::
  "'s env \<Rightarrow> string \<Rightarrow> (call \<times> answer) list \<Rightarrow> string \<Rightarrow> string \<Rightarrow> string \<Rightarrow> bool" where
  "image_found E ref M ns img sc = (sc \<noteq> [] \<and> ns = fst (image_ref ref)
     \<and> (\<exists>obj. sc = NestedString E obj [''status'', ''storageClassName'']
         \<and> (M = [(CGet vmImageGVR ns (snd (image_ref ref)), Obj (Inr obj))] \<and> img = snd (image_ref ref)
            \<or> (\<exists>e items. M = [(CGet vmImageGVR ns (snd (image_ref ref)), Obj (Inl e)),
                              (CList vmImageGVR ns, Lst (Inr items))]
                 \<and> IsNotFound e \<and> obj \<in> set items \<and> img = GetName E obj
                 \<and> NestedString E obj [''spec'', ''displayName''] = snd (image_ref ref)))))"

lemma resolveVMImage_answered:
  assumes "resolveVMImage (answered E) ref w = ((ns, img, sc, err), w')"
  shows "\<exists>M. snd w' = snd w @ M \<and> filter is_create (map fst M) = []
    \<and> (err = None \<longrightarrow> image_found E ref M ns img sc)"
  using assms
  by (auto simp: resolveVMImage_def image_found_def image_class_def answered_dyn note_call_iff
      find_Some_iff split: prod.splits sum.splits if_splits option.splits)

lemma resolve_s3_answered:
  "resolve_s3 (answered E) p w = (r, w') \<Longrightarrow> \<exists>K. snd w' = snd w @ K \<and> filter is_create (map fst K) = []"
  by (auto simp: resolve_s3_def GetSecret_def answered_dyn note_call_iff
      split: option.splits prod.splits sum.splits)

text \<open>
  The Secret is the one of this run: four random strings, certificates and an SSH key pair were generated
  one after the other, and the backup credentials were read (\<open>K\<close>) if backups are configured. \<open>key\<close> and \<open>ca\<close> are the
  key pair and the CA certificate in it.
\<close>

definition secret_made ::
  "'s env \<Rightarrow> VMCreateParams \<Rightarrow> 's \<Rightarrow> (call \<times> answer) list \<Rightarrow> json \<Rightarrow> SSHKeyPair \<Rightarrow> string \<Rightarrow> bool" where
  "secret_made E p s K secret key ca =
     (\<exists>a r x l tls s3 s1 s2 s3' s4 s5 s6 w.
        randomString E 32 s = (a, s1) \<and> randomString E 32 s1 = (r, s2)
        \<and> randomString E 24 s2 = (x, s3') \<and> randomString E 64 s3' = (l, s4)
        \<and> generateTLS E (vm_name (p_ID p)) s4 = (Inr tls, s5)
        \<and> generateSSHKeyPair E s5 = (Inr key, s6)
        \<and> resolve_s3 (answered E) p (s6, []) = (Inr s3, w) \<and> K = snd w
        \<and> secret = secret_object E p a r x l tls key s3 \<and> ca = tls_CACertPEM tls)"

text \<open>The part of a run from the creation of the Secret on.\<close>

definition creation_part ::
  "'s env \<Rightarrow> VMCreateParams \<Rightarrow> json \<Rightarrow> (call \<times> answer) list \<Rightarrow> error option \<Rightarrow> bool" where
  "creation_part E p secret C err = (\<exists>a M.
     filter is_create (map fst M) = []
     \<and> (C = (CCreate secretGVR (p_Namespace p) secret, a) # M \<and> err \<noteq> None
        \<or> (\<exists>ns img sc b. tolerated a \<and> image_found E (p_OSImage p) M ns img sc
             \<and> C = (CCreate secretGVR (p_Namespace p) secret, a) # M
                 @ [(CCreate vmGVR (p_Namespace p) (vm_object E p ns img sc), b)]
             \<and> (err = None \<longleftrightarrow> tolerated b))))"

text \<open>Recording the answers does not change a run.\<close>

lemma create_tolerant_run:
  assumes "create_tolerant (answered E) g ns obj w = (err, w')"
  shows "create_tolerant E g ns obj (fst w) = (err, fst w')
    \<and> snd w' = snd w @ [(CCreate g ns obj, Obj (fst (Dyn_Create E g ns obj (fst w))))]"
  using assms by (auto simp: create_tolerant_def answered_dyn note_call_iff split: prod.splits sum.splits if_splits)

lemma resolveVMImage_run:
  "resolveVMImage (answered E) ref w = (r, w') \<Longrightarrow> resolveVMImage E ref (fst w) = (r, fst w')"
  by (auto simp: resolveVMImage_def answered_dyn note_call_iff split: prod.splits sum.splits if_splits option.splits)

lemma create_secret_and_vm_run:
  assumes "create_secret_and_vm (answered E) p secret ca w = (r, w')"
  shows "create_secret_and_vm E p secret ca (fst w) = (r, fst w')"
  using assms
  by (auto simp: create_secret_and_vm_def Let_def split: prod.splits option.splits
      dest!: create_tolerant_run resolveVMImage_run)

lemma create_secret_and_vm_answered:
  assumes "create_secret_and_vm (answered E) p secret ca w = ((v, n, ca', err), w')"
  shows "\<exists>C. snd w' = snd w @ C \<and> creation_part E p secret C err \<and> ca' = ca
    \<and> snd (hd C) = Obj (fst (Dyn_Create E secretGVR (p_Namespace p) secret (fst w)))"
proof -
  obtain e1 w1 where c1: "create_tolerant (answered E) secretGVR (p_Namespace p) secret w = (e1, w1)"
    by (metis surj_pair)
  from create_tolerant_answered [OF c1] obtain a where
    a: "snd w1 = snd w @ [(CCreate secretGVR (p_Namespace p) secret, Obj a)]"
      "case e1 of None \<Rightarrow> tolerated (Obj a) | Some e \<Rightarrow> a = Inl e \<and> \<not> IsAlreadyExists e" by blast
  have first: "a = fst (Dyn_Create E secretGVR (p_Namespace p) secret (fst w))"
    using create_tolerant_run [OF c1] a(1) by simp
  obtain ns img sc e2 w2 where i: "resolveVMImage (answered E) (p_OSImage p) w1 = ((ns, img, sc, e2), w2)"
    by (metis surj_pair)
  from resolveVMImage_answered [OF i] obtain M where m: "snd w2 = snd w1 @ M"
    "filter is_create (map fst M) = []" "e2 = None \<longrightarrow> image_found E (p_OSImage p) M ns img sc" by blast
  obtain e3 w3 where c3: "create_tolerant (answered E) vmGVR (p_Namespace p) (vm_object E p ns img sc) w2 = (e3, w3)"
    by (metis surj_pair)
  from create_tolerant_answered [OF c3] obtain b where
    b: "snd w3 = snd w2 @ [(CCreate vmGVR (p_Namespace p) (vm_object E p ns img sc), Obj b)]"
      "case e3 of None \<Rightarrow> tolerated (Obj b) | Some e \<Rightarrow> b = Inl e \<and> \<not> IsAlreadyExists e" by blast
  have tb: "e3 = None \<longleftrightarrow> tolerated (Obj b)" using b(2) by (auto simp: tolerated_def split: option.splits)
  note run = assms [unfolded create_secret_and_vm_def Let_def c1]
  show ?thesis
  proof (cases "e1 = None \<and> e2 = None")
    case True
    with run have r: "err = e3" "w' = w3" "ca' = ca" by (simp_all add: i c3)
    with True a b m tb have "creation_part E p secret ((CCreate secretGVR (p_Namespace p) secret, Obj a) # M
        @ [(CCreate vmGVR (p_Namespace p) (vm_object E p ns img sc), Obj b)]) err"
      unfolding creation_part_def by (intro exI [of _ "Obj a"] exI [of _ M]) auto
    with r a b m first show ?thesis by fastforce
  next
    case False
    then have "\<exists>M'. snd w' = snd w @ (CCreate secretGVR (p_Namespace p) secret, Obj a) # M'
        \<and> filter is_create (map fst M') = [] \<and> err \<noteq> None \<and> ca' = ca"
      using run a m by (cases e1; cases e2) (auto simp: i)
    then obtain M' where "snd w' = snd w @ (CCreate secretGVR (p_Namespace p) secret, Obj a) # M'"
        "filter is_create (map fst M') = []" "err \<noteq> None" "ca' = ca" by blast
    with first show ?thesis unfolding creation_part_def
      by (intro exI [of _ "(CCreate secretGVR (p_Namespace p) secret, Obj a) # M'"]) auto
  qed
qed

lemma secret_madeI:
  "randomString E 32 s = (a, s1) \<Longrightarrow> randomString E 32 s1 = (r, s2) \<Longrightarrow>
   randomString E 24 s2 = (x, s3') \<Longrightarrow> randomString E 64 s3' = (l, s4) \<Longrightarrow>
   generateTLS E (vm_name (p_ID p)) s4 = (Inr tls, s5) \<Longrightarrow> generateSSHKeyPair E s5 = (Inr key, s6) \<Longrightarrow>
   resolve_s3 (answered E) p (s6, []) = (Inr s3, w) \<Longrightarrow>
   secret_made E p s (snd w) (secret_object E p a r x l tls key s3) key (tls_CACertPEM tls)"
  unfolding secret_made_def by blast

lemma CreatePostgresVM_answered:
  assumes "CreatePostgresVM (answered E) p (s, []) = ((v, n, ca, err), (s', L))"
  shows "err \<noteq> None \<and> filter is_create (map fst L) = []
    \<or> (\<exists>secret key ca' w. secret_made E p s (snd w) secret key ca' \<and> filter is_create (map fst (snd w)) = []
         \<and> create_secret_and_vm (answered E) p secret ca' w = ((v, n, ca, err), (s', L)))"
proof -
  obtain a w1 where a: "randomString (answered E) 32 (s, []) = (a, w1)" by (metis surj_pair)
  obtain r w2 where r: "randomString (answered E) 32 w1 = (r, w2)" by (metis surj_pair)
  obtain x w3 where x: "randomString (answered E) 24 w2 = (x, w3)" by (metis surj_pair)
  obtain l w4 where l: "randomString (answered E) 64 w3 = (l, w4)" by (metis surj_pair)
  obtain t w5 where t: "generateTLS (answered E) (vm_name (p_ID p)) w4 = (t, w5)" by (metis surj_pair)
  obtain k w6 where k: "generateSSHKeyPair (answered E) w5 = (k, w6)" by (metis surj_pair)
  obtain q w7 where q: "resolve_s3 (answered E) p w6 = (q, w7)" by (metis surj_pair)
  note quiet = keygen_answered(1) [OF a] keygen_answered(1) [OF r] keygen_answered(1) [OF x]
    keygen_answered(1) [OF l] keygen_answered(2) [OF t] keygen_answered(3) [OF k]
  have logs: "snd w5 = []" "snd w6 = []" "filter is_create (map fst (snd w7)) = []"
    using quiet resolve_s3_answered [OF q] by auto
  from q logs(2) have q6: "resolve_s3 (answered E) p (fst w6, []) = (q, w7)" by (metis prod.collapse)
  show ?thesis
  proof (cases "\<exists>tls key s3. t = Inr tls \<and> k = Inr key \<and> q = Inr s3")
    case True
    then obtain tls key s3 where ok: "t = Inr tls" "k = Inr key" "q = Inr s3" by blast
    let ?sec = "secret_object E p a r x l tls key s3"
    have "create_secret_and_vm (answered E) p ?sec (tls_CACertPEM tls) w7 = ((v, n, ca, err), (s', L))"
      using assms by (simp add: CreatePostgresVM_def a r x l t k q ok)
    moreover have "secret_made E p s (snd w7) ?sec key (tls_CACertPEM tls)"
      using secret_madeI [of E s a "fst w1" r "fst w2" x "fst w3" l "fst w4" p tls "fst w5" key "fst w6" s3 w7]
        quiet ok q6 by simp
    ultimately show ?thesis using logs by blast
  next
    case False
    then have "err \<noteq> None \<and> L \<in> {[], snd w7}"
      using assms logs by (cases t; cases k; cases q) (auto simp: CreatePostgresVM_def a r x l t k q)
    with logs show ?thesis by auto
  qed
qed

lemma CreatePostgresVM_parts:
  assumes "CreatePostgresVM (answered E) p (s, []) = ((v, n, ca, err), (s', L))"
  shows "filter is_create (map fst L) = [] \<and> err \<noteq> None
       \<or> (\<exists>K C secret key. L = K @ C \<and> filter is_create (map fst K) = []
            \<and> secret_made E p s K secret key ca \<and> creation_part E p secret C err)"
  using CreatePostgresVM_answered [OF assms] by (fastforce dest!: create_secret_and_vm_answered)


lemmas gvr_defs = vmGVR_def vmiGVR_def dvGVR_def vpcGVR_def subnetGVR_def nadGVR_def secretGVR_def
  serviceGVR_def smGVR_def vpcPeeringGVR_def vmImageGVR_def mk_gvr_def

lemma task_simps [simp]:
  "task g n k = task g' n' k' \<longleftrightarrow> g = g' \<and> n = n' \<and> k = k'"
  "dt_gvr (task g n k) = g" "dt_namespace (task g n k) = n" "dt_name (task g n k) = k"
  by (simp_all add: task_def)

lemma distinct_teardown_tasks: "distinct (teardown_tasks ns refs)"
  unfolding teardown_tasks_def Let_def by (rule distinct_filter) (simp add: task_def gvr_defs)

lemma inj_delete_call: "inj delete_call"
  by (auto simp: inj_def delete_call_def intro: deleteTask.equality)

lemma delete_call_mem: "CDelete g n k \<in> delete_call ` T \<longleftrightarrow> task g n k \<in> T"
  using inj_image_mem_iff [OF inj_delete_call, of "task g n k" T] by (simp add: delete_call_def)

lemma teardown_mset:
  "mset (snd (TeardownAll (traced E) ident ns refs (s, []))) = mset (map delete_call (teardown_tasks ns refs))"
proof -
  obtain ts where ts: "snd (TeardownAll (traced E) ident ns refs (s, [])) = map delete_call ts"
    "mset ts = mset (teardown_tasks ns refs)"
    using tr.TeardownAll_log [of E ident ns refs "(s, [])"] by auto
  then show ?thesis by simp
qed

lemma teardown_distinct: "distinct (snd (TeardownAll (traced E) ident ns refs (s, [])))"
proof -
  have "distinct (map delete_call (teardown_tasks ns refs))"
    using distinct_teardown_tasks inj_delete_call by (simp add: distinct_map inj_on_def inj_def)
  then show ?thesis using mset_eq_imp_distinct_iff [OF teardown_mset [of E ident ns refs s]] by simp
qed

lemma teardown_mem:
  "c \<in> set (snd (TeardownAll (traced E) ident ns refs (s, []))) \<longleftrightarrow>
     (\<exists>t \<in> set (teardown_tasks ns refs). c = delete_call t)"
  using mset_eq_setD [OF teardown_mset [of E ident ns refs s]] by auto

lemma teardown_task_mem:
  "task g n k \<in> set (teardown_tasks ns refs) \<longleftrightarrow>
     k \<noteq> [] \<and> (g, n, k) \<in>
       {(smGVR, ns, res_ServiceMonitor refs), (vmGVR, ns, res_VMName refs),
        (dvGVR, ns, res_DataVolumeName refs), (secretGVR, ns, res_SecretName refs),
        (nadGVR, ns, if res_VPCName refs \<noteq> [] then res_NADName refs else []),
        (subnetGVR, [], res_SubnetName refs), (vpcPeeringGVR, [], res_VpcPeeringName refs),
        (vpcGVR, [], res_VPCName refs)}"
proof -
  have "task g n k \<in> set (teardown_tasks ns refs) \<longleftrightarrow> k \<noteq> [] \<and> task g n k \<in> set
      [task smGVR ns (res_ServiceMonitor refs), task vmGVR ns (res_VMName refs),
       task dvGVR ns (res_DataVolumeName refs), task secretGVR ns (res_SecretName refs),
       task nadGVR ns (if res_VPCName refs \<noteq> [] then res_NADName refs else []),
       task subnetGVR [] (res_SubnetName refs), task vpcPeeringGVR [] (res_VpcPeeringName refs),
       task vpcGVR [] (res_VPCName refs)]"
    unfolding teardown_tasks_def Let_def set_filter mem_Collect_eq task_simps by (rule conj_commute)
  then show ?thesis
    by (simp only: list.set insert_iff empty_iff task_simps prod.inject)
qed

lemma teardown_delete_mem:
  "CDelete g n k \<in> set (snd (TeardownAll (traced E) ident ns refs (s, []))) \<longleftrightarrow>
     task g n k \<in> set (teardown_tasks ns refs)"
  using mset_eq_setD [OF teardown_mset [of E ident ns refs s]] delete_call_mem by simp

text \<open>
  C19: whatever the order in which the goroutines run, a teardown issues exactly one deletion for
  every recorded resource and no other call: each in the namespace of the instance, or
  cluster-wide for the subnet, the peering and the VPC; the network attachment only if the
  instance owns its VPC.
\<close>

theorem teardown_exact:
  "let calls = snd (TeardownAll (traced E) ident ns refs (s, []))
   in distinct calls
      \<and> set calls = {CDelete g n k | g n k. k \<noteq> [] \<and> (g, n, k) \<in>
          {(smGVR, ns, res_ServiceMonitor refs), (vmGVR, ns, res_VMName refs),
           (dvGVR, ns, res_DataVolumeName refs), (secretGVR, ns, res_SecretName refs),
           (nadGVR, ns, if res_VPCName refs \<noteq> [] then res_NADName refs else []),
           (subnetGVR, [], res_SubnetName refs), (vpcPeeringGVR, [], res_VpcPeeringName refs),
           (vpcGVR, [], res_VPCName refs)}}"
proof -
  let ?calls = "snd (TeardownAll (traced E) ident ns refs (s, []))"
  have "set ?calls = {CDelete g n k | g n k. CDelete g n k \<in> set ?calls}"
    by (fastforce simp: teardown_mem delete_call_def)
  note this [unfolded teardown_delete_mem teardown_task_mem]
  with teardown_distinct show ?thesis unfolding Let_def by (intro conjI)
qed

text \<open>
  An instance on a network it was given (no VPC of its own) never has that network
  attachment, nor any VPC, deleted.
\<close>

theorem teardown_keeps_foreign_network:
  assumes "res_VPCName refs = []"
  shows "CDelete nadGVR n k \<notin> set (snd (TeardownAll (traced E) ident ns refs (s, [])))
     \<and> CDelete vpcGVR n k \<notin> set (snd (TeardownAll (traced E) ident ns refs (s, [])))"
  unfolding teardown_delete_mem teardown_task_mem using assms by (simp add: gvr_defs)

theorem teardown_keeps_foreign_network_witness:
  "CDelete nadGVR ''team-a'' ''shared'' \<notin>
     set (snd (TeardownAll (traced ref_env) ''db'' ''team-a''
       \<lparr>res_VPCName = [], res_SubnetName = [], res_NADName = ''shared'', res_DataVolumeName = ''d'',
        res_VMName = ''v'', res_SecretName = ''c'', res_ServiceMonitor = [], res_VpcPeeringName = []\<rparr>
       (empty_cluster, [])))"
  by (rule conjunct1 [OF teardown_keeps_foreign_network]) simp

text \<open>
  C39: the metrics Service is left behind: \<open>DeployMonitoring\<close> creates it, no reference to it is
  recorded, and no teardown deletes any Service.
\<close>

theorem metrics_service_leaks:
  "CCreate serviceGVR ns (metrics_service E ident ns)
     \<in> set (snd (snd (DeployMonitoring (traced E) ident ns addr port (s, []))))
   \<and> CDelete serviceGVR n k \<notin> set (snd (TeardownAll (traced E) ident ns refs (s', [])))"
proof -
  obtain r w where r: "DeployMonitoring (traced E) ident ns addr port (s, []) = (r, w)"
    by (metis surj_pair)
  show ?thesis
    unfolding teardown_delete_mem teardown_task_mem using tr.DeployMonitoring_log [OF r] by (simp add: r) (simp add: gvr_defs)
qed

section \<open>Reading secrets\<close>

lemma decode_encoded: "decode_entry (k, JStr (StdEncodeToString v)) = Some (k, v)"
  by (simp add: decode_entry_def StdDecodeString_def StdEncodeToString_def b64_roundtrip)

lemma map_filter_decode:
  "List.map_filter decode_entry (map (\<lambda>kv. (fst kv, JStr (StdEncodeToString (snd kv)))) kvs) = kvs"
  by (induction kvs) (simp_all add: List.map_filter_simps decode_encoded)

text \<open>
  Reading a Secret gives back exactly the keys and values that were stored in it, whose data the
  API server holds base64-encoded.
\<close>

theorem GetSecret_roundtrip:
  assumes "Dyn_Get E secretGVR ns name s = (Inr obj, s')"
    and "NestedField E obj [''data''] = Some (JMap (map (\<lambda>kv. (fst kv, JStr (StdEncodeToString (snd kv)))) kvs))"
  shows "GetSecret E ns name s = (Inr kvs, s')"
  using assms by (simp add: GetSecret_def NestedMap_def map_filter_decode)

definition sample_secret :: json where
  "sample_secret = JMap [(''metadata'', JMap [(''name'', JStr ''s3'')]),
     (''stringData'', JMap [(''accessKey'', JStr ''AK''), (''secretKey'', JStr ''SK'')])]"

theorem GetSecret_roundtrip_witness:
  "fst (GetSecret ref_env ''team-a'' ''s3''
          (snd (Dyn_Create ref_env secretGVR ''team-a'' sample_secret empty_cluster)))
   = Inr [(''accessKey'', ''AK''), (''secretKey'', ''SK'')]"
proof -
  let ?kvs = "[(''accessKey'', ''AK''), (''secretKey'', ''SK'')]"
  let ?s = "snd (Dyn_Create ref_env secretGVR ''team-a'' sample_secret empty_cluster)"
  let ?obj = "jset sample_secret
      (JMap (map (\<lambda>kv. (fst kv, JStr (StdEncodeToString (snd kv)))) ?kvs)) [''data'']"
  have g: "Dyn_Get ref_env secretGVR ''team-a'' ''s3'' ?s = (Inr ?obj, ?s)"
    by (simp add: ref_env_def ref_create_def ref_get_def empty_cluster_def jname_def sample_secret_def
        admit_def gvr_defs jset_def)
  have d: "NestedField ref_env ?obj [''data'']
      = Some (JMap (map (\<lambda>kv. (fst kv, JStr (StdEncodeToString (snd kv)))) ?kvs))"
    by (simp add: ref_env_def sample_secret_def jset_def)
  from GetSecret_roundtrip [OF g d] show ?thesis by simp
qed

section \<open>Choosing the image\<close>

lemma Index_char:
  "Index s [c] = (if c \<in> set s then int (length (takeWhile (\<lambda>x. x \<noteq> c) s)) else -1)"
  by (induction s) (auto simp: Let_def)

text \<open>
  An image reference \<open>namespace/name\<close> is split at its first slash; a reference without a slash,
  or with nothing in front of it, is looked up in the namespace \<open>default\<close>.
\<close>

theorem image_ref_spec:
  "image_ref ref =
     (if CHR ''/'' \<in> set ref \<and> hd ref \<noteq> CHR ''/''
      then (takeWhile (\<lambda>c. c \<noteq> CHR ''/'') ref, tl (dropWhile (\<lambda>c. c \<noteq> CHR ''/'') ref))
      else (''default'', ref))"
proof (cases "CHR ''/'' \<in> set ref \<and> hd ref \<noteq> CHR ''/''")
  case True
  then have "takeWhile (\<lambda>c. c \<noteq> CHR ''/'') ref \<noteq> []" by (cases ref) auto
  with True show ?thesis
    by (simp add: image_ref_def Index_char Let_def takeWhile_eq_take [symmetric] drop_Suc
        dropWhile_eq_drop tl_drop)
next
  case False
  then show ?thesis by (cases ref) (auto simp: image_ref_def Index_char Let_def)
qed

text \<open>
  An image is resolved only to one whose storage class is known: the image of that name, or,
  when there is none, the first one listed whose display name matches.
\<close>

theorem resolveVMImage_sound:
  assumes "resolveVMImage E ref s = ((ns, name, sc, None), s')"
  shows "sc \<noteq> [] \<and> ns = fst (image_ref ref) \<and>
    (\<exists>img s1. (Dyn_Get E vmImageGVR ns (snd (image_ref ref)) s = (Inr img, s1)
               \<and> name = snd (image_ref ref) \<and> s' = s1 \<and> sc = image_class E img)
      \<or> (\<exists>e items. Dyn_Get E vmImageGVR ns (snd (image_ref ref)) s = (Inl e, s1) \<and> IsNotFound e
           \<and> Dyn_List E vmImageGVR ns s1 = (Inr items, s')
           \<and> find (\<lambda>i. NestedString E i [''spec'', ''displayName''] = snd (image_ref ref)) items = Some img
           \<and> name = GetName E img \<and> sc = image_class E img))"
  using assms
  by (auto simp: resolveVMImage_def split: prod.splits sum.splits if_splits option.splits)

definition sample_image :: json where
  "sample_image = JMap [(''metadata'', JMap [(''name'', JStr ''image-1'')]),
     (''spec'', JMap [(''displayName'', JStr ''ubuntu-22-04'')]),
     (''status'', JMap [(''storageClassName'', JStr ''lh-image-1'')])]"

definition image_cluster :: cluster where
  "image_cluster = empty_cluster\<lparr>cl_objs := [((vmImageGVR, ''default'', ''image-1''), sample_image)]\<rparr>"

lemma resolve_sample:
  "resolveVMImage ref_env ''ubuntu-22-04'' image_cluster
   = ((''default'', ''image-1'', ''lh-image-1'', None), image_cluster)"
  by code_simp

theorem resolveVMImage_sound_witness:
  "''lh-image-1'' \<noteq> [] \<and> ''default'' = fst (image_ref ''ubuntu-22-04'')"
  using resolveVMImage_sound [OF resolve_sample] by blast

text \<open>A creation in the cluster in memory.\<close>

lemma ref_tolerant: "fst (create_tolerant (answered ref_env) g ns obj w) = None"
  by (simp add: create_tolerant_def answered_dyn note_call_def ref_env_def ref_create_def
      ignoreAlreadyExists_def already_exists_def IsAlreadyExists_def split: option.splits)

lemma ref_keygen_answered:
  "\<exists>a. randomString (answered ref_env) n w = (a, w)"
  "\<exists>tls s'. generateTLS (answered ref_env) cn w = (Inr tls, (s', snd w)) \<and> cl_objs s' = cl_objs (fst w)"
  "\<exists>key. generateSSHKeyPair (answered ref_env) w = (Inr key, w)"
  by (auto simp: randomString_def generateTLS_def issueServerCert_def generateSSHKeyPair_def Let_def
     ref_env_def answered_def carry_call_def)

lemma ref_resolves:
  assumes "map_of (cl_objs (fst w)) (vmImageGVR, ''default'', ''ubuntu-22-04'') = Some sample_image"
  shows "\<exists>L. resolveVMImage (answered ref_env) ''ubuntu-22-04'' w
    = ((''default'', ''ubuntu-22-04'', ''lh-image-1'', None), (fst w, L))"
proof -
  have "NestedString ref_env sample_image [''status'', ''storageClassName''] = ''lh-image-1''"
    by (simp add: NestedString_def ref_env_def sample_image_def)
  with assms show ?thesis
    by (cases w) (simp add: resolveVMImage_def image_ref_def image_class_def answered_dyn note_call_def ref_env_def ref_get_def)
qed

lemma ref_secret_and_vm:
  assumes "map_of (cl_objs (fst w)) (vmImageGVR, ''default'', ''ubuntu-22-04'') = Some sample_image"
    and "p_OSImage p = ''ubuntu-22-04''"
  shows "\<exists>v n w'. create_secret_and_vm (answered ref_env) p secret ca w = ((v, n, ca, None), w')"
proof -
  obtain w1 where c: "create_tolerant (answered ref_env) secretGVR (p_Namespace p) secret w = (None, w1)"
    using ref_tolerant by (metis prod.collapse)
  have "map_of (cl_objs (fst w1)) (vmImageGVR, ''default'', ''ubuntu-22-04'') = Some sample_image"
    using assms(1) conjunct1 [OF create_tolerant_run [OF c]]
    by (auto simp: create_tolerant_def ref_env_def ref_create_def gvr_defs split: option.splits dest!: sym [of _ "fst w1"])
  from ref_resolves [OF this] obtain w2 where
    i: "resolveVMImage (answered ref_env) ''ubuntu-22-04'' w1 = ((''default'', ''ubuntu-22-04'', ''lh-image-1'', None), w2)"
    by blast
  obtain w3 where "create_tolerant (answered ref_env) vmGVR (p_Namespace p)
      (vm_object ref_env p ''default'' ''ubuntu-22-04'' ''lh-image-1'') w2 = (None, w3)"
    using ref_tolerant by (metis prod.collapse)
  with c i assms(2) show ?thesis by (simp add: create_secret_and_vm_def Let_def)
qed

lemma ref_vm_run:
  assumes "map_of (cl_objs s) (vmImageGVR, ''default'', ''ubuntu-22-04'') = Some sample_image"
    and "p_OSImage p = ''ubuntu-22-04''" and "p_S3Config p = None"
  shows "\<exists>a r x l tls key v n s1 w'. cl_objs s1 = cl_objs s
    \<and> create_secret_and_vm (answered ref_env) p (secret_object ref_env p a r x l tls key None) (tls_CACertPEM tls) (s1, [])
        = ((v, n, tls_CACertPEM tls, None), w')
    \<and> CreatePostgresVM (answered ref_env) p (s, []) = ((v, n, tls_CACertPEM tls, None), w')"
proof -
  let ?w = "(s, [] :: (call \<times> answer) list)"
  obtain a where a: "randomString (answered ref_env) 32 ?w = (a, ?w)" using ref_keygen_answered(1) by blast
  obtain x where x: "randomString (answered ref_env) 24 ?w = (x, ?w)" using ref_keygen_answered(1) by blast
  obtain l where l: "randomString (answered ref_env) 64 ?w = (l, ?w)" using ref_keygen_answered(1) by blast
  obtain tls s1 where t: "generateTLS (answered ref_env) (vm_name (p_ID p)) ?w = (Inr tls, (s1, []))" "cl_objs s1 = cl_objs s"
    using ref_keygen_answered(2) [of "vm_name (p_ID p)" ?w] by auto
  obtain key where k: "generateSSHKeyPair (answered ref_env) (s1, []) = (Inr key, (s1, []))"
    using ref_keygen_answered(3) [of "(s1, [])"] by auto
  obtain v n w' where c: "create_secret_and_vm (answered ref_env) p (secret_object ref_env p a a x l tls key None)
      (tls_CACertPEM tls) (s1, []) = ((v, n, tls_CACertPEM tls, None), w')"
    using ref_secret_and_vm [of "(s1, [])" p] assms(1,2) t(2) by fastforce
  then have "CreatePostgresVM (answered ref_env) p (s, []) = ((v, n, tls_CACertPEM tls, None), w')"
    by (simp add: CreatePostgresVM_def a x l t k resolve_s3_def assms(3))
  with c t(2) show ?thesis by blast
qed

definition sample_params :: VMCreateParams where
  "sample_params = \<lparr>p_ID = ''db'', p_Namespace = ''team-a'', p_CPUCores = 1, p_MemoryMB = 1024,
     p_OSImage = ''ubuntu-22-04'', p_DataVolumeRef = ''pg-db-data'', p_SubnetName = ''subnet-db'',
     p_NADName = ''nad-db'', p_MasterUser = ''postgres'', p_DBName = ''postgres'', p_Port = 5432,
     p_MaxConnections = 100, p_BackupEnabled = False, p_BackupWindow = [], p_S3Config = None,
     p_VMPassword = [], p_ConsumerNetwork = []\<rparr>"

definition secret_cluster :: "((gvr \<times> string \<times> string) \<times> json) list \<Rightarrow> cluster" where
  "secret_cluster objs = empty_cluster\<lparr>cl_objs := ((vmImageGVR, ''default'', ''ubuntu-22-04''), sample_image) # objs\<rparr>"

lemma secret_cluster_image:
  "map_of (cl_objs (secret_cluster objs)) (vmImageGVR, ''default'', ''ubuntu-22-04'') = Some sample_image"
  by (simp add: secret_cluster_def)

lemma sample_params_fields:
  "p_ID sample_params = ''db''" "p_Namespace sample_params = ''team-a''" "p_OSImage sample_params = ''ubuntu-22-04''"
  "p_S3Config sample_params = None"
  by (simp_all add: sample_params_def)

lemmas sample_vm_run = ref_vm_run [OF secret_cluster_image sample_params_fields(3,4)]


section \<open>Readiness\<close>

text \<open>
  What the loop over the interfaces computes, stated without the loop: the addresses reported, by
  the name of the interface they are on.
\<close>

definition iface_addr :: "json \<Rightarrow> (string \<times> string) option" where
  "iface_addr j = (case j of
       JMap m \<Rightarrow> if iface_str m ''ipAddress'' = [] then None
                 else Some (iface_str m ''name'', iface_str m ''ipAddress'')
     | _ \<Rightarrow> None)"

definition addrs_of :: "json list \<Rightarrow> (string \<times> string) list" where
  "addrs_of l = List.map_filter iface_addr l"

definition last_on :: "string \<Rightarrow> (string \<times> string) list \<Rightarrow> string \<Rightarrow> string" where
  "last_on name as d =
     (case rev (filter (\<lambda>a. fst a = name) as) of [] \<Rightarrow> d | a # _ \<Rightarrow> snd a)"

definition first_addr :: "(string \<times> string) list \<Rightarrow> string \<Rightarrow> string" where
  "first_addr as d = (case as of [] \<Rightarrow> d | a # _ \<Rightarrow> snd a)"

lemma addrs_of_simps [simp]:
  "addrs_of [] = []"
  "addrs_of (JMap m # l) =
     (if iface_str m ''ipAddress'' = [] then addrs_of l
      else (iface_str m ''name'', iface_str m ''ipAddress'') # addrs_of l)"
  "\<not> is_map j \<Longrightarrow> addrs_of (j # l) = addrs_of l"
  by (auto simp: addrs_of_def List.map_filter_simps iface_addr_def is_map_def split: json.splits)

lemma last_on_Cons:
  "last_on name (a # as) d = last_on name as (if fst a = name then snd a else d)"
proof -
  have "last_on name as d' = (if filter (\<lambda>a. fst a = name) as = [] then d' else last_on name as [])" for d'
    by (auto simp: last_on_def split: list.splits)
  then show ?thesis
    by (cases "rev (filter (\<lambda>a. fst a = name) as)") (simp_all add: last_on_def)
qed

lemma last_on_default:
  assumes "\<forall>a \<in> set as. snd a \<noteq> []"
  shows "last_on n as d = (if last_on n as [] = [] then d else last_on n as [])"
proof (cases "rev (filter (\<lambda>a. fst a = n) as)")
  case (Cons a r)
  then have "a \<in> set (rev (filter (\<lambda>a. fst a = n) as))" by simp
  with assms have "snd a \<noteq> []" by simp
  with Cons show ?thesis by (simp add: last_on_def)
qed (simp add: last_on_def)

lemma addrs_nonempty: "\<forall>a \<in> set (addrs_of l). snd a \<noteq> []"
  by (induction l) (auto simp: addrs_of_def List.map_filter_simps iface_addr_def
      split: option.splits json.splits if_splits)

lemma scan_interfaces_spec:
  "scan_interfaces l (ip, mgmt, fb) =
     (last_on ''vpc-net'' (addrs_of l) ip, last_on ''mgmt-net'' (addrs_of l) mgmt,
      if fb = [] then first_addr (addrs_of l) [] else fb)"
proof (induction l arbitrary: ip mgmt fb)
  case Nil
  then show ?case by (simp add: last_on_def first_addr_def)
next
  case (Cons j l)
  then show ?case
    by (cases j) (simp_all add: Let_def last_on_Cons first_addr_def is_map_def)
qed

text \<open>
  C32: the address reported for a VM is the last one on the interface \<open>vpc-net\<close>, or, when that has
  none, the first address of any interface; the management address is the last one on \<open>mgmt-net\<close>.
  The VM counts as ready exactly when it runs and was created more than three minutes ago: the
  database itself is not asked.
\<close>

theorem readiness_spec:
  assumes "Dyn_Get E vmiGVR ns vm s = (Inr vmi, s1)"
    and "Time_Now E s1 = (now, s2)"
  shows "let as = addrs_of (NestedSlice E vmi [''status'', ''interfaces'']);
             rd = fst (fst (GetVMIReadiness E ns vm s))
         in rd_IP rd = last_on ''vpc-net'' as (first_addr as [])
            \<and> rd_MgmtIP rd = last_on ''mgmt-net'' as []
            \<and> (rd_Running rd \<longleftrightarrow> NestedString E vmi [''status'', ''phase''] = ''Running'')
            \<and> (rd_Ready rd \<longleftrightarrow> rd_Running rd \<and> now - GetCreationTimestamp E vmi > 180000000000)
            \<and> snd (fst (GetVMIReadiness E ns vm s)) = None"
proof -
  let ?as = "addrs_of (NestedSlice E vmi [''status'', ''interfaces''])"
  show ?thesis
    using last_on_default [OF addrs_nonempty, of "''vpc-net''" "NestedSlice E vmi [''status'', ''interfaces'']" "first_addr ?as []"]
    by (simp add: GetVMIReadiness_def assms Let_def scan_interfaces_spec vmiPhaseRunning_def)
qed

definition sample_vmi :: json where
  "sample_vmi = JMap [(''status'', JMap [(''phase'', JStr ''Running''),
     (''interfaces'', JList [JMap [(''name'', JStr ''mgmt-net''), (''ipAddress'', JStr ''10.52.0.7'')],
        JMap [(''name'', JStr ''vpc-net''), (''ipAddress'', JStr ''10.101.3.4'')]])])]"

definition vmi_cluster :: cluster where
  "vmi_cluster = empty_cluster\<lparr>cl_objs := [((vmiGVR, ''team-a'', ''pg-db''), sample_vmi)],
     cl_now := 200000000000\<rparr>"

theorem readiness_spec_witness:
  "rd_IP (fst (fst (GetVMIReadiness ref_env ''team-a'' ''pg-db'' vmi_cluster))) = ''10.101.3.4''
   \<and> rd_Ready (fst (fst (GetVMIReadiness ref_env ''team-a'' ''pg-db'' vmi_cluster)))"
proof -
  have g: "Dyn_Get ref_env vmiGVR ''team-a'' ''pg-db'' vmi_cluster = (Inr sample_vmi, vmi_cluster)"
    by (simp add: ref_env_def ref_get_def vmi_cluster_def)
  have t: "Time_Now ref_env vmi_cluster = (200000000000, vmi_cluster\<lparr>cl_now := 200000000001\<rparr>)"
    by (simp add: ref_env_def vmi_cluster_def)
  show ?thesis
    using readiness_spec [OF g t]
    by (simp add: Let_def ref_env_def sample_vmi_def NestedSlice_def NestedString_def last_on_def
        iface_str_def)
qed

section \<open>Power state and size\<close>

text \<open>
  Resizing a VM sets its cores and its memory, and leaves every field that is neither of the
  two, nor above or below them, as it was read.
\<close>

theorem resize_vm_frame:
  assumes "unstructured_api (NestedField E) (SetNestedField E)"
    and "settable (NestedField E) vm cores_path" and "settable (NestedField E) vm guest_path"
  shows "NestedField E (resize_vm_edit E cpu mem vm) cores_path = Some (JInt cpu)
     \<and> NestedField E (resize_vm_edit E cpu mem vm) guest_path = Some (JStr (itoa mem @ ''Mi''))
     \<and> (apart cores_path q \<and> apart guest_path q
        \<longrightarrow> NestedField E (resize_vm_edit E cpu mem vm) q = NestedField E vm q)"
proof -
  have "apart cores_path guest_path" by (simp add: apart_def)
  with unstructured_api.put_twice [OF assms] unstructured_api.get_put_apart [OF assms(1)]
  show ?thesis by (simp add: resize_vm_edit_def)
qed

definition sample_vm :: json where
  "sample_vm = JMap [(''metadata'', JMap [(''name'', JStr ''pg-db'')]),
     (''spec'', JMap [(''running'', JBool True), (''template'', JMap [(''spec'', JMap [(''domain'',
        JMap [(''cpu'', JMap [(''cores'', JInt 1)]), (''memory'', JMap [(''guest'', JStr ''1024Mi'')])])])])])]"

theorem resize_vm_frame_witness:
  "NestedField ref_env (resize_vm_edit ref_env 4 16384 sample_vm) cores_path = Some (JInt 4)
   \<and> NestedField ref_env (resize_vm_edit ref_env 4 16384 sample_vm) [''spec'', ''running'']
      = Some (JBool True)"
proof -
  have s: "settable (NestedField ref_env) sample_vm cores_path"
    "settable (NestedField ref_env) sample_vm guest_path"
    by (simp_all add: settable_def ref_env_def sample_vm_def is_map_def)
  have a: "apart cores_path [''spec'', ''running'']" "apart guest_path [''spec'', ''running'']"
    by (simp_all add: apart_def)
  show ?thesis
    using resize_vm_frame [OF ref_objects.unstructured_api_axioms s, of 4 16384 "[''spec'', ''running'']"] a
    by simp (simp add: ref_env_def sample_vm_def)
qed

text \<open>
  Stopping a VM that can be read and written writes it back once, with \<open>spec.running\<close> false
  and nothing else changed; starting it, with \<open>spec.running\<close> true.
\<close>

theorem setVMRunning_writes:
  assumes "unstructured_api (NestedField E) (SetNestedField E)"
    and "Dyn_Get E vmGVR ns vm s = (Inr obj, s1)" and "settable (NestedField E) obj [''spec'', ''running'']"
  shows "\<exists>obj' r s2. Dyn_Update E vmGVR ns obj' s1 = (r, s2)
     \<and> setVMRunning E ns vm b s = (case r of Inl e \<Rightarrow> Some e | Inr _ \<Rightarrow> None, s2)
     \<and> NestedField E obj' [''spec'', ''running''] = Some (JBool b)
     \<and> (apart [''spec'', ''running''] q \<longrightarrow> NestedField E obj' q = NestedField E obj q)"
proof -
  let ?obj' = "running_edit E b obj"
  obtain r s2 where u: "Dyn_Update E vmGVR ns ?obj' s1 = (r, s2)" by (metis surj_pair)
  have "setVMRunning E ns vm b s = (case r of Inl e \<Rightarrow> Some e | Inr _ \<Rightarrow> None, s2)"
    by (simp add: setVMRunning_def get_edit_update_def assms(2) u split: sum.splits)
  moreover have "NestedField E ?obj' [''spec'', ''running''] = Some (JBool b)"
    using unstructured_api.put_settable [OF assms(1,3)] by (simp add: running_edit_def)
  moreover have "NestedField E ?obj' q = NestedField E obj q" if "apart [''spec'', ''running''] q"
    using unstructured_api.get_put_apart [OF assms(1) that] by (simp add: running_edit_def)
  ultimately show ?thesis using u by blast
qed

text \<open>What starting or stopping a VM asks of the API server: to read it and, if that worked, to write it back.\<close>

lemma setVMRunning_answered:
  assumes "setVMRunning (answered E) ns vm b w = (err, w')"
  shows "\<exists>a M. snd w' = snd w @ (CGet vmGVR ns vm, Obj a) # M
    \<and> (case a of
         Inl e \<Rightarrow> M = [] \<and> err = Some e
       | Inr obj \<Rightarrow> \<exists>u. M = [(CUpdate vmGVR ns (SetNestedField E obj (JBool b) [''spec'', ''running'']), Obj u)]
                      \<and> err = (case u of Inl e \<Rightarrow> Some e | Inr _ \<Rightarrow> None))"
  using assms
  by (auto simp: setVMRunning_def get_edit_update_def running_edit_def answered_dyn note_call_iff
      split: prod.splits sum.splits)

definition vm_cluster :: cluster where
  "vm_cluster = empty_cluster\<lparr>cl_objs := [((vmGVR, ''team-a'', ''pg-db''), sample_vm)]\<rparr>"

theorem setVMRunning_writes_witness:
  "\<exists>obj' r s2. Dyn_Update ref_env vmGVR ''team-a'' obj' vm_cluster = (r, s2)
     \<and> setVMRunning ref_env ''team-a'' ''pg-db'' False vm_cluster
       = (case r of Inl e \<Rightarrow> Some e | Inr _ \<Rightarrow> None, s2)
     \<and> NestedField ref_env obj' [''spec'', ''running''] = Some (JBool False)"
proof -
  have g: "Dyn_Get ref_env vmGVR ''team-a'' ''pg-db'' vm_cluster = (Inr sample_vm, vm_cluster)"
    by (simp add: ref_env_def ref_get_def vm_cluster_def)
  have s: "settable (NestedField ref_env) sample_vm [''spec'', ''running'']"
    by (simp add: settable_def ref_env_def sample_vm_def is_map_def)
  show ?thesis
    using setVMRunning_writes [OF ref_objects.unstructured_api_axioms g s] by blast
qed

end
