(* ===== verification/InstanceCtl.thy ===== *)
theory InstanceCtl
  imports HvVM
begin

text \<open>
  \<open>internal/controller/dbinstance_reconciler.go\<close>: the reconciler of DBInstance objects. A handler
  receives the instance it was given by pointer and returns what it made of it beside its result,
  or panics on a nil dereference. The status strings and the order of the calls are those of the
  source; logging is left out.
\<close>

section \<open>Results\<close>

text \<open>\<open>ctrl.Result\<close>, with \<open>RequeueAfter\<close> in seconds.\<close>

record Result =
  Requeue :: bool
  RequeueAfter :: int

definition no_requeue :: Result where "no_requeue = \<lparr>Requeue = False, RequeueAfter = 0\<rparr>"

definition requeue_now :: Result where "requeue_now = \<lparr>Requeue = True, RequeueAfter = 0\<rparr>"

definition requeue_after :: "int \<Rightarrow> Result" where
  "requeue_after t = \<lparr>Requeue = False, RequeueAfter = t\<rparr>"

type_synonym handler_result = "(Result \<times> error option) outcome \<times> DBInstance"

section \<open>Access to the instance\<close>

abbreviation iname :: "DBInstance \<Rightarrow> string" where "iname i \<equiv> m_Name (inst_ObjectMeta i)"

abbreviation ins :: "DBInstance \<Rightarrow> string" where "ins i \<equiv> m_Namespace (inst_ObjectMeta i)"

abbreviation phase :: "DBInstance \<Rightarrow> string" where "phase i \<equiv> st_Phase (inst_Status i)"

abbreviation pphase :: "DBInstance \<Rightarrow> string" where
  "pphase i \<equiv> st_ProvisioningPhase (inst_Status i)"

abbreviation res :: "DBInstance \<Rightarrow> ResourceRefs" where "res i \<equiv> st_Resources (inst_Status i)"

definition set_status :: "(DBInstanceStatus \<Rightarrow> DBInstanceStatus) \<Rightarrow> DBInstance \<Rightarrow> DBInstance" where
  "set_status f i = i\<lparr>inst_Status := f (inst_Status i)\<rparr>"

definition set_phase :: "string \<Rightarrow> DBInstance \<Rightarrow> DBInstance" where
  "set_phase ph = set_status (\<lambda>st. st\<lparr>st_Phase := ph\<rparr>)"

definition set_pphase :: "string \<Rightarrow> DBInstance \<Rightarrow> DBInstance" where
  "set_pphase ph = set_status (\<lambda>st. st\<lparr>st_ProvisioningPhase := ph\<rparr>)"

definition set_message :: "string \<Rightarrow> DBInstance \<Rightarrow> DBInstance" where
  "set_message msg = set_status (\<lambda>st. st\<lparr>st_Message := msg\<rparr>)"

definition set_res :: "(ResourceRefs \<Rightarrow> ResourceRefs) \<Rightarrow> DBInstance \<Rightarrow> DBInstance" where
  "set_res f = set_status (\<lambda>st. st\<lparr>st_Resources := f (st_Resources st)\<rparr>)"

definition observe_generation :: "DBInstance \<Rightarrow> DBInstance" where
  "observe_generation i =
     set_status (\<lambda>st. st\<lparr>st_ObservedGeneration := m_Generation (inst_ObjectMeta i)\<rparr>) i"

section \<open>Helpers\<close>

definition statusUpdate :: "'s env \<Rightarrow> DBInstance \<Rightarrow> 's \<Rightarrow> (error option \<times> DBInstance) \<times> 's" where
  "statusUpdate E i s = StatusUpdate_DBInstance E i s"

text \<open>\<open>return ctrl.Result{...}, r.statusUpdate(ctx, inst)\<close>\<close>

definition finish :: "'s env \<Rightarrow> Result \<Rightarrow> DBInstance \<Rightarrow> 's \<Rightarrow> handler_result \<times> 's" where
  "finish E r i s = (case statusUpdate E i s of ((err, i'), s') \<Rightarrow> ((Return (r, err), i'), s'))"

definition advance :: "'s env \<Rightarrow> DBInstance \<Rightarrow> 's \<Rightarrow> handler_result \<times> 's" where
  "advance E i s = finish E requeue_now i s"

definition fail :: "'s env \<Rightarrow> DBInstance \<Rightarrow> string \<Rightarrow> error \<Rightarrow> 's \<Rightarrow> handler_result \<times> 's" where
  "fail E i reason err s =
     (case statusUpdate E
        (set_message (reason @ '': '' @ err_text err) (set_pphase PhaseFailed (set_phase StatusFailed i))) s of
        ((_, i'), s') \<Rightarrow> ((Return (requeue_after 30, Some err), i'), s'))"

definition specPort :: "int \<Rightarrow> int" where
  "specPort port = (if port = 0 then 5432 else port)"

definition orDefault :: "string \<Rightarrow> string \<Rightarrow> string" where
  "orDefault s d = (if s = [] then d else s)"

definition jdbc_endpoint :: "DBInstance \<Rightarrow> string \<Rightarrow> Endpoint" where
  "jdbc_endpoint i ip =
     (let port = specPort (spec_Port (inst_Spec i));
          dbName = orDefault (spec_DBName (inst_Spec i)) (iname i)
      in \<lparr>ep_Address = ip, ep_Port = port,
          ep_JDBCURL = ''jdbc:postgresql://'' @ ip @ '':'' @ itoa port @ ''/'' @ dbName
            @ ''?ssl=true&sslmode=verify-ca''\<rparr>)"

section \<open>Provisioning phases\<close>

definition phaseNetwork :: "'s env \<Rightarrow> DBInstance \<Rightarrow> 's \<Rightarrow> handler_result \<times> 's" where
  "phaseNetwork E i0 s =
     (let i = (if phase i0 = [] then set_phase StatusCreating i0 else i0) in
      if res_VPCName (res i) \<noteq> [] \<or> res_NADName (res i) \<noteq> []
        then advance E (set_pphase PhaseNetworkProvisioned i) s
      else if spec_NetworkRef (inst_Spec i) \<noteq> []
        then advance E
          (set_message (''Using existing network '' @ spec_NetworkRef (inst_Spec i))
            (set_pphase PhaseNetworkProvisioned
              (set_res (\<lambda>r. r\<lparr>res_NADName := spec_NetworkRef (inst_Spec i)\<rparr>) i))) s
      else (case CreateVPCNetwork E (iname i) (ins i)
                   (orDefault (spec_DBSubnetGroupName (inst_Spec i)) ''10.50.0.0/24'') s of
          ((vpcName, subnetName, nadName, Some e), s1) \<Rightarrow> fail E i ''NetworkFailed'' e s1
        | ((vpcName, subnetName, nadName, None), s1) \<Rightarrow>
            advance E
              (set_message ''VPC network provisioned''
                (set_pphase PhaseNetworkProvisioned
                  (set_res (\<lambda>r. r\<lparr>res_VPCName := vpcName, res_SubnetName := subnetName,
                                   res_NADName := nadName\<rparr>) i))) s1))"

definition phaseStorage :: "'s env \<Rightarrow> DBInstance \<Rightarrow> 's \<Rightarrow> handler_result \<times> 's" where
  "phaseStorage E i s =
     (if res_DataVolumeName (res i) \<noteq> []
        then advance E (set_pphase PhaseStorageProvisioned i) s
      else (case CreateDataVolume E (iname i) (ins i) (spec_AllocatedStorage (inst_Spec i))
                   (orDefault (spec_StorageType (inst_Spec i)) ''longhorn'') s of
          ((dvName, Some e), s1) \<Rightarrow> fail E i ''StorageFailed'' e s1
        | ((dvName, None), s1) \<Rightarrow>
            advance E
              (set_message ''Encrypted storage provisioned''
                (set_pphase PhaseStorageProvisioned
                  (set_res (\<lambda>r. r\<lparr>res_DataVolumeName := dvName\<rparr>) i))) s1))"

definition vm_params :: "DBInstance \<Rightarrow> InstanceClassSpec \<Rightarrow> VMCreateParams" where
  "vm_params i cls = (let sp = inst_Spec i in \<lparr>
     p_ID = iname i,
     p_Namespace = ins i,
     p_CPUCores = ics_CPUCores cls,
     p_MemoryMB = ics_MemoryMB cls,
     p_OSImage = orDefault (spec_OSImage sp) ''ubuntu-22-04'',
     p_DataVolumeRef = res_DataVolumeName (res i),
     p_SubnetName = res_SubnetName (res i),
     p_NADName = res_NADName (res i),
     p_MasterUser = orDefault (spec_MasterUsername sp) ''dbadmin'',
     p_DBName = orDefault (spec_DBName sp) (iname i),
     p_Port = specPort (spec_Port sp),
     p_MaxConnections = ics_MaxConnections cls,
     p_BackupEnabled = (spec_BackupRetentionPeriod sp > 0),
     p_BackupWindow = spec_PreferredBackupWindow sp,
     p_S3Config = spec_S3BackupConfig sp,
     p_VMPassword = spec_VMPassword sp,
     p_ConsumerNetwork = spec_ConsumerNetwork sp\<rparr>)"

definition unknown_class :: "DBInstance \<Rightarrow> error" where
  "unknown_class i = Errorf (''unknown class: '' @ spec_DBInstanceClass (inst_Spec i))"

definition phaseVM :: "'s env \<Rightarrow> DBInstance \<Rightarrow> 's \<Rightarrow> handler_result \<times> 's" where
  "phaseVM E i s =
     (if res_VMName (res i) \<noteq> []
        then finish E (requeue_after 10) (set_pphase PhaseVMCreated i) s
      else (case map_of InstanceClasses (spec_DBInstanceClass (inst_Spec i)) of
          None \<Rightarrow> fail E i ''InvalidClass'' (unknown_class i) s
        | Some cls \<Rightarrow>
            (case CreatePostgresVM E (vm_params i cls) s of
               ((vmName, secretName, caCertPEM, Some e), s1) \<Rightarrow> fail E i ''VMCreateFailed'' e s1
             | ((vmName, secretName, caCertPEM, None), s1) \<Rightarrow>
                 finish E (requeue_after 10)
                   (set_message ''VM created, waiting for PostgreSQL to initialize''
                     (set_pphase PhaseVMCreated
                       (set_status (\<lambda>st. st\<lparr>st_CACertPEM := caCertPEM,
                            st_MasterUserSecret := Some \<lparr>mus_Name = secretName, mus_Status = SecretStatusActive\<rparr>\<rparr>)
                         (set_res (\<lambda>r. r\<lparr>res_VMName := vmName, res_SecretName := secretName\<rparr>) i)))) s1)))"

definition phaseWaitReady :: "'s env \<Rightarrow> DBInstance \<Rightarrow> 's \<Rightarrow> handler_result \<times> 's" where
  "phaseWaitReady E i s =
     (case GetVMIReadiness E (ins i) (res_VMName (res i)) s of ((rd, err), s1) \<Rightarrow>
      if err \<noteq> None \<or> \<not> rd_Running rd \<or> rd_IP rd = []
        then (case statusUpdate E
                (set_pphase PhaseWaitingForCloudInit (set_message ''Waiting for VM to become ready'' i)) s1 of
                ((_, i'), s2) \<Rightarrow> ((Return (requeue_after 10, None), i'), s2))
      else if \<not> rd_Ready rd
        then (case statusUpdate E
                (set_message (''VM running at '' @ rd_IP rd
                   @ '', waiting for PostgreSQL to finish initializing'') i) s1 of
                ((_, i'), s2) \<Rightarrow> ((Return (requeue_after 15, None), i'), s2))
      else advance E
        (set_message ''PostgreSQL is ready''
          (set_pphase PhaseDatabaseReady
            (set_status (\<lambda>st. st\<lparr>st_Endpoint := Some (jdbc_endpoint i (rd_IP rd)),
                                 st_ManagementAddress := rd_MgmtIP rd\<rparr>) i))) s1)"

text \<open>The endpoint is dereferenced without a check: nil panics.\<close>

definition phaseMonitoring :: "'s env \<Rightarrow> DBInstance \<Rightarrow> 's \<Rightarrow> handler_result \<times> 's" where
  "phaseMonitoring E i s =
     (if res_ServiceMonitor (res i) \<noteq> []
        then advance E (set_pphase PhaseMonitoringDeployed i) s
      else (case st_Endpoint (inst_Status i) of
          None \<Rightarrow> ((Panic, i), s)
        | Some ep \<Rightarrow>
            (case DeployMonitoring E (iname i) (ins i) (ep_Address ep) (ep_Port ep) s of
               ((smName, grafanaURL, promTarget, Some e), s1) \<Rightarrow>
                 advance E
                   (set_pphase PhaseMonitoringDeployed
                     (set_message ''Available (monitoring setup failed, will retry)'' i)) s1
             | ((smName, grafanaURL, promTarget, None), s1) \<Rightarrow>
                 advance E
                   (set_pphase PhaseMonitoringDeployed
                     (set_status (\<lambda>st. st\<lparr>st_GrafanaURL := grafanaURL, st_PrometheusTarget := promTarget\<rparr>)
                       (set_res (\<lambda>r. r\<lparr>res_ServiceMonitor := smName\<rparr>) i))) s1)))"

definition refresh_endpoint :: "VMIReadiness \<Rightarrow> DBInstance \<Rightarrow> DBInstance" where
  "refresh_endpoint rd i =
     (if rd_IP rd \<noteq> []
         \<and> (case st_Endpoint (inst_Status i) of None \<Rightarrow> True | Some ep \<Rightarrow> ep_Address ep \<noteq> rd_IP rd)
      then set_status (\<lambda>st. st\<lparr>st_Endpoint := Some (jdbc_endpoint i (rd_IP rd))\<rparr>) i
      else i)"

definition refresh_mgmt :: "VMIReadiness \<Rightarrow> DBInstance \<Rightarrow> DBInstance" where
  "refresh_mgmt rd i =
     (if rd_MgmtIP rd \<noteq> [] \<and> st_ManagementAddress (inst_Status i) \<noteq> rd_MgmtIP rd
      then set_status (\<lambda>st. st\<lparr>st_ManagementAddress := rd_MgmtIP rd\<rparr>) i
      else i)"

definition phaseAvailable :: "'s env \<Rightarrow> DBInstance \<Rightarrow> 's \<Rightarrow> handler_result \<times> 's" where
  "phaseAvailable E i0 s =
     (let i = set_message ''Database instance is available''
            (observe_generation (set_pphase PhaseAvailable (set_phase StatusAvailable i0)))
      in case GetVMIReadiness E (ins i) (res_VMName (res i)) s of ((rd, _), s1) \<Rightarrow>
         finish E (requeue_after 60) (refresh_mgmt rd (refresh_endpoint rd i)) s1)"

definition phaseVpcPeering :: "'s env \<Rightarrow> DBInstance \<Rightarrow> 's \<Rightarrow> handler_result \<times> 's" where
  "phaseVpcPeering E i s =
     (case spec_VpcPeering (inst_Spec i) of
        None \<Rightarrow> advance E (set_pphase PhaseVpcPeeringCreated i) s
      | Some vp \<Rightarrow>
          if res_VpcPeeringName (res i) \<noteq> []
            then advance E (set_pphase PhaseVpcPeeringCreated i) s
          else (case CreateVpcPeering E (iname i) (res_VPCName (res i)) (res_SubnetName (res i))
                       (vp_RemoteVpc vp) (vp_RemoteSubnet vp) s of
              ((peeringName, Some e), s1) \<Rightarrow>
                advance E
                  (set_pphase PhaseVpcPeeringCreated
                    (set_message (''Available (VPC peering skipped: '' @ err_text e @ '')'') i)) s1
            | ((peeringName, None), s1) \<Rightarrow>
                advance E
                  (set_pphase PhaseVpcPeeringCreated
                    (set_message ''VPC peering established''
                      (set_res (\<lambda>r. r\<lparr>res_VpcPeeringName := peeringName\<rparr>) i))) s1))"

section \<open>Stop, start, modify, delete\<close>

definition reconcileStop :: "'s env \<Rightarrow> DBInstance \<Rightarrow> 's \<Rightarrow> handler_result \<times> 's" where
  "reconcileStop E i0 s =
     (case statusUpdate E (set_message ''Stopping VM'' (set_phase StatusStopping i0)) s of ((_, i), s1) \<Rightarrow>
      (case StopVM E (ins i0) (res_VMName (res i)) s1 of
        (Some e, s2) \<Rightarrow> fail E i ''StopFailed'' e s2
      | (None, s2) \<Rightarrow>
          finish E no_requeue
            (observe_generation (set_message ''Stopped. Storage preserved.'' (set_phase StatusStopped i))) s2))"

definition reconcileStart :: "'s env \<Rightarrow> DBInstance \<Rightarrow> 's \<Rightarrow> handler_result \<times> 's" where
  "reconcileStart E i0 s =
     (case statusUpdate E (set_phase StatusStarting i0) s of ((_, i), s1) \<Rightarrow>
      (case StartVM E (ins i0) (res_VMName (res i)) s1 of
        (Some e, s2) \<Rightarrow> fail E i ''StartFailed'' e s2
      | (None, s2) \<Rightarrow>
          finish E no_requeue
            (observe_generation (set_message ''Started'' (set_phase StatusAvailable i))) s2))"

text \<open>
  The two resize goroutines of \<open>reconcileModify\<close>: each reads its object and writes it back, and the
  scheduler interleaves the four API calls.
\<close>

datatype thread = TGet | TUpdate json | TDone "error option"

record job =
  job_gvr :: gvr
  job_ns :: string
  job_name :: string
  job_edit :: "json \<Rightarrow> json"

fun thread_step :: "'s env \<Rightarrow> job \<Rightarrow> thread \<Rightarrow> 's \<Rightarrow> thread \<times> 's" where
  "thread_step E j TGet s =
     (case Dyn_Get E (job_gvr j) (job_ns j) (job_name j) s of
        (Inl e, s1) \<Rightarrow> (TDone (Some e), s1)
      | (Inr obj, s1) \<Rightarrow> (TUpdate (job_edit j obj), s1))"
| "thread_step E j (TUpdate obj) s =
     (case Dyn_Update E (job_gvr j) (job_ns j) obj s of
        (Inl e, s1) \<Rightarrow> (TDone (Some e), s1)
      | (Inr _, s1) \<Rightarrow> (TDone None, s1))"
| "thread_step E j (TDone err) s = (TDone err, s)"

fun steps_left :: "thread \<Rightarrow> nat" where
  "steps_left TGet = 2"
| "steps_left (TUpdate _) = 1"
| "steps_left (TDone _) = 0"

lemma thread_step_left:
  "thread_step E j t s = (t', s') \<Longrightarrow> steps_left t \<noteq> 0 \<Longrightarrow> steps_left t' < steps_left t"
  by (cases t) (auto split: prod.splits sum.splits)

text \<open>
  Both threads run to the end: an even choice moves the first one, an odd choice the second one,
  and a thread that is done leaves its turn to the other.
\<close>

function run_threads ::
  "'s env \<Rightarrow> job \<Rightarrow> job \<Rightarrow> nat list \<Rightarrow> thread \<Rightarrow> thread \<Rightarrow> 's \<Rightarrow> (thread \<times> thread) \<times> 's" where
  "run_threads E j k cs t u s =
     (if steps_left t = 0 \<and> steps_left u = 0 then ((t, u), s)
      else if steps_left t \<noteq> 0 \<and> (steps_left u = 0 \<or> cs = [] \<or> even (hd cs))
      then (case thread_step E j t s of (t', s') \<Rightarrow> run_threads E j k (tl cs) t' u s')
      else (case thread_step E k u s of (u', s') \<Rightarrow> run_threads E j k (tl cs) t u' s'))"
  by pat_completeness auto
termination
proof (relation "measure (\<lambda>(E, j, k, cs, t, u, s). steps_left t + steps_left u)", goal_cases)
  case 1
  show ?case by simp
next
  case (2 E j k cs t u s t' s')
  with thread_step_left [of E j t s t' s'] show ?case by (auto split: prod.splits)
next
  case (3 E j k cs t u s u' s')
  with thread_step_left [of E k u s u' s'] show ?case by (auto split: prod.splits)
qed

declare run_threads.simps [simp del]

fun thread_err :: "thread \<Rightarrow> error option" where
  "thread_err (TDone err) = err"
| "thread_err _ = None"

definition vm_job :: "'s env \<Rightarrow> string \<Rightarrow> string \<Rightarrow> int \<Rightarrow> int \<Rightarrow> job" where
  "vm_job E ns vmName cpuCores memoryMB =
     \<lparr>job_gvr = vmGVR, job_ns = ns, job_name = vmName, job_edit = resize_vm_edit E cpuCores memoryMB\<rparr>"

definition dv_job :: "'s env \<Rightarrow> string \<Rightarrow> string \<Rightarrow> int \<Rightarrow> job" where
  "dv_job E ns dvName sizeGB =
     \<lparr>job_gvr = dvGVR, job_ns = ns, job_name = dvName, job_edit = resize_dv_edit E sizeGB\<rparr>"

definition resize_both ::
  "'s env \<Rightarrow> string \<Rightarrow> string \<Rightarrow> int \<Rightarrow> int \<Rightarrow> string \<Rightarrow> int \<Rightarrow> 's \<Rightarrow> (error option \<times> error option) \<times> 's" where
  "resize_both E ns vmName cpuCores memoryMB dvName sizeGB s =
     (case Go_Sched E s of (cs, s1) \<Rightarrow>
       (case run_threads E (vm_job E ns vmName cpuCores memoryMB) (dv_job E ns dvName sizeGB)
               cs TGet TGet s1 of
          ((t, u), s2) \<Rightarrow> ((thread_err t, thread_err u), s2)))"

definition reconcileModify :: "'s env \<Rightarrow> DBInstance \<Rightarrow> 's \<Rightarrow> handler_result \<times> 's" where
  "reconcileModify E i0 s =
     (case statusUpdate E (set_phase StatusModifying i0) s of ((_, i), s1) \<Rightarrow>
       (case map_of InstanceClasses (spec_DBInstanceClass (inst_Spec i)) of
          None \<Rightarrow> fail E i ''InvalidClass'' (unknown_class i) s1
        | Some cls \<Rightarrow>
            (case resize_both E (ins i0) (res_VMName (res i)) (ics_CPUCores cls) (ics_MemoryMB cls)
                    (res_DataVolumeName (res i)) (spec_AllocatedStorage (inst_Spec i)) s1 of
               ((Some e, _), s2) \<Rightarrow> fail E i ''ResizeVMFailed'' e s2
             | ((None, Some e), s2) \<Rightarrow> fail E i ''ResizeStorageFailed'' e s2
             | ((None, None), s2) \<Rightarrow>
                 finish E no_requeue
                   (observe_generation (set_message ''Modifications applied'' (set_phase StatusAvailable i))) s2)))"

definition set_finalizers :: "string list \<Rightarrow> DBInstance \<Rightarrow> DBInstance" where
  "set_finalizers fs i = i\<lparr>inst_ObjectMeta := (inst_ObjectMeta i)\<lparr>m_Finalizers := fs\<rparr>\<rparr>"

definition reconcileDelete :: "'s env \<Rightarrow> DBInstance \<Rightarrow> 's \<Rightarrow> handler_result \<times> 's" where
  "reconcileDelete E i0 s =
     (if spec_DeletionProtection (inst_Spec i0)
      then (case statusUpdate E (set_message ''Cannot delete: DeletionProtection is enabled'' i0) s of
              ((_, i), s1) \<Rightarrow> ((Return (no_requeue, Some (Errorf ''deletion protection enabled'')), i), s1))
      else
        (case statusUpdate E (set_message ''Tearing down resources'' (set_phase StatusDeleting i0)) s of
           ((_, i), s1) \<Rightarrow>
             (let s2 = TeardownAll E (iname i) (ins i0) (res i) s1;
                  i' = set_finalizers (RemoveFinalizer E (m_Finalizers (inst_ObjectMeta i)) FinalizerName) i
              in case Update_DBInstance E i' s2 of
                   ((err, i''), s3) \<Rightarrow> ((Return (no_requeue, err), i''), s3))))"

section \<open>Reconcile\<close>

definition provision :: "'s env \<Rightarrow> DBInstance \<Rightarrow> 's \<Rightarrow> handler_result \<times> 's" where
  "provision E i s =
     (let ph = pphase i in
      if ph = [] \<or> ph = PhasePending then phaseNetwork E i s
      else if ph = PhaseNetworkProvisioned then phaseStorage E i s
      else if ph = PhaseStorageProvisioned then phaseVM E i s
      else if ph = PhaseVMCreated \<or> ph = PhaseWaitingForCloudInit then phaseWaitReady E i s
      else if ph = PhaseDatabaseReady then phaseMonitoring E i s
      else if ph = PhaseMonitoringDeployed then phaseVpcPeering E i s
      else if ph = PhaseVpcPeeringCreated then phaseAvailable E i s
      else if ph = PhaseAvailable then phaseAvailable E i s
      else if ph = PhaseFailed then ((Return (requeue_after 30, None), i), s)
      else ((Return (no_requeue, Some (Errorf (''unknown phase: '' @ ph))), i), s))"

definition reconcile_instance :: "'s env \<Rightarrow> DBInstance \<Rightarrow> 's \<Rightarrow> handler_result \<times> 's" where
  "reconcile_instance E i s =
     (if m_DeletionTimestamp (inst_ObjectMeta i) \<noteq> None
      then (if ContainsFinalizer E (m_Finalizers (inst_ObjectMeta i)) FinalizerName
            then reconcileDelete E i s
            else ((Return (no_requeue, None), i), s))
      else if \<not> ContainsFinalizer E (m_Finalizers (inst_ObjectMeta i)) FinalizerName
      then (case Update_DBInstance E
              (set_finalizers (AddFinalizer E (m_Finalizers (inst_ObjectMeta i)) FinalizerName) i) s of
              ((Some e, i'), s') \<Rightarrow> ((Return (no_requeue, Some e), i'), s')
            | ((None, i'), s') \<Rightarrow> ((Return (requeue_now, None), i'), s'))
      else if spec_Running (inst_Spec i) = Some False \<and> phase i = StatusAvailable
      then reconcileStop E i s
      else if spec_Running (inst_Spec i) = Some True \<and> phase i = StatusStopped
      then reconcileStart E i s
      else if phase i = StatusAvailable
          \<and> m_Generation (inst_ObjectMeta i) \<noteq> st_ObservedGeneration (inst_Status i)
      then reconcileModify E i s
      else provision E i s)"

definition Reconcile ::
  "'s env \<Rightarrow> string \<Rightarrow> string \<Rightarrow> 's \<Rightarrow> (Result \<times> error option) outcome \<times> 's" where
  "Reconcile E ns name s =
     (case Get_DBInstance E ns name s of
        (Inl e, s1) \<Rightarrow> (if IsNotFound e then Return (no_requeue, None) else Return (no_requeue, Some e), s1)
      | (Inr i, s1) \<Rightarrow> (case reconcile_instance E i s1 of ((out, _), s2) \<Rightarrow> (out, s2)))"

section \<open>Effects\<close>

text \<open>Every handler ends in one of the three helpers, each of which writes the status once.\<close>

context recorder
begin

lemma finish_log:
  "finish E r i s = ((out, i'), s') \<Longrightarrow> lg s' = lg s @ [CInstStatus i] \<and> (\<exists>err. out = Return (r, err))"
  by (auto simp: finish_def statusUpdate_def split: prod.splits dest: StatusUpdate_DBInstance_log)

lemma advance_log:
  "advance E i s = ((out, i'), s') \<Longrightarrow>
     lg s' = lg s @ [CInstStatus i] \<and> (\<exists>err. out = Return (requeue_now, err))"
  by (auto simp: advance_def dest: finish_log)

lemma fail_log:
  "fail E i reason e s = ((out, i'), s') \<Longrightarrow>
     lg s' = lg s @ [CInstStatus (set_message (reason @ '': '' @ err_text e)
                                   (set_pphase PhaseFailed (set_phase StatusFailed i)))]
     \<and> out = Return (requeue_after 30, Some e)"
  by (auto simp: fail_def statusUpdate_def split: prod.splits dest: StatusUpdate_DBInstance_log)

lemmas end_log = finish_log advance_log fail_log

lemma thread_step_log:
  "thread_step E j t s = (t', s') \<Longrightarrow> emits lg (provisions [job_gvr j]) s s'"
  by (cases t) (auto simp: emits_def split: prod.splits sum.splits dest!: Dyn_Get_log Dyn_Update_log)

lemma run_threads_log:
  "run_threads E j k cs t u s = (r, s') \<Longrightarrow> emits lg (provisions [job_gvr j, job_gvr k]) s s'"
proof (induction "steps_left t + steps_left u" arbitrary: cs t u s rule: less_induct)
  case less
  let ?P = "provisions [job_gvr j, job_gvr k]"
  have sub: "emits lg (provisions [g]) s1 s2 \<Longrightarrow> g \<in> {job_gvr j, job_gvr k} \<Longrightarrow> emits lg ?P s1 s2" for g s1 s2
    by (erule emits_mono) (erule provisions_mono, auto)
  consider (stop) "steps_left t = 0 \<and> steps_left u = 0"
    | (left) "steps_left t \<noteq> 0 \<and> (steps_left u = 0 \<or> cs = [] \<or> even (hd cs))"
    | (right) "steps_left u \<noteq> 0 \<and> \<not> (steps_left t \<noteq> 0 \<and> (steps_left u = 0 \<or> cs = [] \<or> even (hd cs)))"
    by blast
  then show ?case
  proof cases
    case stop
    with less.prems show ?thesis by (simp add: run_threads.simps [of E j k cs t u s])
  next
    case left
    obtain t' s1 where st: "thread_step E j t s = (t', s1)" by (metis surj_pair)
    with left less.prems have r: "run_threads E j k (tl cs) t' u s1 = (r, s')"
      by (simp add: run_threads.simps [of E j k cs t u s])
    have "emits lg ?P s1 s'" using less.hyps [OF _ r] thread_step_left [OF st] left by simp
    with sub [OF thread_step_log [OF st]] show ?thesis by (blast intro: emits_trans)
  next
    case right
    obtain u' s1 where st: "thread_step E k u s = (u', s1)" by (metis surj_pair)
    with right less.prems have r: "run_threads E j k (tl cs) t u' s1 = (r, s')"
      by (auto simp: run_threads.simps [of E j k cs t u s] split: if_splits)
    have "emits lg ?P s1 s'" using less.hyps [OF _ r] thread_step_left [OF st] right by simp
    with sub [OF thread_step_log [OF st]] show ?thesis by (blast intro: emits_trans)
  qed
qed

lemma resize_both_log:
  "resize_both E ns vm cpu mem dv gb s = (r, s') \<Longrightarrow> emits lg (provisions [vmGVR, dvGVR]) s s'"
  by (auto simp: resize_both_def vm_job_def dv_job_def emits_def split: prod.splits
      dest!: Go_Sched_log run_threads_log [unfolded emits_def])

text \<open>Which resources each handler touches.\<close>

lemma status_works_on: "StatusUpdate_DBInstance E i s = (r, s') \<Longrightarrow> emits lg (works_on G) s s'"
  by (auto simp: works_on_def intro: emits_one dest: StatusUpdate_DBInstance_log)

lemma finish_works_on: "finish E x i s = (r, s') \<Longrightarrow> emits lg (works_on G) s s'"
  by (auto simp: finish_def statusUpdate_def split: prod.splits dest: status_works_on)

lemma advance_works_on: "advance E i s = (r, s') \<Longrightarrow> emits lg (works_on G) s s'"
  by (auto simp: advance_def dest: finish_works_on)

lemma fail_works_on: "fail E i reason e s = (r, s') \<Longrightarrow> emits lg (works_on G) s s'"
  by (auto simp: fail_def statusUpdate_def split: prod.splits dest: status_works_on)

lemmas end_works_on = finish_works_on advance_works_on fail_works_on status_works_on

lemma one_works_on:
  "lg s' = lg s @ [CCreate g n j] \<Longrightarrow> g \<in> set G \<Longrightarrow> emits lg (works_on G) s s'"
  "lg s' = lg s @ [CGet g n k] \<Longrightarrow> g \<in> set G \<Longrightarrow> emits lg (works_on G) s s'"
  by (auto intro: emits_one simp: works_on_def)

lemma phaseNetwork_emits:
  "phaseNetwork E i s = (r, s') \<Longrightarrow> emits lg (works_on network_kinds) s s'"
  by (auto simp: phaseNetwork_def Let_def split: prod.splits option.splits if_splits
      dest!: emits_works_on [OF CreateVPCNetwork_emits, of _ _ _ _ _ _ network_kinds]
      dest: end_works_on emits_trans)

lemma CreateDataVolume_works_on:
  "CreateDataVolume E ident ns gb cls s = (r, s') \<Longrightarrow> emits lg (works_on [dvGVR]) s s'"
  by (drule CreateDataVolume_log) (simp add: emits_def works_on_def)

lemma DeployMonitoring_works_on:
  "DeployMonitoring E ident ns addr port s = (r, s') \<Longrightarrow> emits lg (works_on [serviceGVR, smGVR]) s s'"
  by (drule DeployMonitoring_log) (simp add: emits_def works_on_def)

lemma CreateVpcPeering_works_on:
  "CreateVpcPeering E ident lv ls rv rs s = (r, s') \<Longrightarrow> emits lg (works_on [vpcPeeringGVR]) s s'"
  by (drule CreateVpcPeering_log) (simp add: emits_def works_on_def)

lemma phaseStorage_emits: "phaseStorage E i s = (r, s') \<Longrightarrow> emits lg (works_on [dvGVR]) s s'"
  by (auto simp: phaseStorage_def split: prod.splits option.splits if_splits
      dest!: CreateDataVolume_works_on dest: end_works_on emits_trans)

lemma phaseVM_emits: "phaseVM E i s = (r, s') \<Longrightarrow> emits lg (works_on vm_kinds) s s'"
  by (auto simp: phaseVM_def split: prod.splits option.splits if_splits
      dest!: emits_works_on [OF CreatePostgresVM_emits, of _ _ _ _ vm_kinds]
      dest: end_works_on emits_trans)

lemma readiness_works_on:
  "GetVMIReadiness E ns vm s = (r, s') \<Longrightarrow> emits lg (works_on [vmiGVR]) s s'"
  by (auto dest!: GetVMIReadiness_log intro: one_works_on)

lemma phaseWaitReady_emits: "phaseWaitReady E i s = (r, s') \<Longrightarrow> emits lg (works_on [vmiGVR]) s s'"
  by (auto simp: phaseWaitReady_def statusUpdate_def split: prod.splits if_splits
      dest!: readiness_works_on dest: end_works_on emits_trans)

lemma phaseMonitoring_emits:
  "phaseMonitoring E i s = (r, s') \<Longrightarrow> emits lg (works_on [serviceGVR, smGVR]) s s'"
  by (auto simp: phaseMonitoring_def split: prod.splits option.splits if_splits
      dest!: DeployMonitoring_works_on dest: end_works_on emits_trans)

lemma phaseAvailable_emits: "phaseAvailable E i s = (r, s') \<Longrightarrow> emits lg (works_on [vmiGVR]) s s'"
  by (auto simp: phaseAvailable_def Let_def split: prod.splits
      dest!: readiness_works_on dest: end_works_on emits_trans)

lemma phaseVpcPeering_emits:
  "phaseVpcPeering E i s = (r, s') \<Longrightarrow> emits lg (works_on [vpcPeeringGVR]) s s'"
  by (auto simp: phaseVpcPeering_def split: prod.splits option.splits if_splits
      dest!: CreateVpcPeering_works_on dest: end_works_on emits_trans)

lemma setVMRunning_works_on:
  "setVMRunning E ns vm b s = (r, s') \<Longrightarrow> emits lg (works_on [vmGVR]) s s'"
  by (erule emits_works_on [OF setVMRunning_emits]) simp

lemma reconcileStop_emits: "reconcileStop E i s = (r, s') \<Longrightarrow> emits lg (works_on [vmGVR]) s s'"
  by (auto simp: reconcileStop_def statusUpdate_def StopVM_def split: prod.splits option.splits
      dest!: setVMRunning_works_on end_works_on [where G = "[vmGVR]"] intro: emits_trans)

lemma reconcileStart_emits: "reconcileStart E i s = (r, s') \<Longrightarrow> emits lg (works_on [vmGVR]) s s'"
  by (auto simp: reconcileStart_def statusUpdate_def StartVM_def split: prod.splits option.splits
      dest!: setVMRunning_works_on end_works_on [where G = "[vmGVR]"] intro: emits_trans)

lemma resize_works_on:
  "resize_both E ns vm cpu mem dv gb s = (r, s') \<Longrightarrow> emits lg (works_on [vmGVR, dvGVR]) s s'"
  by (erule emits_works_on [OF resize_both_log]) simp

lemma reconcileModify_emits:
  "reconcileModify E i s = (r, s') \<Longrightarrow> emits lg (works_on [vmGVR, dvGVR]) s s'"
  by (auto simp: reconcileModify_def statusUpdate_def split: prod.splits option.splits
      dest!: resize_works_on end_works_on [where G = "[vmGVR, dvGVR]"] intro: emits_trans)

lemmas handler_emits = phaseNetwork_emits phaseStorage_emits phaseVM_emits phaseWaitReady_emits
  phaseMonitoring_emits phaseAvailable_emits phaseVpcPeering_emits reconcileStop_emits
  reconcileStart_emits reconcileModify_emits

lemmas handler_no_delete = handler_emits [THEN works_on_quiet]

lemma provision_no_delete: "provision E i s = (r, s') \<Longrightarrow> emits lg (\<lambda>c. \<not> is_delete c) s s'"
  unfolding provision_def Let_def by (auto split: if_splits intro: handler_no_delete)

lemma reconcile_no_delete:
  assumes "m_DeletionTimestamp (inst_ObjectMeta i) = None" "reconcile_instance E i s = (r, s')"
  shows "emits lg (\<lambda>c. \<not> is_delete c) s s'"
  using assms unfolding reconcile_instance_def
  by (auto split: if_splits prod.splits option.splits
      intro: handler_no_delete provision_no_delete emits_one dest!: Update_DBInstance_log)

text \<open>Deletion: a status write, the deletions of the teardown, and the removal of the finalizer.\<close>

lemma reconcileDelete_log:
  assumes "\<not> spec_DeletionProtection (inst_Spec i)" "reconcileDelete E i s = ((out, i'), s')"
  shows "\<exists>err1 i1 s1 ts err.
     StatusUpdate_DBInstance E (set_message ''Tearing down resources'' (set_phase StatusDeleting i)) s
       = ((err1, i1), s1)
     \<and> mset ts = mset (teardown_tasks (ins i) (res i1))
     \<and> lg s' = lg s @ CInstStatus (set_message ''Tearing down resources'' (set_phase StatusDeleting i))
         # map delete_call ts
         @ [CInstUpdate (set_finalizers (RemoveFinalizer E (m_Finalizers (inst_ObjectMeta i1)) FinalizerName) i1)]
     \<and> out = Return (no_requeue, err)"
proof -
  let ?j = "set_message ''Tearing down resources'' (set_phase StatusDeleting i)"
  obtain err1 i1 s1 where m: "StatusUpdate_DBInstance E ?j s = ((err1, i1), s1)" by (metis surj_pair)
  let ?k = "set_finalizers (RemoveFinalizer E (m_Finalizers (inst_ObjectMeta i1)) FinalizerName) i1"
  obtain s2 where td: "TeardownAll E (iname i1) (ins i) (res i1) s1 = s2" by simp
  obtain err where u: "Update_DBInstance E ?k s2 = ((err, i'), s')" "out = Return (no_requeue, err)"
    using assms m td by (auto simp: reconcileDelete_def statusUpdate_def Let_def split: prod.splits)
  obtain ts where ts: "lg s2 = lg s1 @ map delete_call ts" "mset ts = mset (teardown_tasks (ins i) (res i1))"
    using TeardownAll_log [of "iname i1" "ins i" "res i1" s1] td by auto
  have "lg s' = lg s @ CInstStatus ?j # map delete_call ts @ [CInstUpdate ?k]"
    using StatusUpdate_DBInstance_log [OF m] ts Update_DBInstance_log [OF u(1)] by simp
  with m ts u(2) show ?thesis by blast
qed

end

end
