(* ===== verification/Lifecycle.thy ===== *)
theory Lifecycle
  imports InstanceCtl
begin

text \<open>
  The life of a DBInstance. An abstract machine on the pair of status and provisioning phase says
  which status writes are allowed; the invariant \<open>wf_inst\<close> says what a status records at each phase.
  The locale \<open>handler\<close> is the contract every handler of the reconciler keeps; it is interpreted for
  each handler and, from these, for \<open>reconcile_instance\<close> itself, which gives the refinement and the
  invariant of all reachable objects.
\<close>

section \<open>The abstract machine\<close>

datatype prov = Pending | NetworkUp | StorageUp | VMUp | Waiting | DBReady | Monitored | Peered
  | Provisioned | ProvFailed | UnknownPhase

datatype stat = NoStatus | Creating | Available | Stopping | Stopped | Starting | Modifying
  | Deleting | Failed | UnknownStatus

definition prov_of :: "string \<Rightarrow> prov" where
  "prov_of ph =
     (if ph = [] \<or> ph = PhasePending then Pending
      else if ph = PhaseNetworkProvisioned then NetworkUp
      else if ph = PhaseStorageProvisioned then StorageUp
      else if ph = PhaseVMCreated then VMUp
      else if ph = PhaseWaitingForCloudInit then Waiting
      else if ph = PhaseDatabaseReady then DBReady
      else if ph = PhaseMonitoringDeployed then Monitored
      else if ph = PhaseVpcPeeringCreated then Peered
      else if ph = PhaseAvailable then Provisioned
      else if ph = PhaseFailed then ProvFailed
      else UnknownPhase)"

definition stat_of :: "string \<Rightarrow> stat" where
  "stat_of st =
     (if st = [] then NoStatus
      else if st = StatusCreating then Creating
      else if st = StatusAvailable then Available
      else if st = StatusStopping then Stopping
      else if st = StatusStopped then Stopped
      else if st = StatusStarting then Starting
      else if st = StatusModifying then Modifying
      else if st = StatusDeleting then Deleting
      else if st = StatusFailed then Failed
      else UnknownStatus)"

lemma prov_of_simps [simp]:
  "prov_of [] = Pending" "prov_of PhasePending = Pending"
  "prov_of PhaseNetworkProvisioned = NetworkUp" "prov_of PhaseStorageProvisioned = StorageUp"
  "prov_of PhaseVMCreated = VMUp" "prov_of PhaseWaitingForCloudInit = Waiting"
  "prov_of PhaseDatabaseReady = DBReady" "prov_of PhaseMonitoringDeployed = Monitored"
  "prov_of PhaseVpcPeeringCreated = Peered" "prov_of PhaseAvailable = Provisioned"
  "prov_of PhaseFailed = ProvFailed"
  by (simp_all add: prov_of_def phase_defs)

lemma stat_of_simps [simp]:
  "stat_of [] = NoStatus" "stat_of StatusCreating = Creating" "stat_of StatusAvailable = Available"
  "stat_of StatusStopping = Stopping" "stat_of StatusStopped = Stopped"
  "stat_of StatusStarting = Starting" "stat_of StatusModifying = Modifying"
  "stat_of StatusDeleting = Deleting" "stat_of StatusFailed = Failed"
  by (simp_all add: stat_of_def status_defs)

text \<open>
  One status write of provisioning: it goes forward one phase at a time, a wait may repeat, and the
  phases that create something may fail.
\<close>

inductive pstep :: "stat \<times> prov \<Rightarrow> stat \<times> prov \<Rightarrow> bool" where
  network: "pstep (a, Pending) (if a = NoStatus then Creating else a, NetworkUp)"
| storage: "pstep (a, NetworkUp) (a, StorageUp)"
| vm: "pstep (a, StorageUp) (a, VMUp)"
| waiting: "p = VMUp \<or> p = Waiting \<Longrightarrow> pstep (a, p) (a, Waiting)"
| booting: "p = VMUp \<or> p = Waiting \<Longrightarrow> pstep (a, p) (a, p)"
| ready: "p = VMUp \<or> p = Waiting \<Longrightarrow> pstep (a, p) (a, DBReady)"
| monitored: "pstep (a, DBReady) (a, Monitored)"
| peered: "pstep (a, Monitored) (a, Peered)"
| available: "p = Peered \<or> p = Provisioned \<Longrightarrow> pstep (a, p) (Available, Provisioned)"
| prov_failed: "p = Pending \<or> p = NetworkUp \<or> p = StorageUp \<Longrightarrow> pstep (a, p) (Failed, ProvFailed)"

inductive_cases pstepE: "pstep (a, p) (b, q)"

inductive_simps pstep_simps: "pstep (a, p) (b, q)"

text \<open>The whole machine: provisioning, and the operations on an instance.\<close>

inductive lstep :: "stat \<times> prov \<Rightarrow> stat \<times> prov \<Rightarrow> bool" where
  provisioning: "pstep x y \<Longrightarrow> lstep x y"
| op_failed: "a = Stopping \<or> a = Starting \<or> a = Modifying \<Longrightarrow> lstep (a, p) (Failed, ProvFailed)"
| stopping: "lstep (Available, p) (Stopping, p)"
| stopped: "lstep (Stopping, p) (Stopped, p)"
| starting: "lstep (Stopped, p) (Starting, p)"
| started: "lstep (Starting, p) (Available, p)"
| modifying: "lstep (Available, p) (Modifying, p)"
| modified: "lstep (Modifying, p) (Available, p)"
| deleting: "lstep (a, p) (Deleting, p)"
| protected: "lstep (a, p) (a, p)"

inductive_cases lstepE: "lstep (a, p) (b, q)"

fun rank :: "prov \<Rightarrow> nat" where
  "rank NetworkUp = 1"
| "rank StorageUp = 2"
| "rank VMUp = 3"
| "rank Waiting = 3"
| "rank DBReady = 4"
| "rank Monitored = 5"
| "rank Peered = 6"
| "rank Provisioned = 7"
| "rank _ = 0"

text \<open>A write moves provisioning by at most one phase, and leaves it only for \<open>ProvFailed\<close>.\<close>

lemma lstep_rank: "lstep (a, p) (b, q) \<Longrightarrow> q \<noteq> ProvFailed \<Longrightarrow> rank p \<le> rank q \<and> rank q \<le> Suc (rank p)"
  by (erule lstepE) (auto elim!: pstepE)

text \<open>Provisioning that has failed stays failed.\<close>

lemma lstep_ProvFailed: "lstep (a, ProvFailed) (b, q) \<Longrightarrow> q = ProvFailed"
  by (erule lstepE) (auto elim!: pstepE)

text \<open>Provisioning moves on unless it waits for the VM, is complete, or fails.\<close>

lemma pstep_progress:
  "pstep (a, p) (b, q) \<Longrightarrow> q = ProvFailed \<or> rank q = Suc (rank p)
     \<or> rank q = rank p \<and> (p = VMUp \<or> p = Waiting \<or> p = Provisioned)"
  by (erule pstepE) auto

section \<open>Writes and the invariant\<close>

definition view :: "DBInstance \<Rightarrow> stat \<times> prov" where
  "view i = (stat_of (phase i), prov_of (pphase i))"

fun writes :: "call list \<Rightarrow> DBInstance list" where
  "writes [] = []"
| "writes (CInstStatus j # cs) = j # writes cs"
| "writes (_ # cs) = writes cs"

lemma writes_append [simp]: "writes (cs @ ds) = writes cs @ writes ds"
  by (induction cs rule: writes.induct) auto

lemma writes_provisions [simp]: "list_all (provisions G) cs \<Longrightarrow> writes cs = []"
  by (induction cs rule: writes.induct) auto

lemma writes_deletes [simp]: "writes (map delete_call ts) = []"
  by (induction ts) (auto simp: delete_call_def)

text \<open>
  \<open>owned\<close>: whatever is recorded carries the name the instance gives it, VPC, subnet and attachment
  go together, and so do VM, Secret and the reference to it; a network attachment that is recorded
  without a VPC is a foreign one. \<open>reached n\<close>: what must be recorded at rank \<open>n\<close>.
\<close>

definition owned ::
  "string \<Rightarrow> ResourceRefs \<Rightarrow> MasterUserSecretRef option \<Rightarrow> Endpoint option \<Rightarrow> bool" where
  "owned name r mus ep =
     ((if res_VPCName r = [] then res_SubnetName r = []
       else res_VPCName r = vpc_name name \<and> res_SubnetName r = subnet_name name
            \<and> res_NADName r = nad_name name)
      \<and> (res_DataVolumeName r = [] \<or> res_DataVolumeName r = dv_name name)
      \<and> (if res_VMName r = [] then res_SecretName r = []
         else res_VMName r = vm_name name \<and> res_SecretName r = secret_name name \<and> mus \<noteq> None)
      \<and> (res_ServiceMonitor r = [] \<or> res_ServiceMonitor r = sm_name name)
      \<and> (res_VpcPeeringName r = [] \<or> res_VpcPeeringName r = peering_name name)
      \<and> (case ep of None \<Rightarrow> True | Some e \<Rightarrow> ep_Address e \<noteq> []))"

definition reached :: "nat \<Rightarrow> ResourceRefs \<Rightarrow> Endpoint option \<Rightarrow> bool" where
  "reached n r ep =
     ((n < 1 \<or> res_NADName r \<noteq> []) \<and> (n < 2 \<or> res_DataVolumeName r \<noteq> [])
      \<and> (n < 3 \<or> res_VMName r \<noteq> []) \<and> (n < 4 \<or> ep \<noteq> None))"

definition wf_inst :: "DBInstance \<Rightarrow> bool" where
  "wf_inst i =
     (prov_of (pphase i) \<noteq> UnknownPhase
      \<and> owned (iname i) (res i) (st_MasterUserSecret (inst_Status i)) (st_Endpoint (inst_Status i))
      \<and> reached (rank (prov_of (pphase i))) (res i) (st_Endpoint (inst_Status i)))"

lemmas set_defs = set_status_def set_phase_def set_pphase_def set_message_def set_res_def
  observe_generation_def

lemma set_simps [simp]:
  "inst_Status (set_status f i) = f (inst_Status i)"
  "inst_Status (set_phase a i) = (inst_Status i)\<lparr>st_Phase := a\<rparr>"
  "inst_Status (set_pphase ph i) = (inst_Status i)\<lparr>st_ProvisioningPhase := ph\<rparr>"
  "inst_Status (set_message m i) = (inst_Status i)\<lparr>st_Message := m\<rparr>"
  "inst_Status (set_res g i) = (inst_Status i)\<lparr>st_Resources := g (res i)\<rparr>"
  "inst_Status (observe_generation i) =
     (inst_Status i)\<lparr>st_ObservedGeneration := m_Generation (inst_ObjectMeta i)\<rparr>"
  "inst_Spec (set_status f i) = inst_Spec i" "inst_Spec (set_phase a i) = inst_Spec i"
  "inst_Spec (set_pphase ph i) = inst_Spec i" "inst_Spec (set_message m i) = inst_Spec i"
  "inst_Spec (set_res g i) = inst_Spec i" "inst_Spec (observe_generation i) = inst_Spec i"
  "inst_ObjectMeta (set_status f i) = inst_ObjectMeta i"
  "inst_ObjectMeta (set_phase a i) = inst_ObjectMeta i"
  "inst_ObjectMeta (set_pphase ph i) = inst_ObjectMeta i"
  "inst_ObjectMeta (set_message m i) = inst_ObjectMeta i"
  "inst_ObjectMeta (set_res g i) = inst_ObjectMeta i"
  "inst_ObjectMeta (observe_generation i) = inst_ObjectMeta i"
  by (simp_all add: set_defs)

text \<open>Recording a resource.\<close>

lemma owned_network:
  "owned n r m ep \<Longrightarrow>
     owned n (r\<lparr>res_VPCName := vpc_name n, res_SubnetName := subnet_name n, res_NADName := nad_name n\<rparr>) m ep"
  by (simp add: owned_def)

lemma owned_foreign: "owned n r m ep \<Longrightarrow> res_VPCName r = [] \<Longrightarrow> owned n (r\<lparr>res_NADName := nad\<rparr>) m ep"
  by (simp add: owned_def)

lemma owned_dv: "owned n r m ep \<Longrightarrow> owned n (r\<lparr>res_DataVolumeName := dv_name n\<rparr>) m ep"
  by (simp add: owned_def)

lemma owned_vm:
  "owned n r m ep \<Longrightarrow>
     owned n (r\<lparr>res_VMName := vm_name n, res_SecretName := secret_name n\<rparr>) (Some q) ep"
  by (simp add: owned_def)

lemma owned_sm: "owned n r m ep \<Longrightarrow> owned n (r\<lparr>res_ServiceMonitor := sm_name n\<rparr>) m ep"
  by (simp add: owned_def)

lemma owned_peering: "owned n r m ep \<Longrightarrow> owned n (r\<lparr>res_VpcPeeringName := peering_name n\<rparr>) m ep"
  by (simp add: owned_def)

lemma owned_endpoint: "owned n r m ep \<Longrightarrow> ep_Address e \<noteq> [] \<Longrightarrow> owned n r m (Some e)"
  by (simp add: owned_def)

lemmas owned_intros = owned_network owned_foreign owned_dv owned_vm owned_sm owned_peering

lemma owned_vpc_nad: "owned n r m ep \<Longrightarrow> res_VPCName r \<noteq> [] \<Longrightarrow> res_NADName r \<noteq> []"
  by (simp add: owned_def)

lemma reached_0 [simp]: "reached 0 r ep"
  by (simp add: reached_def)

text \<open>From the fifth phase on nothing more has to be recorded.\<close>

lemma reached_4: "4 \<le> n \<Longrightarrow> 4 \<le> m \<Longrightarrow> reached n r ep = reached m r ep"
  by (simp add: reached_def)

text \<open>What a run of a handler on \<open>i\<close> that ended with \<open>out\<close> and made the calls \<open>cs\<close> must satisfy.\<close>

definition handled :: "DBInstance \<Rightarrow> 'r outcome \<Rightarrow> call list \<Rightarrow> bool" where
  "handled i out cs =
     (successively lstep (map view (i # writes cs))
      \<and> list_all (\<lambda>j. iname j = iname i \<and> ins j = ins i \<and> (wf_inst i \<longrightarrow> wf_inst j)) (writes cs)
      \<and> (wf_inst i \<longrightarrow> out \<noteq> Panic))"

text \<open>
  The stronger condition on a provisioning handler: one write, a step of provisioning, that leaves
  specification and metadata alone; or a panic, and then the instance was not well-formed.
\<close>

definition moved :: "DBInstance \<Rightarrow> 'r outcome \<Rightarrow> call list \<Rightarrow> bool" where
  "moved i out cs =
     ((out = Panic \<and> writes cs = [] \<and> \<not> wf_inst i)
      \<or> (out \<noteq> Panic \<and> (\<exists>j. writes cs = [j] \<and> pstep (view i) (view j)
           \<and> inst_ObjectMeta j = inst_ObjectMeta i \<and> inst_Spec j = inst_Spec i
           \<and> (wf_inst i \<longrightarrow> wf_inst j)
           \<and> (pphase j = PhaseAvailable \<longrightarrow>
                st_ObservedGeneration (inst_Status j) = m_Generation (inst_ObjectMeta j)))))"

lemma moved_handled: "moved i out cs \<Longrightarrow> handled i out cs"
  by (auto simp: moved_def handled_def intro: provisioning)

lemma moved_one:
  assumes "writes cs = [j]" "pstep (view i) (view j)" "inst_ObjectMeta j = inst_ObjectMeta i"
    "inst_Spec j = inst_Spec i" "wf_inst i \<Longrightarrow> wf_inst j"
    "prov_of (pphase j) = Provisioned \<Longrightarrow>
       st_ObservedGeneration (inst_Status j) = m_Generation (inst_ObjectMeta j)"
  shows "moved i (Return r) cs"
  using assms unfolding moved_def by (metis outcome.distinct(1) prov_of_simps(10))

lemma handled_none: "list_all (\<lambda>c. writes [c] = []) cs \<Longrightarrow> handled i (Return r) cs"
proof -
  assume "list_all (\<lambda>c. writes [c] = []) cs"
  then have "writes cs = []" by (induction cs rule: writes.induct) auto
  then show ?thesis by (simp add: handled_def)
qed

lemma handled_one:
  assumes "writes cs = [j]" "lstep (view i) (view j)" "iname j = iname i" "ins j = ins i"
    "wf_inst i \<Longrightarrow> wf_inst j"
  shows "handled i (Return r) cs"
  using assms by (simp add: handled_def)

lemma handled_two:
  assumes "writes cs = [j, k]" "lstep (view i) (view j)" "lstep (view j) (view k)"
    "iname j = iname i" "ins j = ins i" "iname k = iname i" "ins k = ins i"
    "wf_inst i \<Longrightarrow> wf_inst j" "wf_inst i \<Longrightarrow> wf_inst k"
  shows "handled i (Return r) cs"
  using assms by (simp add: handled_def)

lemma stat_of_Nil [simp]: "stat_of s = NoStatus \<longleftrightarrow> s = []"
  by (simp add: stat_of_def)

lemma tr_emits: "emits snd P (s, []) (s', cs) \<longleftrightarrow> list_all P cs"
  by (simp add: emits_def)

text \<open>The helpers that end a provisioning handler, after calls that wrote no status.\<close>

lemma advance_moved:
  assumes "advance (traced E) j (s1, cs1) = ((out, i'), (s', cs))" "writes cs1 = []"
    "pstep (view i) (view j)" "inst_ObjectMeta j = inst_ObjectMeta i" "inst_Spec j = inst_Spec i"
    "wf_inst i \<Longrightarrow> wf_inst j" "prov_of (pphase j) \<noteq> Provisioned"
  shows "moved i out cs"
  using tr.advance_log [OF assms(1)] assms(2-) by (auto intro: moved_one)

lemma finish_moved:
  assumes "finish (traced E) r j (s1, cs1) = ((out, i'), (s', cs))" "writes cs1 = []"
    "pstep (view i) (view j)" "inst_ObjectMeta j = inst_ObjectMeta i" "inst_Spec j = inst_Spec i"
    "wf_inst i \<Longrightarrow> wf_inst j"
    "prov_of (pphase j) = Provisioned \<Longrightarrow>
       st_ObservedGeneration (inst_Status j) = m_Generation (inst_ObjectMeta j)"
  shows "moved i out cs"
  using tr.finish_log [OF assms(1)] assms(2-) by (auto intro: moved_one)

lemma wf_failed:
  "wf_inst i \<Longrightarrow> wf_inst (set_message m (set_pphase PhaseFailed (set_phase StatusFailed i)))"
  by (simp add: wf_inst_def)

lemma fail_moved:
  assumes "fail (traced E) j reason e (s1, cs1) = ((out, i'), (s', cs))" "writes cs1 = []"
    "pstep (view i) (Failed, ProvFailed)" "inst_ObjectMeta j = inst_ObjectMeta i"
    "inst_Spec j = inst_Spec i" "wf_inst i \<Longrightarrow> wf_inst j"
  shows "moved i out cs"
  using tr.fail_log [OF assms(1)] assms(2-)
  by (auto intro!: moved_one wf_failed simp: view_def)

section \<open>The handlers\<close>

lemma phaseNetwork_moved:
  assumes ph: "pphase i = [] \<or> pphase i = PhasePending"
    and run: "phaseNetwork (traced E) i (s, []) = ((out, i'), (s', cs))"
  shows "moved i out cs"
proof -
  define j where "j = (if phase i = [] then set_phase StatusCreating i else i)"
  have p: "prov_of (pphase i) = Pending" using ph by auto
  have j: "inst_ObjectMeta j = inst_ObjectMeta i" "inst_Spec j = inst_Spec i" "res j = res i"
    "pphase j = pphase i" "st_MasterUserSecret (inst_Status j) = st_MasterUserSecret (inst_Status i)"
    "st_Endpoint (inst_Status j) = st_Endpoint (inst_Status i)"
    "stat_of (phase j) = (if phase i = [] then Creating else stat_of (phase i))"
    by (simp_all add: j_def)
  consider (known) "res_VPCName (res j) \<noteq> [] \<or> res_NADName (res j) \<noteq> []"
      "advance (traced E) (set_pphase PhaseNetworkProvisioned j) (s, []) = ((out, i'), (s', cs))"
    | (ref) m where "res_VPCName (res j) = []" "spec_NetworkRef (inst_Spec i) \<noteq> []"
       "advance (traced E) (set_message m (set_pphase PhaseNetworkProvisioned
          (set_res (\<lambda>r. r\<lparr>res_NADName := spec_NetworkRef (inst_Spec i)\<rparr>) j))) (s, []) = ((out, i'), (s', cs))"
    | (failed) vlan r s1 cs1 e where
       "CreateVPCNetwork (traced E) (iname j) (ins j) vlan (s, []) = (r, (s1, cs1))"
       "fail (traced E) j ''NetworkFailed'' e (s1, cs1) = ((out, i'), (s', cs))"
    | (made) vlan v n d s1 cs1 m where
       "CreateVPCNetwork (traced E) (iname j) (ins j) vlan (s, []) = ((v, n, d, None), (s1, cs1))"
       "advance (traced E) (set_message m (set_pphase PhaseNetworkProvisioned
          (set_res (\<lambda>r. r\<lparr>res_VPCName := v, res_SubnetName := n, res_NADName := d\<rparr>) j))) (s1, cs1) = ((out, i'), (s', cs))"
    using run unfolding phaseNetwork_def Let_def j_def [symmetric]
    by (auto simp: j(1,2) split: prod.splits option.splits if_splits)
  then show ?thesis
  proof cases
    case known
    then show ?thesis
      using p by (intro advance_moved [OF known(2)])
        (auto simp: j view_def pstep_simps wf_inst_def reached_def dest: owned_vpc_nad)
  next
    case ref
    then show ?thesis
      using p by (intro advance_moved [OF ref(3)])
        (auto simp: j view_def pstep_simps wf_inst_def reached_def Let_def intro: owned_intros)
  next
    case failed
    then show ?thesis
      using p tr.CreateVPCNetwork_emits [OF failed(1)]
      by (intro fail_moved [OF failed(2)]) (auto simp: j view_def pstep_simps wf_inst_def tr_emits)
  next
    case made
    then show ?thesis
      using p tr.CreateVPCNetwork_emits [OF made(1)] CreateVPCNetwork_names [OF made(1)]
      by (intro advance_moved [OF made(2)])
        (auto simp: j view_def pstep_simps wf_inst_def tr_emits reached_def intro: owned_intros)
  qed
qed

lemmas handler_simps = view_def pstep_simps wf_inst_def tr_emits reached_def

lemma phaseStorage_moved:
  assumes p: "pphase i = PhaseNetworkProvisioned"
    and run: "phaseStorage (traced E) i (s, []) = ((out, i'), (s', cs))"
  shows "moved i out cs"
proof -
  consider (known) "res_DataVolumeName (res i) \<noteq> []"
      "advance (traced E) (set_pphase PhaseStorageProvisioned i) (s, []) = ((out, i'), (s', cs))"
    | (failed) gb cls r s1 cs1 e where
      "CreateDataVolume (traced E) (iname i) (ins i) gb cls (s, []) = (r, (s1, cs1))"
      "fail (traced E) i ''StorageFailed'' e (s1, cs1) = ((out, i'), (s', cs))"
    | (made) gb cls d s1 cs1 m where
      "CreateDataVolume (traced E) (iname i) (ins i) gb cls (s, []) = ((d, None), (s1, cs1))"
      "advance (traced E) (set_message m (set_pphase PhaseStorageProvisioned
         (set_res (\<lambda>r. r\<lparr>res_DataVolumeName := d\<rparr>) i))) (s1, cs1) = ((out, i'), (s', cs))"
    using run unfolding phaseStorage_def by (auto split: prod.splits option.splits if_splits)
  then show ?thesis
  proof cases
    case known
    then show ?thesis
      using p by (intro advance_moved [OF known(2)]) (auto simp: handler_simps)
  next
    case failed
    then show ?thesis
      using p tr.CreateDataVolume_log [OF failed(1)]
      by (intro fail_moved [OF failed(2)]) (auto simp: handler_simps)
  next
    case made
    then show ?thesis
      using p tr.CreateDataVolume_log [OF made(1)] CreateDataVolume_name [OF made(1)]
      by (intro advance_moved [OF made(2)]) (auto simp: handler_simps intro: owned_intros)
  qed
qed

lemma phaseVM_moved:
  assumes p: "pphase i = PhaseStorageProvisioned"
    and run: "phaseVM (traced E) i (s, []) = ((out, i'), (s', cs))"
  shows "moved i out cs"
proof -
  consider (known) "res_VMName (res i) \<noteq> []"
      "finish (traced E) (requeue_after 10) (set_pphase PhaseVMCreated i) (s, []) = ((out, i'), (s', cs))"
    | (unknown) e where "fail (traced E) i ''InvalidClass'' e (s, []) = ((out, i'), (s', cs))"
    | (failed) cls r s1 cs1 e where
      "CreatePostgresVM (traced E) (vm_params i cls) (s, []) = (r, (s1, cs1))"
      "fail (traced E) i ''VMCreateFailed'' e (s1, cs1) = ((out, i'), (s', cs))"
    | (made) cls v n ca s1 cs1 m where
      "CreatePostgresVM (traced E) (vm_params i cls) (s, []) = ((v, n, ca, None), (s1, cs1))"
      "finish (traced E) (requeue_after 10) (set_message m (set_pphase PhaseVMCreated
         (set_status (\<lambda>st. st\<lparr>st_CACertPEM := ca,
              st_MasterUserSecret := Some \<lparr>mus_Name = n, mus_Status = SecretStatusActive\<rparr>\<rparr>)
           (set_res (\<lambda>r. r\<lparr>res_VMName := v, res_SecretName := n\<rparr>) i)))) (s1, cs1) = ((out, i'), (s', cs))"
    using run unfolding phaseVM_def by (auto split: prod.splits option.splits if_splits)
  then show ?thesis
  proof cases
    case known
    then show ?thesis
      using p by (intro finish_moved [OF known(2)]) (auto simp: handler_simps)
  next
    case unknown
    then show ?thesis
      using p by (intro fail_moved [OF unknown]) (auto simp: handler_simps)
  next
    case failed
    then show ?thesis
      using p tr.CreatePostgresVM_emits [OF failed(1)]
      by (intro fail_moved [OF failed(2)]) (auto simp: handler_simps)
  next
    case made
    have "p_ID (vm_params i cls) = iname i" by (simp add: vm_params_def Let_def)
    then show ?thesis
      using p tr.CreatePostgresVM_emits [OF made(1)] CreatePostgresVM_names [OF made(1)]
      by (intro finish_moved [OF made(2)]) (auto simp: handler_simps intro: owned_intros)
  qed
qed

lemma jdbc_address [simp]: "ep_Address (jdbc_endpoint i ip) = ip"
  by (simp add: jdbc_endpoint_def Let_def)

lemma phaseWaitReady_moved:
  assumes p: "pphase i = PhaseVMCreated \<or> pphase i = PhaseWaitingForCloudInit"
    and run: "phaseWaitReady (traced E) i (s, []) = ((out, i'), (s', cs))"
  shows "moved i out cs"
proof -
  obtain rd err s1 cs1 where g: "GetVMIReadiness (traced E) (ins i) (res_VMName (res i)) (s, []) = ((rd, err), (s1, cs1))"
    by (metis surj_pair)
  have cs1: "cs1 = [CGet vmiGVR (ins i) (res_VMName (res i))]"
    using tr.GetVMIReadiness_log [OF g] by simp
  consider (starting) m r where "StatusUpdate_DBInstance (traced E)
        (set_pphase PhaseWaitingForCloudInit (set_message m i)) (s1, cs1) = (r, (s', cs))"
        "out = Return (requeue_after 10, None)"
    | (booting) m r where "StatusUpdate_DBInstance (traced E) (set_message m i) (s1, cs1) = (r, (s', cs))"
        "out = Return (requeue_after 15, None)"
    | (ready) m where "rd_IP rd \<noteq> []" "advance (traced E) (set_message m (set_pphase PhaseDatabaseReady
        (set_status (\<lambda>st. st\<lparr>st_Endpoint := Some (jdbc_endpoint i (rd_IP rd)),
            st_ManagementAddress := rd_MgmtIP rd\<rparr>) i))) (s1, cs1) = ((out, i'), (s', cs))"
    using run unfolding phaseWaitReady_def g statusUpdate_def
    by (auto split: prod.splits if_splits)
  then show ?thesis
  proof cases
    case starting
    then show ?thesis
      using p tr.StatusUpdate_DBInstance_log [OF starting(1)]
      by (auto intro!: moved_one simp: cs1 handler_simps)
  next
    case booting
    then show ?thesis
      using p tr.StatusUpdate_DBInstance_log [OF booting(1)]
      by (auto intro!: moved_one simp: cs1 handler_simps)
  next
    case ready
    show ?thesis
    proof (rule advance_moved [OF ready(2)])
      show "wf_inst (set_message m (set_pphase PhaseDatabaseReady
        (set_status (\<lambda>st. st\<lparr>st_Endpoint := Some (jdbc_endpoint i (rd_IP rd)),
            st_ManagementAddress := rd_MgmtIP rd\<rparr>) i)))" if "wf_inst i"
        using that p ready(1) owned_endpoint by (auto simp: wf_inst_def reached_def)
      show "writes cs1 = []" by (simp add: cs1)
      show "pstep (view i) (view (set_message m (set_pphase PhaseDatabaseReady
        (set_status (\<lambda>st. st\<lparr>st_Endpoint := Some (jdbc_endpoint i (rd_IP rd)),
            st_ManagementAddress := rd_MgmtIP rd\<rparr>) i))))" using p pstep.ready by (auto simp: view_def)
    qed simp_all
  qed
qed

lemma phaseMonitoring_moved:
  assumes p: "pphase i = PhaseDatabaseReady"
    and run: "phaseMonitoring (traced E) i (s, []) = ((out, i'), (s', cs))"
  shows "moved i out cs"
proof -
  consider (known) "advance (traced E) (set_pphase PhaseMonitoringDeployed i) (s, []) = ((out, i'), (s', cs))"
    | (nil) "st_Endpoint (inst_Status i) = None" "cs = []" "out = Panic"
    | (failed) d q r s1 cs1 m where
      "DeployMonitoring (traced E) (iname i) (ins i) d q (s, []) = (r, (s1, cs1))"
      "advance (traced E) (set_pphase PhaseMonitoringDeployed (set_message m i)) (s1, cs1) = ((out, i'), (s', cs))"
    | (made) d q n u v s1 cs1 where
      "DeployMonitoring (traced E) (iname i) (ins i) d q (s, []) = ((n, u, v, None), (s1, cs1))"
      "advance (traced E) (set_pphase PhaseMonitoringDeployed
         (set_status (\<lambda>st. st\<lparr>st_GrafanaURL := u, st_PrometheusTarget := v\<rparr>)
           (set_res (\<lambda>r. r\<lparr>res_ServiceMonitor := n\<rparr>) i))) (s1, cs1) = ((out, i'), (s', cs))"
    using run unfolding phaseMonitoring_def by (auto split: prod.splits option.splits if_splits)
  then show ?thesis
  proof cases
    case known
    then show ?thesis
      using p by (intro advance_moved [OF known]) (auto simp: handler_simps)
  next
    case nil
    with p have "\<not> wf_inst i" by (simp add: handler_simps)
    with nil show ?thesis by (simp add: moved_def)
  next
    case failed
    then show ?thesis
      using p tr.DeployMonitoring_log [OF failed(1)]
      by (intro advance_moved [OF failed(2)]) (auto simp: handler_simps)
  next
    case made
    then show ?thesis
      using p tr.DeployMonitoring_log [OF made(1)] DeployMonitoring_name [OF made(1)]
      by (intro advance_moved [OF made(2)]) (auto simp: handler_simps intro: owned_intros)
  qed
qed

lemma phaseVpcPeering_moved:
  assumes p: "pphase i = PhaseMonitoringDeployed"
    and run: "phaseVpcPeering (traced E) i (s, []) = ((out, i'), (s', cs))"
  shows "moved i out cs"
proof -
  consider (known) "advance (traced E) (set_pphase PhaseVpcPeeringCreated i) (s, []) = ((out, i'), (s', cs))"
    | (failed) lv ls rv rs r s1 cs1 m where
      "CreateVpcPeering (traced E) (iname i) lv ls rv rs (s, []) = (r, (s1, cs1))"
      "advance (traced E) (set_pphase PhaseVpcPeeringCreated (set_message m i)) (s1, cs1) = ((out, i'), (s', cs))"
    | (made) lv ls rv rs n s1 cs1 m where
      "CreateVpcPeering (traced E) (iname i) lv ls rv rs (s, []) = ((n, None), (s1, cs1))"
      "advance (traced E) (set_pphase PhaseVpcPeeringCreated (set_message m
         (set_res (\<lambda>r. r\<lparr>res_VpcPeeringName := n\<rparr>) i))) (s1, cs1) = ((out, i'), (s', cs))"
    using run unfolding phaseVpcPeering_def by (auto split: prod.splits option.splits if_splits)
  then show ?thesis
  proof cases
    case known
    then show ?thesis
      using p by (intro advance_moved [OF known]) (auto simp: handler_simps)
  next
    case failed
    then show ?thesis
      using p tr.CreateVpcPeering_log [OF failed(1)]
      by (intro advance_moved [OF failed(2)]) (auto simp: handler_simps)
  next
    case made
    then show ?thesis
      using p tr.CreateVpcPeering_log [OF made(1)] CreateVpcPeering_name [OF made(1)]
      by (intro advance_moved [OF made(2)]) (auto simp: handler_simps intro: owned_intros)
  qed
qed

lemma refresh_simps [simp]:
  "inst_ObjectMeta (refresh_endpoint rd i) = inst_ObjectMeta i" "phase (refresh_endpoint rd i) = phase i"
  "pphase (refresh_endpoint rd i) = pphase i" "res (refresh_endpoint rd i) = res i"
  "st_MasterUserSecret (inst_Status (refresh_endpoint rd i)) = st_MasterUserSecret (inst_Status i)"
  "inst_ObjectMeta (refresh_mgmt rd i) = inst_ObjectMeta i" "phase (refresh_mgmt rd i) = phase i"
  "pphase (refresh_mgmt rd i) = pphase i" "res (refresh_mgmt rd i) = res i"
  "st_MasterUserSecret (inst_Status (refresh_mgmt rd i)) = st_MasterUserSecret (inst_Status i)"
  "st_Endpoint (inst_Status (refresh_mgmt rd i)) = st_Endpoint (inst_Status i)"
  "inst_Spec (refresh_endpoint rd i) = inst_Spec i" "inst_Spec (refresh_mgmt rd i) = inst_Spec i"
  "st_ObservedGeneration (inst_Status (refresh_endpoint rd i)) = st_ObservedGeneration (inst_Status i)"
  "st_ObservedGeneration (inst_Status (refresh_mgmt rd i)) = st_ObservedGeneration (inst_Status i)"
  by (simp_all add: refresh_endpoint_def refresh_mgmt_def)

lemma refresh_endpoint_cases:
  "st_Endpoint (inst_Status (refresh_endpoint rd i)) = st_Endpoint (inst_Status i)
   \<or> (\<exists>ep. st_Endpoint (inst_Status (refresh_endpoint rd i)) = Some ep \<and> ep_Address ep \<noteq> [])"
  by (auto simp: refresh_endpoint_def)

lemma phaseAvailable_moved:
  assumes p: "pphase i = PhaseVpcPeeringCreated \<or> pphase i = PhaseAvailable"
    and run: "phaseAvailable (traced E) i (s, []) = ((out, i'), (s', cs))"
  shows "moved i out cs"
proof -
  obtain m where m: "phaseAvailable (traced E) i (s, []) =
     (let j = set_message m (observe_generation (set_pphase PhaseAvailable (set_phase StatusAvailable i)))
      in case GetVMIReadiness (traced E) (ins j) (res_VMName (res j)) (s, []) of ((rd, _), s1) \<Rightarrow>
         finish (traced E) (requeue_after 60) (refresh_mgmt rd (refresh_endpoint rd j)) s1)"
    by (simp add: phaseAvailable_def)
  obtain rd err s1 cs1 where g: "GetVMIReadiness (traced E) (ins i) (res_VMName (res i)) (s, []) = ((rd, err), (s1, cs1))"
    by (metis surj_pair)
  let ?j = "set_message m (observe_generation (set_pphase PhaseAvailable (set_phase StatusAvailable i)))"
  have f: "finish (traced E) (requeue_after 60) (refresh_mgmt rd (refresh_endpoint rd ?j)) (s1, cs1)
      = ((out, i'), (s', cs))"
    using run unfolding m by (simp add: Let_def g)
  show ?thesis
    using p tr.GetVMIReadiness_log [OF g] refresh_endpoint_cases [of rd ?j]
    by (intro finish_moved [OF f]) (auto simp: handler_simps elim: owned_endpoint)
qed

text \<open>Two writes: the first marks the operation, the second ends it.\<close>

lemma marked_finish:
  assumes c: "cr_client E"
    and m: "StatusUpdate_DBInstance (traced E) j (s, []) = ((err, i1), (s1, cs1))"
    and q: "cs2 = cs1 @ ds" "list_all (provisions G) ds"
    and f: "finish (traced E) r (f i1) (s2, cs2) = ((out, i'), (s', cs))"
    and j: "lstep (view i) (view j)" "iname j = iname i" "ins j = ins i" "wf_inst i \<Longrightarrow> wf_inst j"
    and k: "lstep (view j) (view (f i1))" "iname (f i1) = iname i1" "ins (f i1) = ins i1"
      "wf_inst i1 \<Longrightarrow> wf_inst (f i1)"
  shows "handled i out cs"
proof -
  have w: "writes cs = [j, f i1]"
    using tr.StatusUpdate_DBInstance_log [OF m] tr.finish_log [OF f] q by simp
  note kept = cr_client.status_kept [OF cr_client_traced [OF c] m]
  have "wf_inst j \<Longrightarrow> wf_inst i1" by (simp add: wf_inst_def kept)
  with w j k kept tr.finish_log [OF f] show ?thesis
    by (auto intro: handled_two)
qed

lemma marked_fail:
  assumes c: "cr_client E"
    and m: "StatusUpdate_DBInstance (traced E) j (s, []) = ((err, i1), (s1, cs1))"
    and q: "cs2 = cs1 @ ds" "list_all (provisions G) ds"
    and f: "fail (traced E) i1 reason e (s2, cs2) = ((out, i'), (s', cs))"
    and j: "lstep (view i) (view j)" "iname j = iname i" "ins j = ins i" "wf_inst i \<Longrightarrow> wf_inst j"
    and k: "fst (view j) \<in> {Stopping, Starting, Modifying}"
  shows "handled i out cs"
proof -
  let ?k = "set_message (reason @ '': '' @ err_text e) (set_pphase PhaseFailed (set_phase StatusFailed i1))"
  have w: "writes cs = [j, ?k]"
    using tr.StatusUpdate_DBInstance_log [OF m] tr.fail_log [OF f] q by simp
  note kept = cr_client.status_kept [OF cr_client_traced [OF c] m]
  have "wf_inst j \<Longrightarrow> wf_inst i1" by (simp add: wf_inst_def kept)
  then have "wf_inst j \<Longrightarrow> wf_inst ?k" by (blast intro: wf_failed)
  moreover have "lstep (view j) (view ?k)" using k by (auto simp: view_def intro: op_failed)
  ultimately show ?thesis
    using w j kept tr.fail_log [OF f] by (auto intro: handled_two)
qed

lemma wf_same_phase:
  "wf_inst i \<Longrightarrow> inst_ObjectMeta j = inst_ObjectMeta i \<Longrightarrow> pphase j = pphase i \<Longrightarrow> res j = res i
   \<Longrightarrow> st_Endpoint (inst_Status j) = st_Endpoint (inst_Status i)
   \<Longrightarrow> st_MasterUserSecret (inst_Status j) = st_MasterUserSecret (inst_Status i) \<Longrightarrow> wf_inst j"
  by (simp add: wf_inst_def)

lemma emits_snd: "emits snd P (s, cs) (s', cs') \<Longrightarrow> \<exists>ds. cs' = cs @ ds \<and> list_all P ds"
  by (simp add: emits_def)

lemma reconcileStop_handled:
  assumes c: "cr_client E" and p: "phase i = StatusAvailable"
    and run: "reconcileStop (traced E) i (s, []) = ((out, i'), (s', cs))"
  shows "handled i out cs"
proof -
  let ?j = "set_message ''Stopping VM'' (set_phase StatusStopping i)"
  obtain err i1 s1 cs1 where m: "StatusUpdate_DBInstance (traced E) ?j (s, []) = ((err, i1), (s1, cs1))"
    by (metis surj_pair)
  obtain r s2 cs2 where st: "setVMRunning (traced E) (ins i) (res_VMName (res i1)) False (s1, cs1) = (r, (s2, cs2))"
    by (metis surj_pair)
  obtain ds where ds: "cs2 = cs1 @ ds" "list_all (provisions [vmGVR]) ds"
    using emits_snd [OF tr.setVMRunning_emits [OF st]] by blast
  note kept = cr_client.status_kept [OF cr_client_traced [OF c] m]
  have j: "lstep (view i) (view ?j)" using p by (simp add: view_def lstep.stopping)
  show ?thesis
  proof (cases r)
    case None
    let ?f = "\<lambda>i1. observe_generation (set_message ''Stopped. Storage preserved.'' (set_phase StatusStopped i1))"
    have f: "finish (traced E) no_requeue (?f i1) (s2, cs2) = ((out, i'), (s', cs))"
      using run m st None by (simp add: reconcileStop_def statusUpdate_def StopVM_def)
    show ?thesis
      by (rule marked_finish [where f = ?f, OF c m ds f j])
        (auto simp: view_def kept lstep.stopped elim: wf_same_phase)
  next
    case (Some e)
    have f: "fail (traced E) i1 ''StopFailed'' e (s2, cs2) = ((out, i'), (s', cs))"
      using run m st Some by (simp add: reconcileStop_def statusUpdate_def StopVM_def)
    show ?thesis
      by (rule marked_fail [OF c m ds f j]) (auto simp: view_def elim: wf_same_phase)
  qed
qed

lemma reconcileStart_handled:
  assumes c: "cr_client E" and p: "phase i = StatusStopped"
    and run: "reconcileStart (traced E) i (s, []) = ((out, i'), (s', cs))"
  shows "handled i out cs"
proof -
  let ?j = "set_phase StatusStarting i"
  obtain err i1 s1 cs1 where m: "StatusUpdate_DBInstance (traced E) ?j (s, []) = ((err, i1), (s1, cs1))"
    by (metis surj_pair)
  obtain r s2 cs2 where st: "setVMRunning (traced E) (ins i) (res_VMName (res i1)) True (s1, cs1) = (r, (s2, cs2))"
    by (metis surj_pair)
  obtain ds where ds: "cs2 = cs1 @ ds" "list_all (provisions [vmGVR]) ds"
    using emits_snd [OF tr.setVMRunning_emits [OF st]] by blast
  note kept = cr_client.status_kept [OF cr_client_traced [OF c] m]
  have j: "lstep (view i) (view ?j)" using p by (simp add: view_def lstep.starting)
  show ?thesis
  proof (cases r)
    case None
    let ?f = "\<lambda>i1. observe_generation (set_message ''Started'' (set_phase StatusAvailable i1))"
    have f: "finish (traced E) no_requeue (?f i1) (s2, cs2) = ((out, i'), (s', cs))"
      using run m st None by (simp add: reconcileStart_def statusUpdate_def StartVM_def)
    show ?thesis
      by (rule marked_finish [where f = ?f, OF c m ds f j])
        (auto simp: view_def kept lstep.started elim: wf_same_phase)
  next
    case (Some e)
    have f: "fail (traced E) i1 ''StartFailed'' e (s2, cs2) = ((out, i'), (s', cs))"
      using run m st Some by (simp add: reconcileStart_def statusUpdate_def StartVM_def)
    show ?thesis
      by (rule marked_fail [OF c m ds f j]) (auto simp: view_def elim: wf_same_phase)
  qed
qed

lemma reconcileModify_handled:
  assumes c: "cr_client E" and p: "phase i = StatusAvailable"
    and run: "reconcileModify (traced E) i (s, []) = ((out, i'), (s', cs))"
  shows "handled i out cs"
proof -
  let ?j = "set_phase StatusModifying i"
  let ?f = "\<lambda>i1. observe_generation (set_message ''Modifications applied'' (set_phase StatusAvailable i1))"
  obtain err i1 s1 cs1 where m: "StatusUpdate_DBInstance (traced E) ?j (s, []) = ((err, i1), (s1, cs1))"
    by (metis surj_pair)
  note kept = cr_client.status_kept [OF cr_client_traced [OF c] m]
  have j: "lstep (view i) (view ?j)" using p by (simp add: view_def lstep.modifying)
  consider (unknown) e where "fail (traced E) i1 ''InvalidClass'' e (s1, cs1) = ((out, i'), (s', cs))"
    | (failed) ns vm cpu mem dv gb r s2 cs2 reason e where
      "resize_both (traced E) ns vm cpu mem dv gb (s1, cs1) = (r, (s2, cs2))"
      "fail (traced E) i1 reason e (s2, cs2) = ((out, i'), (s', cs))"
    | (made) ns vm cpu mem dv gb r s2 cs2 where
      "resize_both (traced E) ns vm cpu mem dv gb (s1, cs1) = (r, (s2, cs2))"
      "finish (traced E) no_requeue (?f i1) (s2, cs2) = ((out, i'), (s', cs))"
    using run m unfolding reconcileModify_def statusUpdate_def
    by (auto split: prod.splits option.splits)
  then show ?thesis
  proof cases
    case unknown
    have "cs1 = cs1 @ []" "list_all (provisions []) []" by simp_all
    then show ?thesis
      by (rule marked_fail [OF c m _ _ unknown j]) (auto simp: view_def elim: wf_same_phase)
  next
    case failed
    obtain ds where ds: "cs2 = cs1 @ ds" "list_all (provisions [vmGVR, dvGVR]) ds"
      using emits_snd [OF tr.resize_both_log [OF failed(1)]] by blast
    show ?thesis
      by (rule marked_fail [OF c m ds failed(2) j]) (auto simp: view_def elim: wf_same_phase)
  next
    case made
    obtain ds where ds: "cs2 = cs1 @ ds" "list_all (provisions [vmGVR, dvGVR]) ds"
      using emits_snd [OF tr.resize_both_log [OF made(1)]] by blast
    show ?thesis
      by (rule marked_finish [where f = ?f, OF c m ds made(2) j])
        (auto simp: view_def kept lstep.modified elim: wf_same_phase)
  qed
qed

lemma reconcileDelete_handled:
  assumes run: "reconcileDelete (traced E) i (s, []) = ((out, i'), (s', cs))"
  shows "handled i out cs"
proof (cases "spec_DeletionProtection (inst_Spec i)")
  case True
  with run obtain r m where "StatusUpdate_DBInstance (traced E) (set_message m i) (s, []) = (r, (s', cs))"
    "out = Return (no_requeue, Some (Errorf ''deletion protection enabled''))"
    unfolding reconcileDelete_def statusUpdate_def by (auto split: prod.splits)
  then show ?thesis
    using tr.StatusUpdate_DBInstance_log
    by (fastforce intro: handled_one simp: view_def lstep.protected elim: wf_same_phase)
next
  case False
  let ?j = "set_message ''Tearing down resources'' (set_phase StatusDeleting i)"
  obtain err i1 s1 cs1 where m: "StatusUpdate_DBInstance (traced E) ?j (s, []) = ((err, i1), (s1, cs1))"
    by (metis surj_pair)
  obtain s2 cs2 where td: "TeardownAll (traced E) (iname i1) (ins i) (res i1) (s1, cs1) = (s2, cs2)"
    by (metis surj_pair)
  obtain k r s3 where u: "Update_DBInstance (traced E) k (s2, cs2) = (r, (s', cs))"
    "\<exists>err. out = Return (no_requeue, err)"
    using run m td False unfolding reconcileDelete_def statusUpdate_def
    by (auto simp: Let_def split: prod.splits)
  obtain ts where ts: "cs2 = cs1 @ map delete_call ts"
    using tr.TeardownAll_log [of E "iname i1" "ins i" "res i1" "(s1, cs1)"] td by auto
  have "writes cs = [?j]"
    using tr.StatusUpdate_DBInstance_log [OF m] tr.Update_DBInstance_log [OF u(1)] ts by simp
  with u(2) show ?thesis
    by (auto intro!: handled_one simp: view_def lstep.deleting elim: wf_same_phase)
qed

section \<open>The contract\<close>

text \<open>
  A handler is enabled on some instances; run there against a client that keeps the laws, it leaves a
  log that is \<open>handled\<close>.
\<close>

locale handler =
  fixes h :: "('s \<times> call list) env \<Rightarrow> DBInstance \<Rightarrow> 's \<times> call list \<Rightarrow> handler_result \<times> ('s \<times> call list)"
    and enabled :: "DBInstance \<Rightarrow> bool"
  assumes contract: "cr_client E \<Longrightarrow> enabled i \<Longrightarrow> h (traced E) i (s, []) = ((out, i'), (s', cs))
    \<Longrightarrow> handled i out cs"
begin

lemma writes_path:
  "cr_client E \<Longrightarrow> enabled i \<Longrightarrow> h (traced E) i (s, []) = ((out, i'), (s', cs))
   \<Longrightarrow> successively lstep (map view (i # writes cs))"
  using contract unfolding handled_def by blast

lemma writes_wf:
  "cr_client E \<Longrightarrow> enabled i \<Longrightarrow> h (traced E) i (s, []) = ((out, i'), (s', cs)) \<Longrightarrow> wf_inst i
   \<Longrightarrow> j \<in> set (writes cs) \<Longrightarrow> wf_inst j"
  using contract unfolding handled_def list_all_iff by blast

lemma no_panic:
  "cr_client E \<Longrightarrow> enabled i \<Longrightarrow> h (traced E) i (s, []) = ((out, i'), (s', cs)) \<Longrightarrow> wf_inst i
   \<Longrightarrow> out \<noteq> Panic"
  using contract unfolding handled_def by blast

end

interpretation network_h: handler phaseNetwork "\<lambda>i. pphase i = [] \<or> pphase i = PhasePending"
  by unfold_locales (rule moved_handled, rule phaseNetwork_moved)

interpretation storage_h: handler phaseStorage "\<lambda>i. pphase i = PhaseNetworkProvisioned"
  by unfold_locales (rule moved_handled, rule phaseStorage_moved)

interpretation vm_h: handler phaseVM "\<lambda>i. pphase i = PhaseStorageProvisioned"
  by unfold_locales (rule moved_handled, rule phaseVM_moved)

interpretation wait_h: handler phaseWaitReady
    "\<lambda>i. pphase i = PhaseVMCreated \<or> pphase i = PhaseWaitingForCloudInit"
  by unfold_locales (rule moved_handled, rule phaseWaitReady_moved)

interpretation monitoring_h: handler phaseMonitoring "\<lambda>i. pphase i = PhaseDatabaseReady"
  by unfold_locales (rule moved_handled, rule phaseMonitoring_moved)

interpretation peering_h: handler phaseVpcPeering "\<lambda>i. pphase i = PhaseMonitoringDeployed"
  by unfold_locales (rule moved_handled, rule phaseVpcPeering_moved)

interpretation available_h: handler phaseAvailable
    "\<lambda>i. pphase i = PhaseVpcPeeringCreated \<or> pphase i = PhaseAvailable"
  by unfold_locales (rule moved_handled, rule phaseAvailable_moved)

interpretation stop_h: handler reconcileStop "\<lambda>i. phase i = StatusAvailable"
  by unfold_locales (rule reconcileStop_handled)

interpretation start_h: handler reconcileStart "\<lambda>i. phase i = StatusStopped"
  by unfold_locales (rule reconcileStart_handled)

interpretation modify_h: handler reconcileModify "\<lambda>i. phase i = StatusAvailable"
  by unfold_locales (rule reconcileModify_handled)

interpretation delete_h: handler reconcileDelete "\<lambda>i. True"
  by unfold_locales (rule reconcileDelete_handled)

lemma provision_handled:
  assumes "cr_client E" and run: "provision (traced E) i (s, []) = ((out, i'), (s', cs))"
  shows "handled i out cs"
proof (cases "prov_of (pphase i) = UnknownPhase \<or> pphase i = PhaseFailed")
  case True
  then have "cs = []" using run
    by (auto simp: provision_def Let_def prov_of_def phase_defs split: if_splits)
  moreover have "\<exists>r. out = Return r" using run True
    by (auto simp: provision_def Let_def prov_of_def phase_defs split: if_splits)
  ultimately show ?thesis by (auto simp: handled_def)
next
  case False
  then show ?thesis
    using run network_h.contract [OF assms(1)] storage_h.contract [OF assms(1)] vm_h.contract [OF assms(1)]
      wait_h.contract [OF assms(1)] monitoring_h.contract [OF assms(1)] peering_h.contract [OF assms(1)]
      available_h.contract [OF assms(1)]
    unfolding provision_def Let_def prov_of_def by (auto split: if_splits)
qed

interpretation provision_h: handler provision "\<lambda>i. True"
  by unfold_locales (rule provision_handled)

lemma reconcile_instance_handled:
  assumes "cr_client E" and run: "reconcile_instance (traced E) i (s, []) = ((out, i'), (s', cs))"
  shows "handled i out cs"
proof -
  consider (gone) "out = Return (no_requeue, None)" "cs = []"
    | (finalizer) r k res where "Update_DBInstance (traced E) k (s, []) = (res, (s', cs))" "out = Return r"
    | (delete) "reconcileDelete (traced E) i (s, []) = ((out, i'), (s', cs))"
    | (stop) "phase i = StatusAvailable" "reconcileStop (traced E) i (s, []) = ((out, i'), (s', cs))"
    | (start) "phase i = StatusStopped" "reconcileStart (traced E) i (s, []) = ((out, i'), (s', cs))"
    | (modify) "phase i = StatusAvailable" "reconcileModify (traced E) i (s, []) = ((out, i'), (s', cs))"
    | (prov) "provision (traced E) i (s, []) = ((out, i'), (s', cs))"
    using run unfolding reconcile_instance_def
    by (auto split: if_splits prod.splits option.splits)
  then show ?thesis
  proof cases
    case gone
    then show ?thesis by (simp add: handled_def)
  next
    case finalizer
    then show ?thesis using tr.Update_DBInstance_log [OF finalizer(1)] by (simp add: handled_def)
  next
    case delete
    then show ?thesis by (rule delete_h.contract [OF assms(1) TrueI])
  next
    case stop
    then show ?thesis by (rule stop_h.contract [OF assms(1)])
  next
    case start
    then show ?thesis by (rule start_h.contract [OF assms(1)])
  next
    case modify
    then show ?thesis by (rule modify_h.contract [OF assms(1)])
  next
    case prov
    then show ?thesis by (rule provision_h.contract [OF assms(1) TrueI])
  qed
qed

interpretation reconcile_h: handler reconcile_instance "\<lambda>i. True"
  by unfold_locales (rule reconcile_instance_handled)

section \<open>Reachable objects\<close>

text \<open>
  The objects a DBInstance can become: it is created with an empty status; users and other
  controllers change anything but its name and its status; the reconciler runs on it, in any state
  of the world, and any one of the status writes of the run may be the last that took effect (the run
  may crash, or a write may be refused).
\<close>

inductive reach :: "'s env \<Rightarrow> DBInstance \<Rightarrow> bool" for E :: "'s env" where
  created: "inst_Status i = zero_status \<Longrightarrow> reach E i"
| edited: "reach E i \<Longrightarrow> iname j = iname i \<Longrightarrow> ins j = ins i \<Longrightarrow> inst_Status j = inst_Status i
    \<Longrightarrow> reach E j"
| reconciled: "reach E i \<Longrightarrow> reconcile_instance (traced E) i (s, []) = ((out, i'), (s', cs))
    \<Longrightarrow> j \<in> set (writes cs) \<Longrightarrow> reach E j"

lemma reach_wf:
  assumes "cr_client E" "reach E i"
  shows "wf_inst i"
  using assms(2)
proof induction
  case (created i)
  then show ?case
    by (simp add: wf_inst_def zero_status_def zero_res_def owned_def)
next
  case (edited i j)
  then show ?case by (simp add: wf_inst_def)
next
  case (reconciled i s out i' s' cs j)
  then show ?case using reconcile_h.writes_wf [OF assms(1) TrueI] by blast
qed

text \<open>
  C1: every status write of a reconcile is a step of the abstract machine: starting from the
  instance as it was read, the successive pairs of status and provisioning phase follow \<open>lstep\<close>.
\<close>

theorem status_refinement:
  assumes "cr_client E" and "reconcile_instance (traced E) i (s, []) = ((out, i'), (s', cs))"
  shows "successively lstep (map view (i # writes cs))"
  using reconcile_h.writes_path [OF assms(1) TrueI assms(2)] .

text \<open>An instance that names a network of its own, at its first provisioning step.\<close>

definition sample_inst :: DBInstance where
  "sample_inst = zero_instance\<lparr>
     inst_ObjectMeta := zero_meta\<lparr>m_Name := ''db'', m_Namespace := ''team-a'', m_Generation := 1,
       m_Finalizers := [FinalizerName]\<rparr>,
     inst_Spec := zero_spec\<lparr>spec_DBInstanceClass := ''db.t3.micro'', spec_NetworkRef := ''team-a/net''\<rparr>\<rparr>"

definition sample_cluster :: cluster where
  "sample_cluster = empty_cluster\<lparr>cl_insts := [sample_inst]\<rparr>"

definition sample_network :: DBInstance where
  "sample_network = set_message ''Using existing network team-a/net''
     (set_pphase PhaseNetworkProvisioned
       (set_res (\<lambda>r. r\<lparr>res_NADName := ''team-a/net''\<rparr>) (set_phase StatusCreating sample_inst)))"

lemma sample_run:
  "fst (fst (reconcile_instance (traced ref_env) sample_inst (sample_cluster, [])))
     = Return (requeue_now, None)"
  "snd (snd (reconcile_instance (traced ref_env) sample_inst (sample_cluster, [])))
     = [CInstStatus sample_network]"
  by code_simp+

lemma sample_reconcile:
  "\<exists>i' s'. reconcile_instance (traced ref_env) sample_inst (sample_cluster, [])
     = ((Return (requeue_now, None), i'), (s', [CInstStatus sample_network]))"
  using sample_run by (metis surjective_pairing)

theorem status_refinement_witness:
  "lstep (view sample_inst) (view sample_network) \<and> view sample_network = (Creating, NetworkUp)"
proof -
  obtain i' s' where "reconcile_instance (traced ref_env) sample_inst (sample_cluster, [])
     = ((Return (requeue_now, None), i'), (s', [CInstStatus sample_network]))"
    using sample_reconcile by blast
  from status_refinement [OF ref_client.cr_client_axioms this]
  show ?thesis by (simp add: view_def sample_network_def)
qed

text \<open>
  C4: every reachable object is well-formed: its provisioning phase is a known one, each resource
  it records carries the name the instance gives it, and whatever the phases before the present
  one had to provide is recorded.
\<close>

theorem reachable_wf:
  assumes "cr_client E" and "reach E i"
  shows "wf_inst i"
  by (rule reach_wf [OF assms])

lemma reach_sample: "reach ref_env sample_network"
proof -
  obtain i' s' where r: "reconcile_instance (traced ref_env) sample_inst (sample_cluster, [])
     = ((Return (requeue_now, None), i'), (s', [CInstStatus sample_network]))"
    using sample_reconcile by blast
  have "reach ref_env sample_inst"
    by (rule reach.created) (simp add: sample_inst_def zero_instance_def)
  from reach.reconciled [OF this r] show ?thesis by simp
qed

theorem reachable_wf_witness: "wf_inst sample_network \<and> res_NADName (res sample_network) \<noteq> []"
  using reachable_wf [OF ref_client.cr_client_axioms reach_sample]
  by (simp add: sample_network_def)

text \<open>
  C5: the reconciler never panics on a reachable object. (\<open>phaseMonitoring\<close> dereferences the endpoint
  without a check; by the invariant it is there.)
\<close>

theorem reconcile_no_panic:
  assumes "cr_client E" and "reach E i"
  shows "fst (fst (reconcile_instance (traced E) i (s, []))) \<noteq> Panic"
proof -
  obtain out i' s' cs where r: "reconcile_instance (traced E) i (s, []) = ((out, i'), (s', cs))"
    by (metis surj_pair)
  show ?thesis
    using reconcile_h.no_panic [OF assms(1) TrueI r reach_wf [OF assms]] by (simp add: r)
qed

theorem reconcile_no_panic_witness:
  "fst (fst (reconcile_instance (traced ref_env) sample_network (sample_cluster, []))) \<noteq> Panic"
  by (rule reconcile_no_panic [OF ref_client.cr_client_axioms reach_sample])

end
