(* ===== verification/InstanceProps.thy ===== *)
theory InstanceProps
  imports Lifecycle
begin

text \<open>
  Properties of the DBInstance reconciler that rest on the lifecycle: progress and bounded length of
  provisioning, deletion and its protection, what a failed or a stopped instance does, and what
  repeated runs leave alone.
\<close>

section \<open>Progress\<close>

lemma provision_moved:
  assumes "prov_of (pphase i) \<noteq> UnknownPhase" "prov_of (pphase i) \<noteq> ProvFailed"
    and run: "provision (traced E) i (s, []) = ((out, i'), (s', cs))"
  shows "moved i out cs"
proof -
  have "pphase i \<noteq> PhaseFailed" using assms(2) by auto
  with assms(1) run show ?thesis
    unfolding provision_def Let_def prov_of_def
    by (auto split: if_splits intro: phaseNetwork_moved phaseStorage_moved phaseVM_moved
        phaseWaitReady_moved phaseMonitoring_moved phaseVpcPeering_moved phaseAvailable_moved)
qed

text \<open>An instance that is being provisioned, and nothing else is asked of it.\<close>

definition in_provisioning :: "DBInstance \<Rightarrow> bool" where
  "in_provisioning i =
     (m_DeletionTimestamp (inst_ObjectMeta i) = None \<and> FinalizerName \<in> set (m_Finalizers (inst_ObjectMeta i))
      \<and> phase i \<noteq> StatusStopped
      \<and> (phase i = StatusAvailable \<longrightarrow> spec_Running (inst_Spec i) \<noteq> Some False
           \<and> m_Generation (inst_ObjectMeta i) = st_ObservedGeneration (inst_Status i)))"

lemma in_provisioning_run:
  assumes "cr_client E" "in_provisioning i"
  shows "reconcile_instance (traced E) i w = provision (traced E) i w"
proof -
  have "ContainsFinalizer E (m_Finalizers (inst_ObjectMeta i)) FinalizerName"
    using assms cr_client.contains_iff by (auto simp: in_provisioning_def)
  with assms(2) show ?thesis by (auto simp: reconcile_instance_def in_provisioning_def)
qed

text \<open>
  C2: one reconcile of an instance in provisioning writes the status exactly once, changing neither
  specification nor metadata, and that write either reaches the next phase, or reports a failure, or
  waits for the VM, or refreshes a complete instance.
\<close>

theorem provisioning_progress:
  assumes "cr_client E" and "wf_inst i" and "in_provisioning i" and "pphase i \<noteq> PhaseFailed"
    and "reconcile_instance (traced E) i (s, []) = ((out, i'), (s', cs))"
  shows "\<exists>j. writes cs = [j] \<and> inst_Spec j = inst_Spec i \<and> inst_ObjectMeta j = inst_ObjectMeta i
     \<and> (prov_of (pphase j) = ProvFailed
        \<or> rank (prov_of (pphase j)) = Suc (rank (prov_of (pphase i)))
        \<or> rank (prov_of (pphase j)) = rank (prov_of (pphase i))
          \<and> prov_of (pphase i) \<in> {VMUp, Waiting, Provisioned})"
proof -
  have known: "prov_of (pphase i) \<noteq> UnknownPhase" using assms(2) by (simp add: wf_inst_def)
  have "prov_of (pphase i) \<noteq> ProvFailed" using assms(4) by (auto simp: prov_of_def split: if_splits)
  with known assms(5) have "moved i out cs"
    by (auto simp: in_provisioning_run [OF assms(1,3)] intro: provision_moved)
  then show ?thesis
    using assms(2) unfolding moved_def view_def by (auto dest!: pstep_progress)
qed

theorem provisioning_progress_witness:
  "rank (prov_of (pphase sample_network)) = Suc (rank (prov_of (pphase sample_inst)))"
proof -
  have wf: "wf_inst sample_inst"
    by (rule reach_wf [OF ref_client.cr_client_axioms reach.created])
      (simp add: sample_inst_def zero_instance_def)
  have p: "in_provisioning sample_inst" "pphase sample_inst \<noteq> PhaseFailed"
    by (simp_all add: in_provisioning_def sample_inst_def zero_instance_def zero_meta_def zero_status_def
        status_defs phase_defs)
  obtain i' s' where r: "reconcile_instance (traced ref_env) sample_inst (sample_cluster, [])
     = ((Return (requeue_now, None), i'), (s', [CInstStatus sample_network]))"
    using sample_reconcile by blast
  from provisioning_progress [OF ref_client.cr_client_axioms wf p r] show ?thesis
    by (simp add: sample_network_def sample_inst_def zero_instance_def zero_status_def)
qed

text \<open>
  \<open>runs E i n w j\<close>: \<open>n\<close> reconciles in a row, each on what the one before wrote, none of them failing,
  lead from \<open>i\<close> to \<open>j\<close>; \<open>w\<close> of them were waits.
\<close>

inductive runs :: "'s env \<Rightarrow> DBInstance \<Rightarrow> nat \<Rightarrow> nat \<Rightarrow> DBInstance \<Rightarrow> bool" for E :: "'s env" and i where
  start: "runs E i 0 0 i"
| step: "runs E i n w j \<Longrightarrow> reconcile_instance (traced E) j (s, []) = (r, (s', cs)) \<Longrightarrow> writes cs = [k]
    \<Longrightarrow> pphase k \<noteq> PhaseFailed
    \<Longrightarrow> runs E i (Suc n)
          (if rank (prov_of (pphase k)) = rank (prov_of (pphase j)) then Suc w else w) k"

definition fresh :: "DBInstance \<Rightarrow> bool" where
  "fresh i =
     (inst_Status i = zero_status \<and> m_DeletionTimestamp (inst_ObjectMeta i) = None
      \<and> FinalizerName \<in> set (m_Finalizers (inst_ObjectMeta i)) \<and> spec_Running (inst_Spec i) \<noteq> Some False)"

lemma rank_bound: "rank p \<le> 7" and rank_7: "7 \<le> rank p \<Longrightarrow> p = Provisioned"
  by (cases p; simp)+

lemma stat_of_iff:
  "stat_of s = Available \<longleftrightarrow> s = StatusAvailable" "stat_of s = Stopped \<longleftrightarrow> s = StatusStopped"
  "stat_of s = Creating \<longleftrightarrow> s = StatusCreating"
  by (auto simp: stat_of_def status_defs)

lemma prov_of_iff: "prov_of p = Provisioned \<longleftrightarrow> p = PhaseAvailable" "prov_of p = ProvFailed \<longleftrightarrow> p = PhaseFailed"
  by (auto simp: prov_of_def phase_defs)

text \<open>What holds all along such a sequence.\<close>

definition on_track :: "DBInstance \<Rightarrow> nat \<Rightarrow> nat \<Rightarrow> DBInstance \<Rightarrow> bool" where
  "on_track i n w j =
     (inst_ObjectMeta j = inst_ObjectMeta i \<and> inst_Spec j = inst_Spec i \<and> wf_inst j
      \<and> prov_of (pphase j) \<noteq> ProvFailed \<and> n \<le> rank (prov_of (pphase j)) + w
      \<and> (if prov_of (pphase j) = Provisioned
         then phase j = StatusAvailable
              \<and> st_ObservedGeneration (inst_Status j) = m_Generation (inst_ObjectMeta j)
         else stat_of (phase j) \<in> {NoStatus, Creating}))"

lemma pstep_status:
  "pstep (a, p) (b, q) \<Longrightarrow> q \<noteq> ProvFailed \<Longrightarrow> if q = Provisioned then b = Available
     else if a = NoStatus \<and> p = Pending then b = Creating else b = a"
  by (erule pstepE) auto

lemma on_track_provisioning: "fresh i \<Longrightarrow> on_track i n w j \<Longrightarrow> in_provisioning j"
  by (auto simp: on_track_def in_provisioning_def fresh_def status_defs stat_of_iff split: if_splits)

lemma runs_on_track:
  assumes "cr_client E" "fresh i" "runs E i n w j"
  shows "on_track i n w j"
  using assms(3)
proof induction
  case start
  have "wf_inst i" using assms by (blast intro: reach_wf reach.created dest: fresh_def [THEN iffD1])
  with assms(2) show ?case
    by (simp add: on_track_def fresh_def zero_status_def)
next
  case (step n w j s r s' cs k)
  note tr = step.IH [unfolded on_track_def]
  have prov: "in_provisioning j" by (rule on_track_provisioning [OF assms(2) step.IH])
  have known: "prov_of (pphase j) \<noteq> UnknownPhase" using tr by (simp add: wf_inst_def)
  obtain out i' where r: "r = (out, i')" by (metis surj_pair)
  have m: "moved j out cs"
    using step.hyps(2) tr known
    by (auto simp: in_provisioning_run [OF assms(1) prov] r intro: provision_moved)
  with step.hyps(3) tr have k: "pstep (view j) (view k)" "inst_ObjectMeta k = inst_ObjectMeta j"
    "inst_Spec k = inst_Spec j" "wf_inst k"
    "pphase k = PhaseAvailable \<Longrightarrow> st_ObservedGeneration (inst_Status k) = m_Generation (inst_ObjectMeta k)"
    by (auto simp: moved_def)
  have nf: "prov_of (pphase k) \<noteq> ProvFailed" using step.hyps(4) by (simp add: prov_of_iff)
  note mv = pstep_progress [OF k(1) [unfolded view_def]] pstep_status [OF k(1) [unfolded view_def] nf]
  have "rank (prov_of (pphase k)) = 7 \<Longrightarrow> pphase k = PhaseAvailable"
    using rank_7 [of "prov_of (pphase k)"] by (simp add: prov_of_iff)
  then show ?case
    using tr k nf mv rank_bound [of "prov_of (pphase k)"]
    by (auto simp: on_track_def stat_of_iff prov_of_iff split: if_splits)
qed

text \<open>
  C3: provisioning is bounded: after \<open>7 + w\<close> reconciles that did not fail, \<open>w\<close> of which had to wait
  for the VM (or found the instance complete), a new instance is available, with the generation of
  its specification recorded as observed.
\<close>

theorem provisioning_bounded:
  assumes "cr_client E" and "fresh i" and "runs E i n w j" and "7 + w \<le> n"
  shows "pphase j = PhaseAvailable \<and> phase j = StatusAvailable
     \<and> st_ObservedGeneration (inst_Status j) = m_Generation (inst_ObjectMeta j)"
proof -
  note tr = runs_on_track [OF assms(1-3), unfolded on_track_def]
  with assms(4) have "prov_of (pphase j) = Provisioned" by (intro rank_7) linarith
  with tr show ?thesis by (simp add: prov_of_iff)
qed

section \<open>A run on the cluster in memory\<close>

definition ready_cluster :: cluster where
  "ready_cluster = empty_cluster\<lparr>cl_objs :=
     [((vmImageGVR, ''default'', ''ubuntu-22-04''), sample_image),
      ((secretGVR, ''team-a'', ''pg-db-credentials''), JMap []),
      ((dvGVR, ''team-a'', ''pg-db-data''), JMap []),
      ((vmGVR, ''team-a'', ''pg-db''), sample_vm),
      ((vmiGVR, ''team-a'', ''pg-db''), sample_vmi)],
     cl_insts := [sample_inst], cl_now := 200000000000\<rparr>"

lemma jname_new: "jname (newUnstructured ref_env v k n ns) = n"
  by (simp add: newUnstructured_def ref_env_def jname_def jset_def Let_def)

lemma jname_put: "apart p [''metadata'', ''name''] \<Longrightarrow> jname (SetNestedField ref_env j v p) = jname j"
  using ref_objects.get_put_apart [of p "[''metadata'', ''name'']" j v]
  by (simp add: jname_def ref_env_def)

lemma jname_labels: "jname (SetLabels ref_env j l) = jname j"
  using ju.get_put_apart [of "[''metadata'', ''labels'']" "[''metadata'', ''name'']" j]
  by (simp add: jname_def ref_env_def apart_def)

lemma jname_objects:
  "jname (secret_object ref_env p a b c d tls ssh s3) = secret_name (p_ID p)"
  "jname (vm_object ref_env p x y z) = vm_name (p_ID p)"
  "jname (dv_object ref_env ident ns gb cls) = dv_name ident"
  by (simp_all add: secret_object_def vm_object_def dv_object_def Let_def jname_put jname_labels jname_new apart_def)

lemma ref_create_tolerant: "fst (create_tolerant (traced ref_env) g ns obj w) = None"
  by (simp add: create_tolerant_def traced_def ref_env_def record_call_def ref_create_def
      ignoreAlreadyExists_def already_exists_def IsAlreadyExists_def split: option.splits prod.splits)

lemma ref_keygen:
  "\<exists>tls w'. generateTLS (traced ref_env) cn w = (Inr tls, w') \<and> cl_objs (fst w') = cl_objs (fst w)"
  "\<exists>k w'. generateSSHKeyPair (traced ref_env) w = (Inr k, w') \<and> cl_objs (fst w') = cl_objs (fst w)"
  "\<exists>r. randomString (traced ref_env) n w = (r, w)"
  by (simp_all add: generateTLS_def issueServerCert_def generateSSHKeyPair_def randomString_def
      traced_def ref_env_def lift_call_def Let_def)

lemma ref_ops:
  "Dyn_Get (traced ref_env) g n k w
     = (fst (ref_get g n k (fst w)), (snd (ref_get g n k (fst w)), snd w @ [CGet g n k]))"
  "Dyn_Create (traced ref_env) g n j w
     = (fst (ref_create g n j (fst w)), (snd (ref_create g n j (fst w)), snd w @ [CCreate g n j]))"
  "NestedField ref_env = jget" "SetNestedField ref_env = jset" "GetCreationTimestamp ref_env j = 0"
  by (simp_all add: traced_def ref_env_def record_call_def split_beta)

lemma ref_resolve:
  assumes "map_of (cl_objs (fst w)) (vmImageGVR, ''default'', ''ubuntu-22-04'') = Some sample_image"
  shows "\<exists>n w'. resolveVMImage (traced ref_env) ''ubuntu-22-04'' w = ((''default'', n, ''lh-image-1'', None), w')"
  using assms
  by (simp add: resolveVMImage_def image_ref_def image_class_def NestedString_def ref_ops ref_get_def)
    (simp add: sample_image_def)

lemma ref_vm_created:
  assumes "map_of (cl_objs (fst w)) (vmImageGVR, ''default'', ''ubuntu-22-04'') = Some sample_image"
    and "map_of (cl_objs (fst w)) (secretGVR, p_Namespace p, secret_name (p_ID p)) = Some x"
    and "p_OSImage p = ''ubuntu-22-04''" "p_S3Config p = None"
  shows "\<exists>v n ca w'. CreatePostgresVM (traced ref_env) p w = ((v, n, ca, None), w')"
proof -
  obtain a1 a3 a4 where rs: "randomString (traced ref_env) 32 w = (a1, w)"
    "randomString (traced ref_env) 24 w = (a3, w)" "randomString (traced ref_env) 64 w = (a4, w)"
    using ref_keygen(3) by metis
  obtain tls w1 where tls: "generateTLS (traced ref_env) (vm_name (p_ID p)) w = (Inr tls, w1)"
    "cl_objs (fst w1) = cl_objs (fst w)" using ref_keygen(1) by blast
  obtain k w2 where ssh: "generateSSHKeyPair (traced ref_env) w1 = (Inr k, w2)"
    "cl_objs (fst w2) = cl_objs (fst w1)" using ref_keygen(2) by blast
  let ?sec = "secret_object (traced ref_env) p a1 a1 a3 a4 tls k None"
  have "jname ?sec = secret_name (p_ID p)"
    using jname_objects(1) by (simp add: secret_object_def)
  with assms(2) tls(2) ssh(2) obtain w3 where
    sec: "create_tolerant (traced ref_env) secretGVR (p_Namespace p) ?sec w2 = (None, w3)"
      "cl_objs (fst w3) = cl_objs (fst w2)"
    by (simp add: create_tolerant_def ref_ops ref_create_def
        ignoreAlreadyExists_def already_exists_def IsAlreadyExists_def)
  from assms(1) tls(2) ssh(2) sec(2) obtain n w4 where
    img: "resolveVMImage (traced ref_env) ''ubuntu-22-04'' w3 = ((''default'', n, ''lh-image-1'', None), w4)"
    using ref_resolve [of w3] by auto
  obtain w5 where vm: "create_tolerant (traced ref_env) vmGVR (p_Namespace p)
      (vm_object (traced ref_env) p ''default'' n ''lh-image-1'') w4 = (None, w5)"
    using ref_create_tolerant by (metis prod.collapse)
  have "resolve_s3 (traced ref_env) p w2 = (Inr None, w2)"
    using assms(4) by (simp add: resolve_s3_def)
  with rs tls ssh sec img vm assms(3) show ?thesis
    by (simp add: CreatePostgresVM_def create_secret_and_vm_def Let_def)
qed

lemma ref_storage:
  assumes "phaseStorage (traced ref_env) i (s, []) = ((out, i'), (s', cs))"
  shows "\<exists>k. writes cs = [k] \<and> pphase k = PhaseStorageProvisioned"
proof -
  obtain d s1 cs1 where c: "CreateDataVolume (traced ref_env) (iname i) (ins i) (spec_AllocatedStorage (inst_Spec i))
      (orDefault (spec_StorageType (inst_Spec i)) ''longhorn'') (s, []) = ((d, None), (s1, cs1))"
    using ref_create_tolerant by (simp add: CreateDataVolume_def split_beta) (metis surjective_pairing)
  show ?thesis
    using assms tr.CreateDataVolume_log [OF c]
    by (auto simp: phaseStorage_def c split: if_splits dest!: tr.advance_log)
qed

lemma ref_vm:
  assumes "phaseVM (traced ref_env) i (ready_cluster, []) = ((out, i'), (s', cs))"
    and "inst_ObjectMeta i = inst_ObjectMeta sample_inst" "inst_Spec i = inst_Spec sample_inst"
  shows "\<exists>k. writes cs = [k] \<and> pphase k = PhaseVMCreated"
proof -
  obtain cls where cls: "map_of InstanceClasses (spec_DBInstanceClass (inst_Spec i)) = Some cls"
    by (simp add: assms sample_inst_def zero_spec_def InstanceClasses_def)
  have p: "p_ID (vm_params i cls) = ''db''" "p_Namespace (vm_params i cls) = ''team-a''"
    "p_OSImage (vm_params i cls) = ''ubuntu-22-04''" "p_S3Config (vm_params i cls) = None"
    by (simp_all add: vm_params_def Let_def assms sample_inst_def zero_spec_def zero_meta_def orDefault_def)
  obtain v n ca s1 cs1 where c: "CreatePostgresVM (traced ref_env) (vm_params i cls) (ready_cluster, [])
      = ((v, n, ca, None), (s1, cs1))"
    using ref_vm_created [of "(ready_cluster, [])" "vm_params i cls" "JMap []"] p
    by (auto simp: ready_cluster_def empty_cluster_def gvr_defs secret_name_def)
  show ?thesis
    using assms(1) tr.CreatePostgresVM_emits [OF c]
    by (auto simp: phaseVM_def cls c tr_emits split: if_splits dest!: tr.finish_log)
qed

lemma ref_wait:
  assumes "phaseWaitReady (traced ref_env) i (ready_cluster, []) = ((out, i'), (s', cs))"
    and "ins i = ''team-a''" "res_VMName (res i) = ''pg-db''"
  shows "\<exists>k. writes cs = [k] \<and> pphase k = PhaseDatabaseReady"
proof -
  have g: "Dyn_Get (traced ref_env) vmiGVR ''team-a'' ''pg-db'' (ready_cluster, [])
      = (Inr sample_vmi, (ready_cluster, [CGet vmiGVR ''team-a'' ''pg-db'']))"
    by (simp add: ref_ops ref_get_def ready_cluster_def empty_cluster_def gvr_defs)
  obtain s2 l2 where t: "Time_Now (traced ref_env) (ready_cluster, [CGet vmiGVR ''team-a'' ''pg-db'']) = (200000000000, (s2, l2))"
    by (simp add: traced_def ref_env_def lift_call_def ready_cluster_def)
  obtain rd s1 cs1 where r: "GetVMIReadiness (traced ref_env) ''team-a'' ''pg-db'' (ready_cluster, [])
      = ((rd, None), (s1, cs1))" "rd_Running rd" "rd_IP rd = ''10.101.3.4''" "rd_Ready rd"
    using g t by (simp add: GetVMIReadiness_def NestedString_def NestedSlice_def ref_ops Let_def vmiPhaseRunning_def)
      (auto simp: sample_vmi_def iface_str_def Let_def ref_ops)
  show ?thesis
    using assms(1) r tr.GetVMIReadiness_log [OF r(1)]
    by (auto simp: phaseWaitReady_def assms(2,3) split: if_splits dest!: tr.advance_log)
qed

text \<open>From an instance on track, one more reconcile; and the last three phases, which cannot fail.\<close>

lemma runs_extend:
  assumes "cr_client E" "fresh i" "runs E i n 0 j"
  shows "\<exists>out i' s' cs k. provision (traced E) j (s, []) = ((out, i'), (s', cs)) \<and> writes cs = [k]
     \<and> pstep (view j) (view k)
     \<and> (prov_of (pphase k) \<noteq> ProvFailed \<and> rank (prov_of (pphase k)) \<noteq> rank (prov_of (pphase j))
        \<longrightarrow> runs E i (Suc n) 0 k)"
proof -
  note tr = runs_on_track [OF assms, unfolded on_track_def]
  have prov: "in_provisioning j" by (rule on_track_provisioning [OF assms(2) runs_on_track [OF assms]])
  obtain out i' s' cs where r: "reconcile_instance (traced E) j (s, []) = ((out, i'), (s', cs))"
    by (metis surj_pair)
  then have p: "provision (traced E) j (s, []) = ((out, i'), (s', cs))"
    by (simp add: in_provisioning_run [OF assms(1) prov])
  have "moved j out cs" using p tr by (intro provision_moved) (auto simp: wf_inst_def)
  then obtain k where k: "writes cs = [k]" "pstep (view j) (view k)" using tr by (auto simp: moved_def)
  have "runs E i (Suc n) 0 k"
    if "prov_of (pphase k) \<noteq> ProvFailed" "rank (prov_of (pphase k)) \<noteq> rank (prov_of (pphase j))"
    using runs.step [OF assms(3) r k(1)] that by (simp add: prov_of_iff)
  with p k show ?thesis by blast
qed

lemma runs_next:
  assumes "cr_client E" "fresh i" "runs E i n 0 j" "prov_of (pphase j) \<in> {DBReady, Monitored, Peered}"
  shows "\<exists>k. runs E i (Suc n) 0 k \<and> rank (prov_of (pphase k)) = Suc (rank (prov_of (pphase j)))"
proof -
  obtain k where k: "pstep (view j) (view k)"
    "prov_of (pphase k) \<noteq> ProvFailed \<Longrightarrow> rank (prov_of (pphase k)) \<noteq> rank (prov_of (pphase j)) \<Longrightarrow>
       runs E i (Suc n) 0 k"
    using runs_extend [OF assms(1-3)] by metis
  from k(1) assms(4) have "prov_of (pphase k) \<noteq> ProvFailed"
    "rank (prov_of (pphase k)) = Suc (rank (prov_of (pphase j)))"
    by (auto simp: view_def elim!: pstepE)
  with k(2) show ?thesis by auto
qed

lemma prov_of_rank:
  "rank p = 5 \<longleftrightarrow> p = Monitored" "rank p = 6 \<longleftrightarrow> p = Peered"
  by (cases p; simp)+

lemma runs_tail:
  assumes "cr_client E" "fresh i" "runs E i n 0 j" "prov_of (pphase j) = DBReady"
  shows "\<exists>k. runs E i (Suc (Suc (Suc n))) 0 k"
proof -
  obtain j5 where j5: "runs E i (Suc n) 0 j5" "prov_of (pphase j5) = Monitored"
    using runs_next [OF assms(1-3)] assms(4) prov_of_rank by auto
  then obtain j6 where "runs E i (Suc (Suc n)) 0 j6" "prov_of (pphase j6) = Peered"
    using runs_next [OF assms(1,2) j5(1)] prov_of_rank by auto
  with runs_next [OF assms(1,2), of "Suc (Suc n)" j6] show ?thesis by auto
qed

lemma wf_vm: "wf_inst i \<Longrightarrow> 3 \<le> rank (prov_of (pphase i)) \<Longrightarrow> res_VMName (res i) = vm_name (iname i)"
  by (auto simp: wf_inst_def owned_def reached_def split: if_splits)

lemma sample_fresh: "fresh sample_inst"
  by (simp add: fresh_def sample_inst_def zero_instance_def zero_meta_def zero_spec_def)

lemma sample_storage: "\<exists>j. runs ref_env sample_inst 2 0 j \<and> pphase j = PhaseStorageProvisioned"
proof -
  obtain i' s' where r1: "reconcile_instance (traced ref_env) sample_inst (sample_cluster, [])
     = ((Return (requeue_now, None), i'), (s', [CInstStatus sample_network]))"
    using sample_reconcile by blast
  have ph: "pphase sample_inst = []" "pphase sample_network = PhaseNetworkProvisioned"
    "PhaseNetworkProvisioned \<noteq> PhaseFailed"
    by (simp_all add: sample_inst_def zero_instance_def zero_status_def sample_network_def phase_defs)
  have s1: "runs ref_env sample_inst 1 0 sample_network"
    using runs.step [OF runs.start r1] ph by simp
  obtain out i' s' cs j where
    p: "provision (traced ref_env) sample_network (ready_cluster, []) = ((out, i'), (s', cs))" "writes cs = [j]"
      "prov_of (pphase j) \<noteq> ProvFailed \<and> rank (prov_of (pphase j)) \<noteq> rank (prov_of (pphase sample_network))
       \<longrightarrow> runs ref_env sample_inst (Suc 1) 0 j"
    using runs_extend [OF ref_client.cr_client_axioms sample_fresh s1] by blast
  have "phaseStorage (traced ref_env) sample_network (ready_cluster, []) = ((out, i'), (s', cs))"
    using p(1) ph by (simp add: provision_def phase_defs)
  with ref_storage p(2) have "pphase j = PhaseStorageProvisioned" by fastforce
  with p(3) ph show ?thesis by (auto simp: numeral_2_eq_2)
qed

lemma sample_created: "\<exists>j. runs ref_env sample_inst 3 0 j \<and> pphase j = PhaseVMCreated"
proof -
  obtain j where s: "runs ref_env sample_inst 2 0 j" "pphase j = PhaseStorageProvisioned"
    using sample_storage by blast
  note t = runs_on_track [OF ref_client.cr_client_axioms sample_fresh s(1), unfolded on_track_def]
  obtain out i' s' cs k where
    p: "provision (traced ref_env) j (ready_cluster, []) = ((out, i'), (s', cs))" "writes cs = [k]"
      "prov_of (pphase k) \<noteq> ProvFailed \<and> rank (prov_of (pphase k)) \<noteq> rank (prov_of (pphase j))
       \<longrightarrow> runs ref_env sample_inst (Suc 2) 0 k"
    using runs_extend [OF ref_client.cr_client_axioms sample_fresh s(1)] by blast
  have "phaseVM (traced ref_env) j (ready_cluster, []) = ((out, i'), (s', cs))"
    using p(1) s(2) by (simp add: provision_def phase_defs)
  with ref_vm p(2) t have "pphase k = PhaseVMCreated" by fastforce
  with p(3) s(2) show ?thesis by (auto simp: eval_nat_numeral)
qed

lemma sample_ready: "\<exists>j. runs ref_env sample_inst 4 0 j \<and> pphase j = PhaseDatabaseReady"
proof -
  obtain j where s: "runs ref_env sample_inst 3 0 j" "pphase j = PhaseVMCreated"
    using sample_created by blast
  note t = runs_on_track [OF ref_client.cr_client_axioms sample_fresh s(1), unfolded on_track_def]
  have j: "ins j = ''team-a''" "res_VMName (res j) = ''pg-db''"
    using t s(2) wf_vm [of j] by (simp_all add: sample_inst_def zero_meta_def vm_name_def)
  obtain out i' s' cs k where
    p: "provision (traced ref_env) j (ready_cluster, []) = ((out, i'), (s', cs))" "writes cs = [k]"
      "prov_of (pphase k) \<noteq> ProvFailed \<and> rank (prov_of (pphase k)) \<noteq> rank (prov_of (pphase j))
       \<longrightarrow> runs ref_env sample_inst (Suc 3) 0 k"
    using runs_extend [OF ref_client.cr_client_axioms sample_fresh s(1)] by blast
  have "phaseWaitReady (traced ref_env) j (ready_cluster, []) = ((out, i'), (s', cs))"
    using p(1) s(2) by (simp add: provision_def phase_defs)
  with ref_wait p(2) j have "pphase k = PhaseDatabaseReady" by fastforce
  with p(3) s(2) show ?thesis by (auto simp: eval_nat_numeral)
qed

lemma sample_available: "\<exists>j. runs ref_env sample_inst 7 0 j"
proof -
  obtain j where s: "runs ref_env sample_inst 4 0 j" "pphase j = PhaseDatabaseReady"
    using sample_ready by blast
  have "Suc (Suc (Suc 4)) = (7::nat)" by simp
  with runs_tail [OF ref_client.cr_client_axioms sample_fresh s(1)] s(2) show ?thesis by simp
qed

theorem provisioning_bounded_witness:
  "\<exists>j. runs ref_env sample_inst 7 0 j \<and> pphase j = PhaseAvailable \<and> phase j = StatusAvailable"
proof -
  obtain j where "runs ref_env sample_inst 7 0 j" using sample_available by blast
  with provisioning_bounded [OF ref_client.cr_client_axioms sample_fresh this] show ?thesis by auto
qed

section \<open>Deletion\<close>

text \<open>The calls of a deletion.\<close>

lemma delete_calls:
  assumes "cr_client E" "m_DeletionTimestamp (inst_ObjectMeta i) \<noteq> None"
    "FinalizerName \<in> set (m_Finalizers (inst_ObjectMeta i))" "\<not> spec_DeletionProtection (inst_Spec i)"
    "reconcile_instance (traced E) i (s, []) = ((out, i'), (s', cs))"
  shows "\<exists>j ts k. cs = CInstStatus j # map delete_call ts @ [CInstUpdate k]
     \<and> phase j = StatusDeleting \<and> mset ts = mset (teardown_tasks (ins i) (res i))
     \<and> FinalizerName \<notin> set (m_Finalizers (inst_ObjectMeta k))"
proof -
  have r: "reconcileDelete (traced E) i (s, []) = ((out, i'), (s', cs))"
    using assms(2-) by (simp add: reconcile_instance_def cr_client.contains_iff [OF assms(1)] split: if_splits)
  let ?j = "set_message ''Tearing down resources'' (set_phase StatusDeleting i)"
  obtain err1 i1 s1 ts where d: "StatusUpdate_DBInstance (traced E) ?j (s, []) = ((err1, i1), s1)"
    "mset ts = mset (teardown_tasks (ins i) (res i1))"
    "cs = CInstStatus ?j # map delete_call ts
       @ [CInstUpdate (set_finalizers (RemoveFinalizer (traced E) (m_Finalizers (inst_ObjectMeta i1)) FinalizerName) i1)]"
    using tr.reconcileDelete_log [OF assms(4) r] by auto
  note kept = cr_client.status_kept [OF cr_client_traced [OF assms(1)] d(1)]
  have "phase ?j = StatusDeleting" by simp
  moreover have "mset ts = mset (teardown_tasks (ins i) (res i))" using d(1,2) kept(1) by simp
  moreover have "FinalizerName \<notin> set (m_Finalizers (inst_ObjectMeta
      (set_finalizers (RemoveFinalizer (traced E) (m_Finalizers (inst_ObjectMeta i1)) FinalizerName) i1)))"
    using cr_client.remove_set [OF assms(1)] by (simp add: set_finalizers_def)
  ultimately show ?thesis using d(3) by blast
qed

text \<open>
  C7: deleting an instance without protection first marks it as being deleted, then issues in some order exactly one
  deletion for each recorded resource (for a network attachment only if the instance has a VPC of its own), and only then
  removes the finalizer, whatever the deletions answered. The namespace is not deleted.
\<close>

theorem delete_sequence:
  assumes "cr_client E" and "m_DeletionTimestamp (inst_ObjectMeta i) \<noteq> None"
    and "FinalizerName \<in> set (m_Finalizers (inst_ObjectMeta i))"
    and "\<not> spec_DeletionProtection (inst_Spec i)"
    and "reconcile_instance (traced E) i (s, []) = ((out, i'), (s', cs))"
  shows "\<exists>j ds k. cs = CInstStatus j # ds @ [CInstUpdate k] \<and> phase j = StatusDeleting
     \<and> distinct ds
     \<and> set ds = {CDelete g n x | g n x. x \<noteq> [] \<and> (g, n, x) \<in>
          {(smGVR, ins i, res_ServiceMonitor (res i)), (vmGVR, ins i, res_VMName (res i)),
           (dvGVR, ins i, res_DataVolumeName (res i)), (secretGVR, ins i, res_SecretName (res i)),
           (nadGVR, ins i, if res_VPCName (res i) \<noteq> [] then res_NADName (res i) else []),
           (subnetGVR, [], res_SubnetName (res i)), (vpcPeeringGVR, [], res_VpcPeeringName (res i)),
           (vpcGVR, [], res_VPCName (res i))}}
     \<and> FinalizerName \<notin> set (m_Finalizers (inst_ObjectMeta k))"
proof -
  obtain j ts k where d: "cs = CInstStatus j # map delete_call ts @ [CInstUpdate k]" "phase j = StatusDeleting"
    "mset ts = mset (teardown_tasks (ins i) (res i))" "FinalizerName \<notin> set (m_Finalizers (inst_ObjectMeta k))"
    using delete_calls [OF assms] by blast
  from d(3) distinct_teardown_tasks have "distinct ts" by (metis mset_eq_imp_distinct_iff)
  then have dist: "distinct (map delete_call ts)"
    using inj_delete_call by (simp add: distinct_map inj_on_def inj_def)
  have "set (map delete_call ts) = {CDelete g n x | g n x. CDelete g n x \<in> delete_call ` set ts}"
    by (auto simp: delete_call_def)
  note this [unfolded delete_call_mem mset_eq_setD [OF d(3)] teardown_task_mem]
  with d(1,2,4) dist show ?thesis by blast
qed

definition doomed :: DBInstance where
  "doomed = set_res (\<lambda>_. \<lparr>res_VPCName = ''vpc-db'', res_SubnetName = ''subnet-db'', res_NADName = ''nad-db'',
       res_DataVolumeName = ''pg-db-data'', res_VMName = ''pg-db'', res_SecretName = ''pg-db-creds'',
       res_ServiceMonitor = ''pg-db-metrics'', res_VpcPeeringName = ''peer-db''\<rparr>)
     (sample_inst\<lparr>inst_ObjectMeta := (inst_ObjectMeta sample_inst)\<lparr>m_DeletionTimestamp := Some 1\<rparr>\<rparr>)"

theorem delete_sequence_witness:
  "\<exists>j ds k. snd (snd (reconcile_instance (traced ref_env) doomed (sample_cluster, []))) = CInstStatus j # ds @ [CInstUpdate k]
     \<and> distinct ds
     \<and> set ds = {CDelete smGVR ''team-a'' ''pg-db-metrics'', CDelete vmGVR ''team-a'' ''pg-db'',
         CDelete dvGVR ''team-a'' ''pg-db-data'', CDelete secretGVR ''team-a'' ''pg-db-creds'',
         CDelete nadGVR ''team-a'' ''nad-db'', CDelete subnetGVR [] ''subnet-db'',
         CDelete vpcPeeringGVR [] ''peer-db'', CDelete vpcGVR [] ''vpc-db''}
     \<and> FinalizerName \<notin> set (m_Finalizers (inst_ObjectMeta k))"
proof -
  have h: "m_DeletionTimestamp (inst_ObjectMeta doomed) \<noteq> None"
    "FinalizerName \<in> set (m_Finalizers (inst_ObjectMeta doomed))" "\<not> spec_DeletionProtection (inst_Spec doomed)"
    by (simp_all add: doomed_def sample_inst_def zero_instance_def zero_spec_def)
  have r: "ins doomed = ''team-a''" "res_ServiceMonitor (res doomed) = ''pg-db-metrics''"
    "res_VMName (res doomed) = ''pg-db''" "res_DataVolumeName (res doomed) = ''pg-db-data''"
    "res_SecretName (res doomed) = ''pg-db-creds''" "res_NADName (res doomed) = ''nad-db''"
    "res_SubnetName (res doomed) = ''subnet-db''" "res_VpcPeeringName (res doomed) = ''peer-db''"
    "res_VPCName (res doomed) = ''vpc-db''"
    by (simp_all add: doomed_def sample_inst_def zero_instance_def)
  obtain q s' cs where run: "reconcile_instance (traced ref_env) doomed (sample_cluster, []) = (q, (s', cs))"
    by (metis surj_pair)
  obtain out i' where q: "q = (out, i')" by (cases q)
  from delete_sequence [OF ref_client.cr_client_axioms h run [unfolded q], unfolded r]
  show ?thesis unfolding run snd_conv by (elim exE conjE, intro exI conjI) (assumption | force)+
qed

lemma owned_names:
  assumes "owned name r m ep"
  shows "res_ServiceMonitor r \<noteq> [] \<Longrightarrow> res_ServiceMonitor r = sm_name name"
    "res_VMName r \<noteq> [] \<Longrightarrow> res_VMName r = vm_name name"
    "res_DataVolumeName r \<noteq> [] \<Longrightarrow> res_DataVolumeName r = dv_name name"
    "res_SecretName r \<noteq> [] \<Longrightarrow> res_SecretName r = secret_name name"
    "res_VPCName r \<noteq> [] \<Longrightarrow> res_NADName r = nad_name name"
    "res_SubnetName r \<noteq> [] \<Longrightarrow> res_SubnetName r = subnet_name name"
    "res_VpcPeeringName r \<noteq> [] \<Longrightarrow> res_VpcPeeringName r = peering_name name"
    "res_VPCName r \<noteq> [] \<Longrightarrow> res_VPCName r = vpc_name name"
  using assms by (simp_all add: owned_def split: if_splits)

lemma owned_tasks:
  assumes "owned name r m ep" and "task g n k \<in> set (teardown_tasks ns r)"
  shows "(g, n, k) \<in> {(smGVR, ns, sm_name name), (vmGVR, ns, vm_name name), (dvGVR, ns, dv_name name),
     (secretGVR, ns, secret_name name), (nadGVR, ns, nad_name name), (subnetGVR, [], subnet_name name),
     (vpcPeeringGVR, [], peering_name name), (vpcGVR, [], vpc_name name)}"
proof -
  from assms(2) have "k \<noteq> []" "(g, n, k) \<in> {(smGVR, ns, res_ServiceMonitor r), (vmGVR, ns, res_VMName r),
      (dvGVR, ns, res_DataVolumeName r), (secretGVR, ns, res_SecretName r),
      (nadGVR, ns, if res_VPCName r \<noteq> [] then res_NADName r else []),
      (subnetGVR, [], res_SubnetName r), (vpcPeeringGVR, [], res_VpcPeeringName r),
      (vpcGVR, [], res_VPCName r)}"
    unfolding teardown_task_mem by (rule conjunct1, rule conjunct2)
  then show ?thesis
    by (elim insertE emptyE) (clarsimp split: if_splits; blast dest: owned_names [OF assms(1)])+
qed

lemma delete_guards:
  assumes "cr_client E" and "reconcile_instance (traced E) i (s, []) = ((out, i'), (s', cs))"
    and "CDelete g n k \<in> set cs"
  shows "m_DeletionTimestamp (inst_ObjectMeta i) \<noteq> None"
    "FinalizerName \<in> set (m_Finalizers (inst_ObjectMeta i))" "\<not> spec_DeletionProtection (inst_Spec i)"
proof -
  show del: "m_DeletionTimestamp (inst_ObjectMeta i) \<noteq> None"
  proof
    assume "m_DeletionTimestamp (inst_ObjectMeta i) = None"
    from tr.reconcile_no_delete [OF this assms(2)] assms(3) show False
      by (auto simp: tr_emits list_all_iff)
  qed
  have c: "ContainsFinalizer E fs f \<longleftrightarrow> f \<in> set fs" for fs f
    by (rule cr_client.contains_iff [OF assms(1)])
  show fin: "FinalizerName \<in> set (m_Finalizers (inst_ObjectMeta i))"
    using assms(2,3) del c by (auto simp: reconcile_instance_def split: if_splits)
  show "\<not> spec_DeletionProtection (inst_Spec i)"
  proof
    assume "spec_DeletionProtection (inst_Spec i)"
    with assms(2) del fin c obtain j x where "StatusUpdate_DBInstance (traced E) j (s, []) = (x, (s', cs))"
      by (auto simp: reconcile_instance_def reconcileDelete_def statusUpdate_def split: prod.splits)
    from tr.StatusUpdate_DBInstance_log [OF this] assms(3) show False by simp
  qed
qed

text \<open>
  C6: nothing is deleted unless deletion was requested, the finalizer is there and protection is off;
  and for a reachable instance, what is deleted are objects named after it, in its own
  namespace or, for VPC, subnet and peering, cluster-wide.
\<close>

theorem deletes_only_own:
  assumes "cr_client E" and "reach E i" and "reconcile_instance (traced E) i (s, []) = ((out, i'), (s', cs))"
    and "CDelete g n k \<in> set cs"
  shows "m_DeletionTimestamp (inst_ObjectMeta i) \<noteq> None \<and> FinalizerName \<in> set (m_Finalizers (inst_ObjectMeta i))
     \<and> \<not> spec_DeletionProtection (inst_Spec i)
     \<and> (g, n, k) \<in> {(smGVR, ins i, sm_name (iname i)), (vmGVR, ins i, vm_name (iname i)),
          (dvGVR, ins i, dv_name (iname i)), (secretGVR, ins i, secret_name (iname i)),
          (nadGVR, ins i, nad_name (iname i)), (subnetGVR, [], subnet_name (iname i)),
          (vpcPeeringGVR, [], peering_name (iname i)), (vpcGVR, [], vpc_name (iname i))}"
proof -
  note guards = delete_guards [OF assms(1,3,4)]
  obtain j ts u where cs: "cs = CInstStatus j # map delete_call ts @ [CInstUpdate u]"
    "mset ts = mset (teardown_tasks (ins i) (res i))"
    using delete_calls [OF assms(1) guards assms(3)] by blast
  then have task: "task g n k \<in> set (teardown_tasks (ins i) (res i))"
    using assms(4) delete_call_mem [of g n k "set ts"] by (auto dest!: mset_eq_setD)
  have "owned (iname i) (res i) (st_MasterUserSecret (inst_Status i)) (st_Endpoint (inst_Status i))"
    using reach_wf [OF assms(1,2)] by (simp add: wf_inst_def)
  from guards owned_tasks [OF this task] show ?thesis by (intro conjI)
qed

lemma runs_reach:
  assumes "inst_Status i = zero_status" "runs E i n w j"
  shows "reach E j"
  using assms(2)
proof induction
  case start
  show ?case by (rule reach.created [OF assms(1)])
next
  case (step n w j s r s' cs k)
  have k: "k \<in> set (writes cs)" by (simp only: step.hyps(3) list.set insert_iff simp_thms)
  obtain out i' where r: "r = (out, i')" by (rule prod.exhaust)
  note step.hyps(2) [unfolded r]
  from reach.reconciled [OF step.IH this k] show ?case .
qed

theorem deletes_only_own_witness:
  "\<exists>i. reach ref_env i
     \<and> CDelete vmGVR ''team-a'' ''pg-db'' \<in> set (snd (snd (reconcile_instance (traced ref_env) i (ready_cluster, []))))
     \<and> m_DeletionTimestamp (inst_ObjectMeta i) \<noteq> None"
proof -
  note c = ref_client.cr_client_axioms
  obtain j where j: "runs ref_env sample_inst 7 0 j" using sample_available by blast
  note t = runs_on_track [OF c sample_fresh j, unfolded on_track_def]
  define i where "i = j\<lparr>inst_ObjectMeta := (inst_ObjectMeta j)\<lparr>m_DeletionTimestamp := Some 1\<rparr>\<rparr>"
  have "reach ref_env j" by (rule runs_reach [OF _ j]) (simp add: sample_inst_def zero_instance_def)
  then have r: "reach ref_env i" by (rule reach.edited) (simp_all add: i_def)
  have vm: "res_VMName (res i) = ''pg-db''" "ins i = ''team-a''"
    using t wf_vm [of j] by (simp_all add: i_def sample_inst_def zero_meta_def vm_name_def)
  have h: "m_DeletionTimestamp (inst_ObjectMeta i) \<noteq> None" "FinalizerName \<in> set (m_Finalizers (inst_ObjectMeta i))"
    "\<not> spec_DeletionProtection (inst_Spec i)"
    using t by (simp_all add: i_def sample_inst_def zero_meta_def zero_spec_def)
  obtain out i' s' cs where run: "reconcile_instance (traced ref_env) i (ready_cluster, []) = ((out, i'), (s', cs))"
    by (metis surj_pair)
  obtain a ts u where "cs = CInstStatus a # map delete_call ts @ [CInstUpdate u]"
    "mset ts = mset (teardown_tasks (ins i) (res i))"
    using delete_calls [OF c h run] by blast
  moreover have "task vmGVR ''team-a'' ''pg-db'' \<in> set (teardown_tasks (ins i) (res i))"
    using vm by (simp add: teardown_task_mem)
  ultimately have d: "CDelete vmGVR ''team-a'' ''pg-db'' \<in> set cs"
    using delete_call_mem [of vmGVR "''team-a''" "''pg-db''" "set ts"] by (auto dest!: mset_eq_setD)
  have "m_DeletionTimestamp (inst_ObjectMeta i) \<noteq> None"
    using deletes_only_own [OF c r run d] by (rule conjunct1)
  moreover have "snd (snd (reconcile_instance (traced ref_env) i (ready_cluster, []))) = cs" by (simp only: run snd_conv)
  ultimately show ?thesis using r d by metis
qed

text \<open>
  C8: with deletion protection on, a requested deletion changes nothing but the message: one status
  write, an error as the result, the finalizer kept.
\<close>

theorem deletion_protection:
  assumes "cr_client E" and "m_DeletionTimestamp (inst_ObjectMeta i) \<noteq> None"
    and "FinalizerName \<in> set (m_Finalizers (inst_ObjectMeta i))" and "spec_DeletionProtection (inst_Spec i)"
    and "reconcile_instance (traced E) i (s, []) = ((out, i'), (s', cs))"
  shows "cs = [CInstStatus (set_message ''Cannot delete: DeletionProtection is enabled'' i)]
     \<and> out = Return (no_requeue, Some (Errorf ''deletion protection enabled''))
     \<and> m_Finalizers (inst_ObjectMeta i') = m_Finalizers (inst_ObjectMeta i)"
proof -
  let ?j = "set_message ''Cannot delete: DeletionProtection is enabled'' i"
  obtain err where u: "StatusUpdate_DBInstance (traced E) ?j (s, []) = ((err, i'), (s', cs))"
    "out = Return (no_requeue, Some (Errorf ''deletion protection enabled''))"
    using assms(2-) by (auto simp: reconcile_instance_def reconcileDelete_def statusUpdate_def
        cr_client.contains_iff [OF assms(1)] split: prod.splits if_splits)
  show ?thesis
    using tr.StatusUpdate_DBInstance_log [OF u(1)] u(2)
      cr_client.status_kept(7) [OF cr_client_traced [OF assms(1)] u(1)] by simp
qed

definition guarded :: DBInstance where
  "guarded = doomed\<lparr>inst_Spec := (inst_Spec doomed)\<lparr>spec_DeletionProtection := True\<rparr>\<rparr>"

theorem deletion_protection_witness:
  "snd (snd (reconcile_instance (traced ref_env) guarded (sample_cluster, [])))
   = [CInstStatus (set_message ''Cannot delete: DeletionProtection is enabled'' guarded)]"
proof -
  have h: "m_DeletionTimestamp (inst_ObjectMeta guarded) \<noteq> None"
    "FinalizerName \<in> set (m_Finalizers (inst_ObjectMeta guarded))" "spec_DeletionProtection (inst_Spec guarded)"
    by (simp_all add: guarded_def doomed_def sample_network_def sample_inst_def)
  show ?thesis
    using deletion_protection [OF ref_client.cr_client_axioms h, of sample_cluster]
    by (cases "reconcile_instance (traced ref_env) guarded (sample_cluster, [])") auto
qed

section \<open>Other transitions\<close>

text \<open>
  C9: before the finalizer is in place nothing is provisioned: the only call is the update that adds
  it, and the object is requeued at once.
\<close>

theorem finalizer_first:
  assumes "cr_client E" and "m_DeletionTimestamp (inst_ObjectMeta i) = None"
    and "FinalizerName \<notin> set (m_Finalizers (inst_ObjectMeta i))"
    and "reconcile_instance (traced E) i (s, []) = ((out, i'), (s', cs))"
  shows "\<exists>j. cs = [CInstUpdate j] \<and> FinalizerName \<in> set (m_Finalizers (inst_ObjectMeta j))
     \<and> inst_Spec j = inst_Spec i \<and> inst_Status j = inst_Status i
     \<and> (out = Return (requeue_now, None) \<or> (\<exists>e. out = Return (no_requeue, Some e)))"
proof -
  let ?j = "set_finalizers (AddFinalizer E (m_Finalizers (inst_ObjectMeta i)) FinalizerName) i"
  obtain r where u: "Update_DBInstance (traced E) ?j (s, []) = (r, (s', cs))"
    "out = Return (requeue_now, None) \<or> (\<exists>e. out = Return (no_requeue, Some e))"
    using assms(2-) by (auto simp: reconcile_instance_def cr_client.contains_iff [OF assms(1)]
        split: prod.splits option.splits)
  show ?thesis
    using tr.Update_DBInstance_log [OF u(1)] u(2) cr_client.add_set [OF assms(1)]
    by (intro exI [of _ ?j]) (simp add: set_finalizers_def)
qed

definition unmarked :: DBInstance where
  "unmarked = sample_inst\<lparr>inst_ObjectMeta := (inst_ObjectMeta sample_inst)\<lparr>m_Finalizers := []\<rparr>\<rparr>"

theorem finalizer_first_witness:
  "\<exists>j. snd (snd (reconcile_instance (traced ref_env) unmarked (sample_cluster, []))) = [CInstUpdate j]"
proof -
  have h: "m_DeletionTimestamp (inst_ObjectMeta unmarked) = None"
    "FinalizerName \<notin> set (m_Finalizers (inst_ObjectMeta unmarked))"
    by (simp_all add: unmarked_def sample_inst_def zero_meta_def)
  show ?thesis
    using finalizer_first [OF ref_client.cr_client_axioms h, of sample_cluster]
    by (cases "reconcile_instance (traced ref_env) unmarked (sample_cluster, [])") auto
qed

text \<open>
  \<open>after_failure E ns name n L j\<close>: the stored instance is \<open>j\<close> after it was given up by \<open>fail\<close>, edited by its user any
  number of times, without being deleted or losing the finalizer, and reconciled \<open>n\<close> times, each time as it was stored then;
  \<open>L\<close> is what the reconciles did.
\<close>

definition kept_alive :: "DBInstance \<Rightarrow> bool" where
  "kept_alive i = (m_DeletionTimestamp (inst_ObjectMeta i) = None
     \<and> FinalizerName \<in> set (m_Finalizers (inst_ObjectMeta i)))"

inductive after_failure :: "'s env \<Rightarrow> string \<Rightarrow> string \<Rightarrow> nat \<Rightarrow> call list \<Rightarrow> DBInstance \<Rightarrow> bool"
  for E :: "'s env" and ns name where
  failed: "kept_alive i \<Longrightarrow> fail (traced E) i reason err (s, []) = (r, (s', cs)) \<Longrightarrow> j \<in> set (writes cs)
    \<Longrightarrow> after_failure E ns name 0 [] j"
| edited: "after_failure E ns name n L j \<Longrightarrow> inst_Status k = inst_Status j \<Longrightarrow> kept_alive k
    \<Longrightarrow> after_failure E ns name n L k"
| reconciled: "after_failure E ns name n L j \<Longrightarrow> Get_DBInstance E ns name s = (Inr j, s1)
    \<Longrightarrow> Reconcile (traced E) ns name (s, []) = (out, (s', cs))
    \<Longrightarrow> after_failure E ns name (Suc n) (L @ cs) (last (j # writes cs))"

lemma failed_untouched:
  assumes "cr_client E" "kept_alive i" "phase i = StatusFailed" "pphase i = PhaseFailed"
  shows "reconcile_instance E i s = ((Return (requeue_after 30, None), i), s)"
  using assms
  by (simp add: kept_alive_def reconcile_instance_def provision_def status_defs phase_defs
      cr_client.contains_iff [OF assms(1)])

lemma fail_writes:
  assumes "fail (traced E) i reason err (s, []) = (r, (s', cs))" "j \<in> set (writes cs)"
  shows "phase j = StatusFailed \<and> pphase j = PhaseFailed \<and> inst_ObjectMeta j = inst_ObjectMeta i"
  using assms by (auto simp: fail_def statusUpdate_def split: prod.splits dest!: tr.StatusUpdate_DBInstance_log)

lemma Reconcile_failed:
  assumes "cr_client E" "kept_alive j" "phase j = StatusFailed" "pphase j = PhaseFailed"
    and "Get_DBInstance E ns name s = (Inr j, s1)"
  shows "Reconcile (traced E) ns name (s, L) = (Return (requeue_after 30, None), (s1, L @ [CInstGet ns name]))"
  using assms(5) failed_untouched [OF cr_client_traced [OF assms(1)] assms(2-4)]
  by (simp add: Reconcile_def traced_def record_call_def)

lemma after_failure_inv:
  assumes "cr_client E" and "after_failure E ns name n L j"
  shows "L = replicate n (CInstGet ns name) \<and> kept_alive j \<and> phase j = StatusFailed \<and> pphase j = PhaseFailed"
  using assms(2)
proof induction
  case (failed i reason err s r s' cs j)
  with fail_writes [OF failed(2,3)] show ?case by (simp add: kept_alive_def)
next
  case (reconciled n L j s s1 out s' cs)
  with Reconcile_failed [OF assms(1), of j ns name s s1 "[]"] have "cs = [CInstGet ns name]" by simp
  with reconciled show ?case by (simp add: replicate_append_same)
qed simp

text \<open>
  C22: failure is final, as long as the instance is not deleted and keeps the finalizer. Once \<open>fail\<close> has written it, every further
  \<open>Reconcile\<close> reads the instance, does nothing else and asks to be called again in thirty seconds, whatever the
  user changes in its specification and whatever happens in the cluster.
\<close>

theorem failed_is_final:
  assumes "cr_client E" and "after_failure E ns name n L j"
    and "Get_DBInstance E ns name s = (Inr j, s1)"
  shows "L = replicate n (CInstGet ns name)
    \<and> Reconcile (traced E) ns name (s, []) = (Return (requeue_after 30, None), (s1, [CInstGet ns name]))"
  using after_failure_inv [OF assms(1,2)] Reconcile_failed [OF assms(1), of j ns name s s1 "[]"] assms(3) by simp

text \<open>The instance failed, and its user then corrected the specification.\<close>

definition broken :: "string \<Rightarrow> DBInstance" where
  "broken cls = (set_message ''network: timeout'' (set_pphase PhaseFailed (set_phase StatusFailed sample_inst)))
     \<lparr>inst_Spec := zero_spec\<lparr>spec_DBInstanceClass := cls\<rparr>\<rparr>"

definition broken_cluster :: cluster where
  "broken_cluster = ready_cluster\<lparr>cl_insts := [broken ''db.t3.large'']\<rparr>"

lemma broken_history: "after_failure ref_env ''team-a'' ''db'' 0 [] (broken ''db.t3.large'')"
proof -
  let ?j = "set_message ''network: timeout'' (set_pphase PhaseFailed (set_phase StatusFailed sample_inst))"
  obtain r s' cs where f: "fail (traced ref_env) sample_inst ''network'' (Errorf ''timeout'') (sample_cluster, []) = (r, (s', cs))"
    by (metis surj_pair)
  then have w: "?j \<in> set (writes cs)"
    by (auto simp: fail_def statusUpdate_def Errorf_def split: prod.splits dest!: tr.StatusUpdate_DBInstance_log)
  have k: "kept_alive sample_inst" "kept_alive (broken ''db.t3.large'')"
    by (simp_all add: kept_alive_def broken_def sample_inst_def zero_meta_def)
  show ?thesis
    by (rule after_failure.edited [OF after_failure.failed [OF k(1) f w] _ k(2)]) (simp add: broken_def)
qed

theorem failed_is_final_witness:
  "Reconcile (traced ref_env) ''team-a'' ''db'' (broken_cluster, [])
     = (Return (requeue_after 30, None), (broken_cluster, [CInstGet ''team-a'' ''db'']))"
proof -
  have "Get_DBInstance ref_env ''team-a'' ''db'' broken_cluster = (Inr (broken ''db.t3.large''), broken_cluster)"
    by (simp add: ref_env_def broken_cluster_def broken_def sample_inst_def)
  from failed_is_final [OF ref_client.cr_client_axioms broken_history this] show ?thesis by blast
qed

text \<open>A stopped instance whose provisioning is complete goes through \<open>phaseAvailable\<close> again.\<close>

lemma stopped_provisions:
  assumes "m_DeletionTimestamp (inst_ObjectMeta i) = None"
    "ContainsFinalizer E (m_Finalizers (inst_ObjectMeta i)) FinalizerName"
    "phase i = StatusStopped" "spec_Running (inst_Spec i) \<noteq> Some True" "pphase i = PhaseAvailable"
  shows "reconcile_instance E i s = phaseAvailable E i s"
  using assms by (simp add: reconcile_instance_def provision_def status_defs phase_defs)

lemma phaseAvailable_writes:
  assumes "phaseAvailable (traced E) i (s, []) = ((out, i'), (s', cs))"
  shows "\<exists>j. writes cs = [j] \<and> phase j = StatusAvailable \<and> inst_Spec j = inst_Spec i"
proof -
  obtain rd err s1 cs1 where g:
    "GetVMIReadiness (traced E) (ins i) (res_VMName (res i)) (s, []) = ((rd, err), (s1, cs1))"
    by (metis surj_pair)
  obtain m where f: "finish (traced E) (requeue_after 60) (refresh_mgmt rd (refresh_endpoint rd
      (set_message m (observe_generation (set_pphase PhaseAvailable (set_phase StatusAvailable i)))))) (s1, cs1)
      = ((out, i'), (s', cs))"
    using assms g by (simp add: phaseAvailable_def Let_def)
  show ?thesis
    using tr.finish_log [OF f] tr.GetVMIReadiness_log [OF g] by simp
qed

text \<open>
  C23: stopping does not last. An instance that is asked to stop and is stopped successfully is
  reported available again by its next reconcile, with the request to stop still in its
  specification, so that it is stopped once more by the one after that.
\<close>

theorem stop_flips_back:
  assumes "cr_client E" and "m_DeletionTimestamp (inst_ObjectMeta i) = None"
    and "FinalizerName \<in> set (m_Finalizers (inst_ObjectMeta i))" and "spec_Running (inst_Spec i) = Some False"
    and "phase i = StatusAvailable" and "pphase i = PhaseAvailable"
    and "reconcile_instance (traced E) i (s, []) = ((Return (no_requeue, None), i'), (s', cs))"
    and "reconcile_instance (traced E) (last (writes cs)) (t, []) = ((out, j'), (t', ds))"
  shows "phase (last (writes cs)) = StatusStopped
     \<and> (\<exists>j. writes ds = [j] \<and> phase j = StatusAvailable \<and> spec_Running (inst_Spec j) = Some False)"
proof -
  have c: "ContainsFinalizer E fs f \<longleftrightarrow> f \<in> set fs" for fs f by (rule cr_client.contains_iff [OF assms(1)])
  have run: "reconcileStop (traced E) i (s, []) = ((Return (no_requeue, None), i'), (s', cs))"
    using assms(2-7) c by (simp add: reconcile_instance_def)
  let ?j = "set_message ''Stopping VM'' (set_phase StatusStopping i)"
  obtain err i1 s1 cs1 where m: "StatusUpdate_DBInstance (traced E) ?j (s, []) = ((err, i1), (s1, cs1))"
    by (metis surj_pair)
  note kept = cr_client.status_kept [OF cr_client_traced [OF assms(1)] m]
  obtain r s2 cs2 where st: "setVMRunning (traced E) (ins i) (res_VMName (res i1)) False (s1, cs1) = (r, (s2, cs2))"
    by (metis surj_pair)
  obtain x where f: "finish (traced E) no_requeue (observe_generation (set_message x (set_phase StatusStopped i1))) (s2, cs2)
      = ((Return (no_requeue, None), i'), (s', cs))"
    using run m st by (auto simp: reconcileStop_def statusUpdate_def StopVM_def no_requeue_def
        requeue_after_def split: option.splits dest!: tr.fail_log)
  let ?k = "observe_generation (set_message x (set_phase StatusStopped i1))"
  have k: "last (writes cs) = ?k" using tr.finish_log [OF f] by simp
  have "reconcile_instance (traced E) ?k (t, []) = phaseAvailable (traced E) ?k (t, [])"
    using assms(2-6) kept c by (intro stopped_provisions) simp_all
  with assms(8) k have "phaseAvailable (traced E) ?k (t, []) = ((out, j'), (t', ds))" by simp
  from phaseAvailable_writes [OF this] show ?thesis
    using assms(4) kept(2) by (auto simp: k)
qed

definition to_stop :: DBInstance where
  "to_stop = set_pphase PhaseAvailable (set_phase StatusAvailable
     (set_res (\<lambda>r. r\<lparr>res_VMName := ''pg-db''\<rparr>)
       (sample_inst\<lparr>inst_Spec := (inst_Spec sample_inst)\<lparr>spec_Running := Some False\<rparr>\<rparr>)))"

lemma stop_run: "fst (fst (reconcile_instance (traced ref_env) to_stop (ready_cluster, []))) = Return (no_requeue, None)"
  by code_simp

theorem stop_flips_back_witness:
  "\<exists>cs ds j. phase (last (writes cs)) = StatusStopped \<and> writes ds = [j] \<and> phase j = StatusAvailable
     \<and> cs = snd (snd (reconcile_instance (traced ref_env) to_stop (ready_cluster, [])))
     \<and> ds = snd (snd (reconcile_instance (traced ref_env) (last (writes cs)) (ready_cluster, [])))"
proof -
  have h: "m_DeletionTimestamp (inst_ObjectMeta to_stop) = None"
    "FinalizerName \<in> set (m_Finalizers (inst_ObjectMeta to_stop))" "spec_Running (inst_Spec to_stop) = Some False"
    "phase to_stop = StatusAvailable" "pphase to_stop = PhaseAvailable"
    by (simp_all add: to_stop_def sample_inst_def zero_meta_def)
  obtain i' s' cs where r: "reconcile_instance (traced ref_env) to_stop (ready_cluster, [])
      = ((Return (no_requeue, None), i'), (s', cs))"
    using stop_run by (metis prod.collapse)
  obtain out j' t' ds where q: "reconcile_instance (traced ref_env) (last (writes cs)) (ready_cluster, []) = ((out, j'), (t', ds))"
    by (metis prod.collapse)
  from stop_flips_back [OF ref_client.cr_client_axioms h r q] show ?thesis
    by (intro exI [of _ cs] exI [of _ ds]) (auto simp: r q)
qed

section \<open>Repetition\<close>

lemma provision_at:
  "pphase i = PhaseNetworkProvisioned \<Longrightarrow> provision E i w = phaseStorage E i w"
  "pphase i = PhaseStorageProvisioned \<Longrightarrow> provision E i w = phaseVM E i w"
  "pphase i = PhaseDatabaseReady \<Longrightarrow> provision E i w = phaseMonitoring E i w"
  "pphase i = PhaseMonitoringDeployed \<Longrightarrow> provision E i w = phaseVpcPeering E i w"
  by (simp_all add: provision_def phase_defs)

text \<open>The resource that the next phase would create is recorded already.\<close>

definition recorded :: "DBInstance \<Rightarrow> bool" where
  "recorded i =
     (case prov_of (pphase i) of
        Pending \<Rightarrow> res_VPCName (res i) \<noteq> [] \<or> res_NADName (res i) \<noteq> []
      | NetworkUp \<Rightarrow> res_DataVolumeName (res i) \<noteq> []
      | StorageUp \<Rightarrow> res_VMName (res i) \<noteq> []
      | DBReady \<Rightarrow> res_ServiceMonitor (res i) \<noteq> []
      | Monitored \<Rightarrow> res_VpcPeeringName (res i) \<noteq> []
      | _ \<Rightarrow> False)"

text \<open>
  A phase whose resource is recorded is skipped: the reconcile makes no call to Harvester at
  all, only the status write that moves to the next phase with the same resources.
\<close>

theorem recorded_phase_skipped:
  assumes "cr_client E" and "in_provisioning i" and "recorded i"
    and "reconcile_instance (traced E) i (s, []) = ((out, i'), (s', cs))"
  shows "\<exists>j. cs = [CInstStatus j] \<and> res j = res i
     \<and> rank (prov_of (pphase j)) = Suc (rank (prov_of (pphase i)))"
proof -
  have run: "provision (traced E) i (s, []) = ((out, i'), (s', cs))"
    using assms(4) by (simp add: in_provisioning_run [OF assms(1,2)])
  have "prov_of (pphase i) \<in> {Pending, NetworkUp, StorageUp, DBReady, Monitored}"
    using assms(3) by (auto simp: recorded_def split: prov.splits)
  then consider "pphase i = [] \<or> pphase i = PhasePending" | "pphase i = PhaseNetworkProvisioned"
    | "pphase i = PhaseStorageProvisioned" | "pphase i = PhaseDatabaseReady" | "pphase i = PhaseMonitoringDeployed"
    by (auto simp: prov_of_def split: if_splits)
  then show ?thesis
  proof cases
    case 1
    with assms(3) run have "advance (traced E) (set_pphase PhaseNetworkProvisioned
        (if phase i = [] then set_phase StatusCreating i else i)) (s, []) = ((out, i'), (s', cs))"
      by (auto simp: provision_def phaseNetwork_def recorded_def Let_def)
    from tr.advance_log [OF this] 1 show ?thesis by auto
  next
    case 2
    from assms(3) have "res_DataVolumeName (res i) \<noteq> []" by (simp add: recorded_def 2)
    with run have "advance (traced E) (set_pphase PhaseStorageProvisioned i) (s, []) = ((out, i'), (s', cs))"
      by (simp add: provision_at 2 phaseStorage_def)
    from tr.advance_log [OF this] 2 show ?thesis by auto
  next
    case 3
    from assms(3) have "res_VMName (res i) \<noteq> []" by (simp add: recorded_def 3)
    with run have "finish (traced E) (requeue_after 10) (set_pphase PhaseVMCreated i) (s, []) = ((out, i'), (s', cs))"
      by (simp add: provision_at 3 phaseVM_def)
    from tr.finish_log [OF this] 3 show ?thesis by auto
  next
    case 4
    from assms(3) have "res_ServiceMonitor (res i) \<noteq> []" by (simp add: recorded_def 4)
    with run have "advance (traced E) (set_pphase PhaseMonitoringDeployed i) (s, []) = ((out, i'), (s', cs))"
      by (simp add: provision_at 4 phaseMonitoring_def)
    from tr.advance_log [OF this] 4 show ?thesis by auto
  next
    case 5
    from assms(3) have "res_VpcPeeringName (res i) \<noteq> []" by (simp add: recorded_def 5)
    with run have "advance (traced E) (set_pphase PhaseVpcPeeringCreated i) (s, []) = ((out, i'), (s', cs))"
      by (auto simp: provision_at 5 phaseVpcPeering_def split: option.splits)
    from tr.advance_log [OF this] 5 show ?thesis by auto
  qed
qed

theorem recorded_phase_skipped_witness:
  "\<exists>j. snd (snd (reconcile_instance (traced ref_env)
        (set_res (\<lambda>r. r\<lparr>res_NADName := ''net''\<rparr>) sample_inst) (sample_cluster, []))) = [CInstStatus j]
      \<and> prov_of (pphase j) = NetworkUp"
proof -
  let ?i = "set_res (\<lambda>r. r\<lparr>res_NADName := ''net''\<rparr>) sample_inst"
  have p: "in_provisioning ?i"
    by (simp add: in_provisioning_def sample_inst_def zero_instance_def zero_meta_def zero_status_def
        status_defs)
  have r: "recorded ?i" and z: "rank (prov_of (pphase ?i)) = 0"
    by (simp_all add: recorded_def sample_inst_def zero_instance_def zero_status_def)
  obtain out i' s' cs where q: "reconcile_instance (traced ref_env) ?i (sample_cluster, []) = ((out, i'), (s', cs))"
    by (metis prod.collapse)
  from recorded_phase_skipped [OF ref_client.cr_client_axioms p r q] z
  obtain j where "cs = [CInstStatus j]" "rank (prov_of (pphase j)) = 1" by auto
  then show ?thesis by (cases "prov_of (pphase j)") (auto simp: q)
qed

section \<open>Starting and stopping\<close>

text \<open>
  The calls, with their answers, of a reconcile that starts (\<open>b\<close>) or stops the VM: the status says so, the VM is read and
  written back with \<open>spec.running\<close> set, and the outcome is written in the status.
\<close>

definition vm_switched :: "'s env \<Rightarrow> bool \<Rightarrow> string \<Rightarrow> string \<Rightarrow> (call \<times> answer) list \<Rightarrow> bool" where
  "vm_switched E b ns vm L =
     (\<exists>j a M k. L = (CInstStatus j, Other) # (CGet vmGVR ns vm, Obj a) # M @ [(CInstStatus k, Other)]
        \<and> phase j = (if b then StatusStarting else StatusStopping)
        \<and> (case a of
             Inl e \<Rightarrow> M = [] \<and> phase k = StatusFailed
           | Inr obj \<Rightarrow> \<exists>u. M = [(CUpdate vmGVR ns (SetNestedField E obj (JBool b) [''spec'', ''running'']), Obj u)]
               \<and> phase k = (case u of Inl _ \<Rightarrow> StatusFailed
                                    | Inr _ \<Rightarrow> if b then StatusAvailable else StatusStopped)))"

lemma status_answered:
  "StatusUpdate_DBInstance (answered E) i w = (r, w') \<Longrightarrow> snd w' = snd w @ [(CInstStatus i, Other)]"
  by (simp add: answered_def note_call_iff)

text \<open>Both handlers end alike.\<close>

lemma switch_outcome:
  assumes "(case err of Some e \<Rightarrow> fail (answered E) i reason e w | None \<Rightarrow> finish (answered E) rq k w) = (q, w')"
  shows "\<exists>m. snd w' = snd w @ [(CInstStatus m, Other)] \<and> phase m = (if err = None then phase k else StatusFailed)"
  using assms by (auto simp: fail_def finish_def statusUpdate_def split: option.splits prod.splits dest!: status_answered)

lemma switch_answered:
  assumes "cr_client E" "kept_alive m" "spec_Running (inst_Spec m) = Some b"
    "phase m = (if b then StatusStopped else StatusAvailable)"
    "reconcile_instance (answered E) m (t, []) = (q, (t', L))"
  shows "vm_switched E b (ins m) (res_VMName (res m)) L"
proof -
  note cl = cr_client_answered [OF assms(1)]
  define j where "j = (if b then set_phase StatusStarting m else set_message ''Stopping VM'' (set_phase StatusStopping m))"
  obtain e1 i1 w1 where st: "StatusUpdate_DBInstance (answered E) j (t, []) = ((e1, i1), w1)" by (metis surj_pair)
  have r1: "res i1 = res m" using cr_client.status_kept(1) [OF cl st] by (simp add: j_def)
  obtain err w2 where sw: "setVMRunning (answered E) (ins m) (res_VMName (res m)) b w1 = (err, w2)" by (metis surj_pair)
  have dispatch: "reconcile_instance (answered E) m (t, []) = (if b then reconcileStart (answered E) m (t, []) else reconcileStop (answered E) m (t, []))"
    using assms(2-4) by (simp add: reconcile_instance_def kept_alive_def cr_client.contains_iff [OF assms(1)] status_defs)
  let ?k = "observe_generation (set_message (if b then ''Started'' else ''Stopped. Storage preserved.'')
      (set_phase (if b then StatusAvailable else StatusStopped) i1))"
  have "(case err of Some e \<Rightarrow> fail (answered E) i1 (if b then ''StartFailed'' else ''StopFailed'') e w2
      | None \<Rightarrow> finish (answered E) no_requeue ?k w2) = (q, (t', L))"
    using assms(5) [unfolded dispatch] st sw r1
    by (cases b; cases err) (simp_all add: j_def reconcileStart_def reconcileStop_def statusUpdate_def StartVM_def StopVM_def)
  from switch_outcome [OF this] obtain k where k: "L = snd w2 @ [(CInstStatus k, Other)]"
      "phase k = (if err = None then if b then StatusAvailable else StatusStopped else StatusFailed)"
    by fastforce
  from setVMRunning_answered [OF sw] obtain a M where a: "snd w2 = snd w1 @ (CGet vmGVR (ins m) (res_VMName (res m)), Obj a) # M"
    "case a of Inl e \<Rightarrow> M = [] \<and> err = Some e
       | Inr obj \<Rightarrow> \<exists>u. M = [(CUpdate vmGVR (ins m) (SetNestedField E obj (JBool b) [''spec'', ''running'']), Obj u)]
                      \<and> err = (case u of Inl e \<Rightarrow> Some e | Inr _ \<Rightarrow> None)" by blast
  have "L = (CInstStatus j, Other) # (CGet vmGVR (ins m) (res_VMName (res m)), Obj a) # M @ [(CInstStatus k, Other)]"
    using k(1) a(1) status_answered [OF st] by simp
  moreover have "phase j = (if b then StatusStarting else StatusStopping)" by (simp add: j_def)
  moreover have "case a of Inl e \<Rightarrow> M = [] \<and> phase k = StatusFailed
       | Inr obj \<Rightarrow> \<exists>u. M = [(CUpdate vmGVR (ins m) (SetNestedField E obj (JBool b) [''spec'', ''running'']), Obj u)]
           \<and> phase k = (case u of Inl _ \<Rightarrow> StatusFailed | Inr _ \<Rightarrow> if b then StatusAvailable else StatusStopped)"
  proof (cases a)
    case (Inr obj)
    with a(2) obtain u where u: "M = [(CUpdate vmGVR (ins m) (SetNestedField E obj (JBool b) [''spec'', ''running'']), Obj u)]"
      "err = (case u of Inl e \<Rightarrow> Some e | Inr _ \<Rightarrow> None)" by auto
    with Inr k(2) show ?thesis by (cases u) simp_all
  qed (use a(2) k(2) in simp)
  ultimately show ?thesis unfolding vm_switched_def by blast
qed

end
