(* ===== verification/Modify.thy ===== *)
theory Modify
  imports InstanceProps
begin

text \<open>
  The concurrency of \<open>reconcileModify\<close> (\<open>dbinstance_reconciler.go\<close>): its two goroutines, each a read
  and a write of one object, give the same result under every schedule.
\<close>

section \<open>The two goroutines of a modification\<close>

text \<open>Two calls commute: made in either order they give the same answers and the same world.\<close>

definition commutes :: "('s \<Rightarrow> 'a \<times> 's) \<Rightarrow> ('s \<Rightarrow> 'b \<times> 's) \<Rightarrow> bool" where
  "commutes f g = (\<forall>s. fst (f s) = fst (f (snd (g s))) \<and> fst (g (snd (f s))) = fst (g s)
     \<and> snd (g (snd (f s))) = snd (f (snd (g s))))"

lemma commutesD:
  "commutes f g \<Longrightarrow> f s = (a, s1) \<Longrightarrow> g s1 = (b, s2) \<Longrightarrow> \<exists>t. g s = (b, t) \<and> f t = (a, s2)"
  unfolding commutes_def by (metis fst_conv prod.collapse snd_conv)

lemma commutes_sym: "commutes f g \<Longrightarrow> commutes g f"
  by (simp add: commutes_def)

lemma commutes_answer: "commutes f g \<Longrightarrow> commutes (\<lambda>s. map_prod p id (f s)) (\<lambda>s. map_prod q id (g s))"
  by (simp add: commutes_def)

lemma commutes_id: "commutes (\<lambda>s. (a, s)) g"
  by (simp add: commutes_def)

text \<open>Objects of different kinds are independent of each other.\<close>

locale kinds_independent =
  fixes E :: "'s env"
  assumes get_get: "g \<noteq> g' \<Longrightarrow> commutes (Dyn_Get E g n k) (Dyn_Get E g' n' k')"
    and get_update: "g \<noteq> g' \<Longrightarrow> commutes (Dyn_Get E g n k) (Dyn_Update E g' n' j')"
    and update_update: "g \<noteq> g' \<Longrightarrow> commutes (Dyn_Update E g n j) (Dyn_Update E g' n' j')"
begin

lemma step_answer:
  "thread_step E j TGet = (\<lambda>s. map_prod (\<lambda>r. case r of Inl e \<Rightarrow> TDone (Some e) | Inr obj \<Rightarrow> TUpdate (job_edit j obj)) id
      (Dyn_Get E (job_gvr j) (job_ns j) (job_name j) s))"
  "thread_step E j (TUpdate obj) = (\<lambda>s. map_prod (\<lambda>r. case r of Inl e \<Rightarrow> TDone (Some e) | Inr _ \<Rightarrow> TDone None) id
      (Dyn_Update E (job_gvr j) (job_ns j) obj s))"
  "thread_step E j (TDone e) = (\<lambda>s. (TDone e, s))"
  by (auto simp: fun_eq_iff split: prod.splits sum.splits)

lemma steps_commute:
  assumes "job_gvr j \<noteq> job_gvr k"
  shows "commutes (thread_step E j t) (thread_step E k u)"
  using assms get_get get_update update_update
    commutes_sym [OF get_update [of "job_gvr k" "job_gvr j"]]
  by (cases t; cases u) (auto simp: step_answer commutes_id commutes_sym [OF commutes_id]
      intro!: commutes_answer simp del: thread_step.simps)

end

text \<open>A thread on its own, run to its end.\<close>

function run_thread :: "'s env \<Rightarrow> job \<Rightarrow> thread \<Rightarrow> 's \<Rightarrow> thread \<times> 's" where
  "run_thread E j t s =
     (if steps_left t = 0 then (t, s) else (case thread_step E j t s of (t', s') \<Rightarrow> run_thread E j t' s'))"
  by pat_completeness auto
termination
proof (relation "measure (\<lambda>(E, j, t, s). steps_left t)", goal_cases)
  case (2 E j t s t' s')
  with thread_step_left [of E j t s t' s'] show ?case by (auto split: prod.splits)
qed simp

declare run_thread.simps [simp del]

context kinds_independent
begin

text \<open>A step of one thread may as well be made after the other has run to its end.\<close>

lemma step_after_run:
  assumes "job_gvr j \<noteq> job_gvr k" "thread_step E k u s = (u', s1)" "run_thread E j t s1 = (t', s2)"
  shows "\<exists>s1'. run_thread E j t s = (t', s1') \<and> thread_step E k u s1' = (u', s2)"
  using assms(2,3)
proof (induction "steps_left t" arbitrary: t s s1 rule: less_induct)
  case less
  show ?case
  proof (cases "steps_left t = 0")
    case True
    with less.prems show ?thesis by (auto simp: run_thread.simps [of E j t] run_thread.simps [of E j t'])
  next
    case False
    obtain v w where v: "thread_step E j t s1 = (v, w)" by (metis surj_pair)
    with False less.prems have r: "run_thread E j v w = (t', s2)" by (simp add: run_thread.simps [of E j t])
    obtain z where z: "thread_step E j t s = (v, z)" "thread_step E k u z = (u', w)"
      using commutesD [OF commutes_sym [OF steps_commute [OF assms(1)]] less.prems(1) v] by blast
    from less.hyps [OF thread_step_left [OF v False] z(2) r] z(1) False show ?thesis
      by (simp add: run_thread.simps [of E j t])
  qed
qed

text \<open>So every schedule does what running one thread after the other does.\<close>

lemma run_threads_seq:
  assumes "job_gvr j \<noteq> job_gvr k"
  shows "run_threads E j k cs t u s =
     (case run_thread E j t s of (t', s1) \<Rightarrow> case run_thread E k u s1 of (u', s2) \<Rightarrow> ((t', u'), s2))"
proof (induction "steps_left t + steps_left u" arbitrary: cs t u s rule: less_induct)
  case less
  consider "steps_left t = 0 \<and> steps_left u = 0"
    | "steps_left t \<noteq> 0 \<and> (steps_left u = 0 \<or> cs = [] \<or> even (hd cs))"
    | "steps_left u \<noteq> 0 \<and> \<not> (steps_left t \<noteq> 0 \<and> (steps_left u = 0 \<or> cs = [] \<or> even (hd cs)))"
    by blast
  then show ?case
  proof cases
    case 1
    then show ?thesis by (simp add: run_threads.simps [of E j k cs] run_thread.simps [of E _ t] run_thread.simps [of E _ u])
  next
    case 2
    obtain v w where v: "thread_step E j t s = (v, w)" by (metis surj_pair)
    have "steps_left v + steps_left u < steps_left t + steps_left u" using thread_step_left [OF v] 2 by simp
    from less [OF this, of "tl cs" w] 2 v show ?thesis
      by (simp add: run_threads.simps [of E j k cs t] run_thread.simps [of E j t])
  next
    case 3
    obtain v w where v: "thread_step E k u s = (v, w)" by (metis surj_pair)
    obtain t' s2 where t: "run_thread E j t w = (t', s2)" by (metis surj_pair)
    obtain z where z: "run_thread E j t s = (t', z)" "thread_step E k u z = (v, s2)"
      using step_after_run [OF assms v t] by blast
    have "steps_left t + steps_left v < steps_left t + steps_left u" using thread_step_left [OF v] 3 by simp
    from less [OF this, of "tl cs" w] 3 v t z show ?thesis
      by (auto simp: run_threads.simps [of E j k cs t] run_thread.simps [of E k u])
  qed
qed

end

lemma run_thread_get:
  "run_thread E j TGet s = (case get_edit_update E (job_gvr j) (job_ns j) (job_name j) (job_edit j) s of
     (e, s') \<Rightarrow> (TDone e, s'))"
  by (auto simp: run_thread.simps [of E j TGet] run_thread.simps [of E j "TUpdate _"]
      run_thread.simps [of E j "TDone _"] get_edit_update_def split: prod.splits sum.splits)

lemma update_commute:
  "k \<noteq> k' \<Longrightarrow> map_of al k = Some x \<Longrightarrow> map_of al k' = Some y \<Longrightarrow>
   AList.update k v (AList.update k' v' al) = AList.update k' v' (AList.update k v al)"
proof (induction al)
  case (Cons a al)
  then show ?case
    by (cases a; cases "fst a = k \<or> fst a = k'") (auto simp: update_conv' dest: update_triv)
qed simp

interpretation ref_kinds: kinds_independent ref_env
proof
  fix g g' :: gvr and n k n' k' :: string and j j' :: json
  assume "g \<noteq> g'"
  show "commutes (Dyn_Get ref_env g n k) (Dyn_Get ref_env g' n' k')"
    by (simp add: commutes_def ref_env_def ref_get_def split: option.splits)
  show "commutes (Dyn_Get ref_env g n k) (Dyn_Update ref_env g' n' j')"
    using \<open>g \<noteq> g'\<close> by (simp add: commutes_def ref_env_def ref_get_def ref_update_def update_conv split: option.splits)
  show "commutes (Dyn_Update ref_env g n j) (Dyn_Update ref_env g' n' j')"
    using \<open>g \<noteq> g'\<close> update_commute [where k = "(g, n, jname j)" and k' = "(g', n', jname j')" and v = "admit g j" and v' = "admit g' j'"]
    by (auto simp: commutes_def ref_env_def ref_update_def update_conv split: option.splits)
qed

text \<open>
  C17: both goroutines of a modification end, and however they are interleaved the outcome and the world
  are those of resizing the VM first and the data volume then.
\<close>

theorem resize_interleaving:
  assumes "kinds_independent E"
  shows "resize_both E ns vm cpu mem dv gb s =
     (case Go_Sched E s of (cs, s1) \<Rightarrow>
      case ResizeVM E ns vm cpu mem s1 of (e1, s2) \<Rightarrow>
      case ResizeDataVolume E ns dv gb s2 of (e2, s3) \<Rightarrow> ((e1, e2), s3))"
proof -
  have "job_gvr (vm_job E ns vm cpu mem) \<noteq> job_gvr (dv_job E ns dv gb)"
    by (simp add: vm_job_def dv_job_def vmGVR_def dvGVR_def mk_gvr_def)
  from kinds_independent.run_threads_seq [OF assms this] show ?thesis
    by (simp add: resize_both_def run_thread_get vm_job_def dv_job_def ResizeVM_def ResizeDataVolume_def
        split: prod.splits)
qed

theorem resize_interleaving_witness:
  "resize_both ref_env ''team-a'' ''pg-db'' 4 16384 ''pg-db-data'' 50 (ready_cluster\<lparr>cl_sched := [1, 0, 1, 0]\<rparr>)
   = (case ResizeVM ref_env ''team-a'' ''pg-db'' 4 16384 (ready_cluster\<lparr>cl_sched := [1, 0, 1, 0]\<rparr>) of (e1, s2) \<Rightarrow>
      case ResizeDataVolume ref_env ''team-a'' ''pg-db-data'' 50 s2 of (e2, s3) \<Rightarrow> ((e1, e2), s3))"
  using resize_interleaving [OF ref_kinds.kinds_independent_axioms] by (simp add: ref_env_def)

end
