(* ===== verification/SnapshotCtl.thy ===== *)
theory SnapshotCtl
  imports InstanceCtl
begin

text \<open>
  \<open>internal/controller/dbsnapshot_reconciler.go\<close>: the reconciler of DBSnapshot objects, a one-shot
  pgBackRest run over SSH.
\<close>

section \<open>Definitions\<close>

abbreviation sname :: "DBSnapshot \<Rightarrow> string" where "sname sn \<equiv> m_Name (snap_ObjectMeta sn)"

abbreviation sns :: "DBSnapshot \<Rightarrow> string" where "sns sn \<equiv> m_Namespace (snap_ObjectMeta sn)"

abbreviation sphase :: "DBSnapshot \<Rightarrow> string" where "sphase sn \<equiv> sst_Phase (snap_Status sn)"

definition set_snap :: "(DBSnapshotStatus \<Rightarrow> DBSnapshotStatus) \<Rightarrow> DBSnapshot \<Rightarrow> DBSnapshot" where
  "set_snap f sn = sn\<lparr>snap_Status := f (snap_Status sn)\<rparr>"

definition snap_fail :: "'s env \<Rightarrow> DBSnapshot \<Rightarrow> string \<Rightarrow> 's \<Rightarrow> (Result \<times> error option) \<times> 's" where
  "snap_fail E sn msg s =
     (case StatusUpdate_DBSnapshot E
        (set_snap (\<lambda>st. st\<lparr>sst_Phase := ''failed'', sst_Message := msg\<rparr>) sn) s of
        (_, s') \<Rightarrow> ((no_requeue, None), s'))"

definition backup_type :: "DBSnapshot \<Rightarrow> string" where
  "backup_type sn = orDefault (ss_SnapshotType (snap_Spec sn)) ''incr''"

definition backup_command :: "string \<Rightarrow> string \<Rightarrow> string" where
  "backup_command stanza btype =
     ''sudo -u postgres pgbackrest --stanza='' @ stanza @ '' backup --type='' @ btype"

definition missing_key_msg :: string where
  "missing_key_msg = ''credentials secret missing ssh_private_key ''
     @ [CHR 0xE2, CHR 0x80, CHR 0x94]
     @ '' was this instance provisioned before backup support was added?''"

text \<open>With the Secret read: the SSH run and the final status.\<close>

definition ssh_backup ::
  "'s env \<Rightarrow> DBSnapshot \<Rightarrow> DBInstance \<Rightarrow> string \<Rightarrow> (string \<times> string) list \<Rightarrow> 's
   \<Rightarrow> (Result \<times> error option) \<times> 's" where
  "ssh_backup E sn inst vmIP secretData s =
     (let sshKey = map_get secretData SecretKeySSHPrivateKey in
      if sshKey = [] then snap_fail E sn missing_key_msg s
      else (case SSHExec E vmIP sshKey (backup_command (iname inst) (backup_type sn)) s of
          ((out, Some e), s1) \<Rightarrow>
            snap_fail E sn (err_text e @ [CHR 0x0A, CHR 0x0A] @ ''pgbackrest output:''
              @ [CHR 0x0A] @ out) s1
        | ((out, None), s1) \<Rightarrow>
            (case Time_Now E s1 of (now, s2) \<Rightarrow>
              (case StatusUpdate_DBSnapshot E
                 (set_snap (\<lambda>st. st\<lparr>sst_Phase := ''available'', sst_Done := Some now,
                      sst_S3Path := ''/'' @ iname inst @ ''/backup/'' @ backup_type sn,
                      sst_Message := out\<rparr>) sn) s2 of
                 ((err, _), s3) \<Rightarrow> ((no_requeue, err), s3)))))"

text \<open>From the in-progress mark on.\<close>

definition run_backup ::
  "'s env \<Rightarrow> DBSnapshot \<Rightarrow> DBInstance \<Rightarrow> string \<Rightarrow> 's \<Rightarrow> (Result \<times> error option) \<times> 's" where
  "run_backup E sn0 inst vmIP s =
     (case StatusUpdate_DBSnapshot E (set_snap (\<lambda>st. st\<lparr>sst_Phase := ''creating''\<rparr>) sn0) s of
        ((Some e, _), s1) \<Rightarrow> ((no_requeue, Some e), s1)
      | ((None, sn), s1) \<Rightarrow>
          (case GetSecret E (sns sn) (res_SecretName (res inst)) s1 of
             (Inl e, s2) \<Rightarrow> snap_fail E sn (''read credentials secret: '' @ err_text e) s2
           | (Inr secretData, s2) \<Rightarrow> ssh_backup E sn inst vmIP secretData s2))"

definition Snap_Reconcile :: "'s env \<Rightarrow> string \<Rightarrow> string \<Rightarrow> 's \<Rightarrow> (Result \<times> error option) \<times> 's" where
  "Snap_Reconcile E ns name s =
     (case Get_DBSnapshot E ns name s of
        (Inl e, s1) \<Rightarrow> ((no_requeue, if IsNotFound e then None else Some e), s1)
      | (Inr sn, s1) \<Rightarrow>
          if sphase sn = ''available'' \<or> sphase sn = ''failed'' then ((no_requeue, None), s1)
          else (case Get_DBInstance E (sns sn) (ss_DBInstanceRef (snap_Spec sn)) s1 of
              (Inl e, s2) \<Rightarrow>
                if IsNotFound e
                then snap_fail E sn (''DBInstance '' @ Quote (ss_DBInstanceRef (snap_Spec sn)) @ '' not found'') s2
                else ((no_requeue, Some e), s2)
            | (Inr inst, s2) \<Rightarrow>
                if phase inst \<noteq> StatusAvailable then ((requeue_after 30, None), s2)
                else (let vmIP = st_ManagementAddress (inst_Status inst) in
                  if vmIP = [] then ((requeue_after 30, None), s2)
                  else run_backup E sn inst vmIP s2)))"

section \<open>The snapshot client\<close>

text \<open>
  What the snapshot reconciler relies on: a status write gives the snapshot back with its
  specification and its identity.
\<close>

locale snap_client =
  fixes E :: "'s env"
  assumes snap_status_same: "StatusUpdate_DBSnapshot E sn s = ((err, sn'), s') \<Longrightarrow>
      snap_Spec sn' = snap_Spec sn \<and> sname sn' = sname sn \<and> sns sn' = sns sn"
begin

lemma backup_type_kept:
  "StatusUpdate_DBSnapshot E sn s = ((err, sn'), s') \<Longrightarrow> backup_type sn' = backup_type sn"
  by (auto simp: backup_type_def dest!: snap_status_same)

end

lemma snap_client_traced: "snap_client E \<Longrightarrow> snap_client (traced E)"
  unfolding snap_client_def by (auto simp: traced_def record_call_def split: prod.splits)

interpretation ref_snap: snap_client ref_env
  by unfold_locales (simp_all add: ref_env_def)

lemma set_snap_simps [simp]:
  "snap_Spec (set_snap f sn) = snap_Spec sn" "snap_ObjectMeta (set_snap f sn) = snap_ObjectMeta sn"
  "snap_Status (set_snap f sn) = f (snap_Status sn)" "backup_type (set_snap f sn) = backup_type sn"
  by (simp_all add: set_snap_def backup_type_def)

section \<open>What a reconcile of a snapshot calls\<close>

text \<open>
  The shape of a backup run: the in-progress mark, the Secret, at most one dial and one command,
  and one final status, which is \<open>available\<close> only after the command.
\<close>

definition dial_of :: "DBInstance \<Rightarrow> string \<Rightarrow> call" where
  "dial_of inst signer = CSshDial (JoinHostPort (st_ManagementAddress (inst_Status inst)) ''22'') ''ubuntu'' signer"

definition ssh_part :: "DBSnapshot \<Rightarrow> DBInstance \<Rightarrow> call list \<Rightarrow> bool" where
  "ssh_part sn inst ss = (ss = [] \<or> (\<exists>k. ss = [dial_of inst k])
     \<or> (\<exists>k. ss = [dial_of inst k, CSshRun (backup_command (iname inst) (backup_type sn))]))"

definition final_part :: "DBSnapshot \<Rightarrow> DBInstance \<Rightarrow> call list \<Rightarrow> bool" where
  "final_part sn inst cs =
     (\<exists>ss sn2. cs = ss @ [CSnapStatus sn2] \<and> ssh_part sn inst ss
        \<and> (sphase sn2 = ''failed'' \<or> sphase sn2 = ''available'' \<and> length ss = 2))"

definition backup_part :: "DBSnapshot \<Rightarrow> DBInstance \<Rightarrow> call list \<Rightarrow> bool" where
  "backup_part sn inst cs =
     (\<exists>sn1 ds. sphase sn1 = ''creating'' \<and> (cs = [CSnapStatus sn1]
        \<or> cs = CSnapStatus sn1 # CGet secretGVR (sns sn) (res_SecretName (res inst)) # ds
          \<and> final_part sn inst ds))"

context recorder
begin

lemma snap_fail_log:
  assumes "snap_fail E sn msg s = (r, s')"
  shows "\<exists>sn2. lg s' = lg s @ [CSnapStatus sn2] \<and> sphase sn2 = ''failed''"
  using assms by (auto simp: snap_fail_def split: prod.splits dest!: StatusUpdate_DBSnapshot_log)

lemma SSHExec_log:
  assumes "SSHExec E (st_ManagementAddress (inst_Status inst)) key
      (backup_command (iname inst) (backup_type sn)) s = ((out, err), s')"
  shows "\<exists>ss. lg s' = lg s @ ss \<and> ssh_part sn inst ss \<and> (err = None \<longrightarrow> length ss = 2)"
  using assms unfolding SSHExec_def ssh_part_def dial_of_def
  by (auto split: sum.splits prod.splits option.splits dest!: Ssh_Dial_log Ssh_NewSession_log Ssh_Run_log)

lemma snap_fail_final:
  assumes "snap_fail E sn msg s = (r, s')" "lg s = l @ ss" "ssh_part sn inst ss"
  shows "\<exists>ds. lg s' = l @ ds \<and> final_part sn inst ds"
  using snap_fail_log [OF assms(1)] assms(2,3) by (auto simp: final_part_def)

lemma ssh_backup_log:
  assumes "ssh_backup E sn inst (st_ManagementAddress (inst_Status inst)) dat s = (r, s')"
  shows "\<exists>ds. lg s' = lg s @ ds \<and> final_part sn inst ds"
proof -
  let ?key = "map_get dat SecretKeySSHPrivateKey"
  obtain out err s1 where x: "SSHExec E (st_ManagementAddress (inst_Status inst)) ?key
      (backup_command (iname inst) (backup_type sn)) s = ((out, err), s1)" by (metis surj_pair)
  obtain ss where ss: "lg s1 = lg s @ ss" "ssh_part sn inst ss" "err = None \<longrightarrow> length ss = 2"
    using SSHExec_log [OF x] by blast
  consider "?key = []" | y where "?key \<noteq> []" "err = Some y" | "?key \<noteq> []" "err = None"
    by (cases err) auto
  then show ?thesis
  proof cases
    case 1
    with assms have "snap_fail E sn missing_key_msg s = (r, s')" by (simp add: ssh_backup_def)
    then show ?thesis by (rule snap_fail_final [of _ _ _ _ _ _ "[]"]) (simp_all add: ssh_part_def)
  next
    case 2
    with assms x obtain msg where "snap_fail E sn msg s1 = (r, s')" by (auto simp: ssh_backup_def Let_def)
    from snap_fail_final [OF this ss(1,2)] show ?thesis .
  next
    case 3
    with assms x obtain sn2 where "lg s' = lg s1 @ [CSnapStatus sn2]" "sphase sn2 = ''available''"
      by (auto simp: ssh_backup_def Let_def split: prod.splits
          dest!: Time_Now_log StatusUpdate_DBSnapshot_log)
    with ss 3 show ?thesis by (auto simp: final_part_def)
  qed
qed

lemma run_backup_log:
  assumes "snap_client E"
    and "run_backup E sn0 inst (st_ManagementAddress (inst_Status inst)) s = (r, s')"
  shows "\<exists>cs. lg s' = lg s @ cs \<and> backup_part sn0 inst cs"
proof -
  let ?c = "set_snap (\<lambda>st. st\<lparr>sst_Phase := ''creating''\<rparr>) sn0"
  obtain e sn s1 where m: "StatusUpdate_DBSnapshot E ?c s = ((e, sn), s1)" by (metis surj_pair)
  have l1: "lg s1 = lg s @ [CSnapStatus ?c]" by (rule StatusUpdate_DBSnapshot_log [OF m])
  have same: "sns sn = sns sn0" "final_part sn = final_part sn0"
    using snap_client.snap_status_same [OF assms(1) m] snap_client.backup_type_kept [OF assms(1) m]
    by (simp_all add: fun_eq_iff final_part_def ssh_part_def)
  obtain d s2 where g: "GetSecret E (sns sn) (res_SecretName (res inst)) s1 = (d, s2)" by (metis surj_pair)
  have l2: "lg s2 = lg s1 @ [CGet secretGVR (sns sn0) (res_SecretName (res inst))]"
    using GetSecret_log [OF g] same by simp
  show ?thesis
  proof (cases e)
    case (Some x)
    with assms(2) m l1 show ?thesis by (auto simp: run_backup_def backup_part_def)
  next
    case None
    note run = assms(2) [unfolded run_backup_def m None, simplified, unfolded g]
    have "\<exists>ds. lg s' = lg s2 @ ds \<and> final_part sn inst ds"
    proof (cases d)
      case (Inl x)
      with run have "snap_fail E sn (''read credentials secret: '' @ err_text x) s2 = (r, s')" by simp
      then show ?thesis by (rule snap_fail_final [of _ _ _ _ _ _ "[]"]) (simp_all add: ssh_part_def)
    next
      case (Inr dat)
      with run show ?thesis by (intro ssh_backup_log) simp
    qed
    with l1 l2 same show ?thesis by (fastforce simp: backup_part_def)
  qed
qed

end

text \<open>Every reconcile of a snapshot, by the calls it makes.\<close>

lemma Snap_Reconcile_calls:
  assumes "snap_client E" and "Snap_Reconcile (traced E) ns name (s, []) = (r, (s', cs))"
  obtains (unread) x where "fst (Get_DBSnapshot E ns name s) = Inl x" "cs = [CSnapGet ns name]"
    | (terminal) sn where "fst (Get_DBSnapshot E ns name s) = Inr sn" "cs = [CSnapGet ns name]"
        "sphase sn = ''available'' \<or> sphase sn = ''failed''" "r = (no_requeue, None)"
    | (waiting) sn where "fst (Get_DBSnapshot E ns name s) = Inr sn"
        "sphase sn \<noteq> ''available''" "sphase sn \<noteq> ''failed''"
        "cs = [CSnapGet ns name, CInstGet (sns sn) (ss_DBInstanceRef (snap_Spec sn))]"
    | (orphan) sn sn2 where "fst (Get_DBSnapshot E ns name s) = Inr sn"
        "sphase sn \<noteq> ''available''" "sphase sn \<noteq> ''failed''" "sphase sn2 = ''failed''"
        "cs = [CSnapGet ns name, CInstGet (sns sn) (ss_DBInstanceRef (snap_Spec sn)), CSnapStatus sn2]"
    | (backup) sn inst t ds where "Get_DBSnapshot E ns name s = (Inr sn, t)"
        "sphase sn \<noteq> ''available''" "sphase sn \<noteq> ''failed''"
        "fst (Get_DBInstance E (sns sn) (ss_DBInstanceRef (snap_Spec sn)) t) = Inr inst"
        "phase inst = StatusAvailable" "st_ManagementAddress (inst_Status inst) \<noteq> []"
        "cs = [CSnapGet ns name, CInstGet (sns sn) (ss_DBInstanceRef (snap_Spec sn))] @ ds"
        "backup_part sn inst ds"
proof -
  obtain g t where g: "Get_DBSnapshot E ns name s = (g, t)" by (metis surj_pair)
  then have g': "Get_DBSnapshot (traced E) ns name (s, []) = (g, (t, [CSnapGet ns name]))"
    by (simp add: traced_def record_call_def)
  note run = assms(2) [unfolded Snap_Reconcile_def g', simplified]
  show thesis
  proof (cases g)
    case (Inl x)
    with run g show thesis by (intro unread) auto
  next
    case (Inr sn)
    let ?ref = "ss_DBInstanceRef (snap_Spec sn)"
    show thesis
    proof (cases "sphase sn = ''available'' \<or> sphase sn = ''failed''")
      case True
      with run g Inr show thesis by (intro terminal) auto
    next
      case opn: False
      obtain h u where h: "Get_DBInstance E (sns sn) ?ref t = (h, u)" by (metis surj_pair)
      then have h': "Get_DBInstance (traced E) (sns sn) ?ref (t, [CSnapGet ns name])
          = (h, (u, [CSnapGet ns name, CInstGet (sns sn) ?ref]))"
        by (simp add: traced_def record_call_def)
      note run = run [unfolded Inr, simplified, unfolded h', simplified]
      show thesis
      proof (cases h)
        case (Inl x)
        with run opn g Inr show thesis
          by (auto split: if_splits dest!: tr.snap_fail_log intro: waiting orphan)
      next
        case (Inr inst)
        note here = Inr \<open>g = Inr sn\<close>
        show thesis
        proof (cases "phase inst = StatusAvailable \<and> st_ManagementAddress (inst_Status inst) \<noteq> []")
          case False
          with run opn g here show thesis by (auto simp: Let_def split: if_splits intro: waiting)
        next
          case True
          with run opn here have "run_backup (traced E) sn inst (st_ManagementAddress (inst_Status inst))
              (u, [CSnapGet ns name, CInstGet (sns sn) ?ref]) = (r, (s', cs))"
            by (simp add: Let_def)
          from tr.run_backup_log [OF snap_client_traced [OF assms(1)] this] True opn g h here
          show thesis by (auto intro: backup)
        qed
      qed
    qed
  qed
qed

section \<open>The life of a snapshot\<close>

fun snap_writes :: "call list \<Rightarrow> string list" where
  "snap_writes [] = []"
| "snap_writes (CSnapStatus sn # cs) = sphase sn # snap_writes cs"
| "snap_writes (_ # cs) = snap_writes cs"

lemma snap_writes_append [simp]: "snap_writes (cs @ ds) = snap_writes cs @ snap_writes ds"
  by (induction cs rule: snap_writes.induct) simp_all

lemma ssh_part_writes: "ssh_part sn inst ss \<Longrightarrow> snap_writes ss = []"
  by (auto simp: ssh_part_def dial_of_def)

text \<open>The abstract machine: a snapshot is marked, then it succeeds or fails, and that is final.\<close>

definition final_phase :: "string \<Rightarrow> bool" where
  "final_phase p = (p = ''available'' \<or> p = ''failed'')"

inductive snap_step :: "string \<Rightarrow> string \<Rightarrow> bool" where
  mark: "\<not> final_phase p \<Longrightarrow> snap_step p ''creating''"
| fail: "\<not> final_phase p \<Longrightarrow> snap_step p ''failed''"
| finish: "snap_step ''creating'' ''available''"

inductive_simps snap_step_iff: "snap_step p q"

lemma final_no_step: "final_phase p \<Longrightarrow> \<not> snap_step p q"
  by (auto simp: snap_step_iff final_phase_def)

lemma backup_part_steps:
  assumes "\<not> final_phase p" "backup_part sn inst ds"
  shows "successively snap_step (p # snap_writes ds)"
  using assms by (auto simp: backup_part_def final_part_def ssh_part_writes snap_step_iff final_phase_def)

text \<open>
  C12: a reconcile takes a snapshot along the machine: the phases it writes, one after the other,
  are steps from the phase it read. A snapshot that is available or failed is left alone: nothing
  is called after the snapshot is read.
\<close>

theorem snapshot_lifecycle:
  assumes "snap_client E" and "fst (Get_DBSnapshot E ns name s) = Inr sn"
    and "Snap_Reconcile (traced E) ns name (s, []) = (r, (s', cs))"
  shows "successively snap_step (sphase sn # snap_writes cs)
     \<and> (final_phase (sphase sn) \<longrightarrow> cs = [CSnapGet ns name] \<and> r = (no_requeue, None))"
  using assms(1,3)
proof (cases rule: Snap_Reconcile_calls)
  case (backup sn' inst t ds)
  with assms(2) backup_part_steps [of "sphase sn" sn' inst ds] show ?thesis
    by (auto simp: final_phase_def)
qed (use assms(2) in \<open>auto simp: final_phase_def snap_step_iff\<close>)

text \<open>
  C13: a backup command is run only on an available instance with a management address, for a
  snapshot that is not final; it is the one command of the reconcile, over the one connection to
  that address, between the mark and one final status.
\<close>

theorem backup_run_exact:
  assumes "snap_client E" and "Snap_Reconcile (traced E) ns name (s, []) = (r, (s', cs))"
    and "CSshRun c \<in> set cs"
  shows "\<exists>sn inst signer t sn1 sn2. Get_DBSnapshot E ns name s = (Inr sn, t) \<and> \<not> final_phase (sphase sn)
     \<and> fst (Get_DBInstance E (sns sn) (ss_DBInstanceRef (snap_Spec sn)) t) = Inr inst
     \<and> phase inst = StatusAvailable \<and> st_ManagementAddress (inst_Status inst) \<noteq> []
     \<and> c = backup_command (iname inst) (backup_type sn)
     \<and> cs = [CSnapGet ns name, CInstGet (sns sn) (ss_DBInstanceRef (snap_Spec sn)), CSnapStatus sn1,
             CGet secretGVR (sns sn) (res_SecretName (res inst)),
             CSshDial (JoinHostPort (st_ManagementAddress (inst_Status inst)) ''22'') ''ubuntu'' signer,
             CSshRun c, CSnapStatus sn2]
     \<and> sphase sn1 = ''creating'' \<and> final_phase (sphase sn2)"
  using assms(1,2)
proof (cases rule: Snap_Reconcile_calls)
  case (backup sn inst t ds)
  with assms(3) obtain sn1 ss sn2 where
    "ds = CSnapStatus sn1 # CGet secretGVR (sns sn) (res_SecretName (res inst)) # ss @ [CSnapStatus sn2]"
    "sphase sn1 = ''creating''" "final_phase (sphase sn2)" "ssh_part sn inst ss" "CSshRun c \<in> set ss"
    by (auto simp: backup_part_def final_part_def final_phase_def)
  with backup show ?thesis by (auto simp: ssh_part_def dial_of_def final_phase_def)
qed (use assms(3) in auto)

definition sample_backup_cluster :: cluster where
  "sample_backup_cluster = empty_cluster\<lparr>
     cl_objs := [((secretGVR, ''team-a'', ''pg-db-credentials''),
        JMap [(''data'', JMap [(''ssh_private_key'', JStr (StdEncodeToString ''PEM:key''))])])],
     cl_insts := [zero_instance\<lparr>
        inst_ObjectMeta := zero_meta\<lparr>m_Name := ''db'', m_Namespace := ''team-a''\<rparr>,
        inst_Status := zero_status\<lparr>st_Phase := StatusAvailable, st_ManagementAddress := ''10.0.0.5'',
           st_Resources := zero_res\<lparr>res_SecretName := ''pg-db-credentials''\<rparr>\<rparr>\<rparr>],
     cl_snaps := [\<lparr>snap_ObjectMeta = zero_meta\<lparr>m_Name := ''s1'', m_Namespace := ''team-a''\<rparr>,
        snap_Spec = \<lparr>ss_DBInstanceRef = ''db'', ss_SnapshotType = []\<rparr>,
        snap_Status = \<lparr>sst_Phase = [], sst_S3Path = [], sst_Size = 0, sst_Done = None, sst_Message = []\<rparr>\<rparr>]\<rparr>"

lemma sample_backup_run:
  "CSshRun (backup_command ''db'' ''incr'')
     \<in> set (snd (snd (Snap_Reconcile (traced ref_env) ''team-a'' ''s1'' (sample_backup_cluster, []))))"
  by code_simp

theorem snapshot_lifecycle_witness:
  "successively snap_step ([] # snap_writes
     (snd (snd (Snap_Reconcile (traced ref_env) ''team-a'' ''s1'' (sample_backup_cluster, [])))))"
proof -
  obtain sn where g: "fst (Get_DBSnapshot ref_env ''team-a'' ''s1'' sample_backup_cluster) = Inr sn" "sphase sn = []"
    by (simp add: ref_env_def sample_backup_cluster_def empty_cluster_def zero_meta_def)
  obtain r s' cs where q: "Snap_Reconcile (traced ref_env) ''team-a'' ''s1'' (sample_backup_cluster, []) = (r, (s', cs))"
    by (metis prod.collapse)
  from snapshot_lifecycle [OF ref_snap.snap_client_axioms g(1) q] g(2) show ?thesis by (simp add: q)
qed

theorem backup_run_exact_witness:
  "length (snd (snd (Snap_Reconcile (traced ref_env) ''team-a'' ''s1'' (sample_backup_cluster, [])))) = 7"
proof -
  obtain r s' cs where q: "Snap_Reconcile (traced ref_env) ''team-a'' ''s1'' (sample_backup_cluster, []) = (r, (s', cs))"
    by (metis prod.collapse)
  have "CSshRun (backup_command ''db'' ''incr'') \<in> set cs" using sample_backup_run by (simp add: q)
  from backup_run_exact [OF ref_snap.snap_client_axioms q this] show ?thesis by (auto simp: q)
qed

end
