(* ===== verification/Credentials.thy ===== *)
theory Credentials
  imports SnapshotCtl
begin

text \<open>
  From the creation of a VM (\<open>harvester/client.go\<close>) to the snapshot reconciler, which logs in to it:
  the credentials Secret in between. The locale states what is expected of the API server: a Secret
  that was created can be read back, with \<open>stringData\<close> base64-encoded in \<open>data\<close>, until something
  writes to Secrets again.
\<close>

section \<open>Secrets in the API server\<close>

definition encoded :: "(string \<times> string) list \<Rightarrow> (string \<times> json) list" where
  "encoded kvs = map (\<lambda>kv. (fst kv, JStr (StdEncodeToString (snd kv)))) kvs"

definition plain :: "(string \<times> string) list \<Rightarrow> (string \<times> json) list" where
  "plain kvs = map (\<lambda>kv. (fst kv, JStr (snd kv))) kvs"

locale secret_api = object_api E
  for E :: "'s env" +
  fixes holds :: "'s \<Rightarrow> string \<Rightarrow> string \<Rightarrow> (string \<times> string) list \<Rightarrow> bool"
  assumes created: "Dyn_Create E secretGVR ns obj s = (Inr x, s') \<Longrightarrow>
      NestedField E obj [''stringData''] = Some (JMap (plain kvs)) \<Longrightarrow> holds s' ns (GetName E obj) kvs"
    and refused: "holds s ns name kvs \<Longrightarrow> Dyn_Create E secretGVR ns' obj s = (Inl e, s') \<Longrightarrow> holds s' ns name kvs"
    and read: "holds s ns name kvs \<Longrightarrow> \<exists>obj s'. Dyn_Get E secretGVR ns name s = (Inr obj, s')
      \<and> NestedField E obj [''data''] = Some (JMap (encoded kvs))"
    and kept_create: "holds s ns name kvs \<Longrightarrow> Dyn_Create E vmGVR ns' obj s = (r1, s') \<Longrightarrow> holds s' ns name kvs"
    and kept_get: "holds s ns name kvs \<Longrightarrow> Dyn_Get E vmImageGVR ns' k s = (r2, s') \<Longrightarrow> holds s' ns name kvs"
    and kept_list: "holds s ns name kvs \<Longrightarrow> Dyn_List E vmImageGVR ns' s = (r3, s') \<Longrightarrow> holds s' ns name kvs"
begin

lemma GetSecret_held: "holds s ns name kvs \<Longrightarrow> fst (GetSecret E ns name s) = Inr kvs"
  by (auto simp: GetSecret_def NestedMap_def encoded_def map_filter_decode dest!: read)

lemma resolveVMImage_kept:
  assumes "holds s ns name kvs" "resolveVMImage E ref s = (r, s')"
  shows "holds s' ns name kvs"
  using assms by (auto simp: resolveVMImage_def split: prod.splits sum.splits if_splits option.splits
      intro: kept_get kept_list)

end

section \<open>The Secret of an instance\<close>

definition secret_entries ::
  "VMCreateParams \<Rightarrow> string \<Rightarrow> string \<Rightarrow> string \<Rightarrow> string \<Rightarrow> TLSBundle \<Rightarrow> SSHKeyPair \<Rightarrow> resolvedS3Config option
   \<Rightarrow> (string \<times> string) list" where
  "secret_entries p adminPw replPw exporterPw luksKey tls sshKey s3 =
     [(''admin_user'', p_MasterUser p), (''admin_password'', adminPw), (''repl_password'', replPw),
      (''exporter_password'', exporterPw), (''luks_key'', luksKey), (SecretKeyCACert, tls_CACertPEM tls),
      (SecretKeyCAKey, tls_CAKeyPEM tls), (''server_cert'', tls_ServerCertPEM tls),
      (''server_key'', tls_ServerKeyPEM tls), (SecretKeySSHPrivateKey, ssh_PrivateKeyPEM sshKey),
      (''userdata'', buildCloudInit p adminPw replPw exporterPw luksKey tls (Some sshKey) s3)]"

lemma secret_entries_get:
  "map_get (secret_entries p a r x l tls k s3) SecretKeyCACert = tls_CACertPEM tls"
  "map_get (secret_entries p a r x l tls k s3) SecretKeySSHPrivateKey = ssh_PrivateKeyPEM k"
  "map_get (secret_entries p a r x l tls k s3) ''userdata'' = buildCloudInit p a r x l tls (Some k) s3"
  by (simp_all add: secret_entries_def map_get_def SecretKeyCACert_def SecretKeyCAKey_def SecretKeySSHPrivateKey_def)

text \<open>The document that the VM boots with lists the public half of the key.\<close>

lemma cloudinit_authorizes:
  "\<exists>rest. buildCloudInit p a r x l tls (Some key) s3 =
     ''#cloud-config'' @ nl @ vm_user_block p
     @ ''ssh_authorized_keys:'' @ nl @ ''  - '' @ TrimSpace (ssh_AuthorizedKeyLine key) @ nl @ rest"
  unfolding buildCloudInit_def Let_def ssh_auth_keys_def option.case by (simp only: append_assoc same_append_eq ex_simps) simp

context secret_api
begin

lemma secret_fields:
  "NestedField E (secret_object E p a r x l tls k s3) [''stringData'']
     = Some (JMap (plain (secret_entries p a r x l tls k s3)))"
  "GetName E (secret_object E p a r x l tls k s3) = secret_name (p_ID p)"
proof -
  let ?o = "newUnstructured E ''v1'' ''Secret'' (secret_name (p_ID p)) (p_Namespace p)"
  have m: "is_map (SetNestedField E ?o (JStr ''Opaque'') [''type''])" by (simp add: new_object put_map)
  show "NestedField E (secret_object E p a r x l tls k s3) [''stringData'']
     = Some (JMap (plain (secret_entries p a r x l tls k s3)))"
    using put_settable [OF settable_field [OF m]]
    by (simp add: secret_object_def Let_def plain_def secret_entries_def)
  have "apart [''stringData''] [''metadata'', ''name'']" "apart [''type''] [''metadata'', ''name'']"
    by (simp_all add: apart_def)
  then show "GetName E (secret_object E p a r x l tls k s3) = secret_name (p_ID p)"
    by (intro get_name) (simp add: secret_object_def Let_def get_put_apart new_object)
qed

lemma after_secret:
  assumes "holds s1 (p_Namespace p) (secret_name (p_ID p)) kvs"
    and "create_tolerant E secretGVR (p_Namespace p) secret s = (None, s1)"
    and "create_secret_and_vm E p secret ca s = ((v, n, ca', None), s')"
  shows "n = secret_name (p_ID p) \<and> ca' = ca \<and> fst (GetSecret E (p_Namespace p) n s') = Inr kvs"
proof -
  obtain img s2 where i: "resolveVMImage E (p_OSImage p) s1 = (img, s2)" by (metis surj_pair)
  obtain imgNs imgName imgSC err where img: "img = (imgNs, imgName, imgSC, err)" by (cases img)
  obtain q s3 where c: "create_tolerant E vmGVR (p_Namespace p) (vm_object E p imgNs imgName imgSC) s2 = (q, s3)"
    by (metis surj_pair)
  note run = assms(3) [unfolded create_secret_and_vm_def Let_def assms(2), simplified, unfolded i img, simplified]
  have e: "err = None" using run by (cases err) simp_all
  have r: "n = secret_name (p_ID p)" "ca' = ca" "s' = s3"
    using run by (simp_all add: e c)
  have "holds s3 (p_Namespace p) (secret_name (p_ID p)) kvs"
    using c resolveVMImage_kept [OF assms(1) i]
    by (auto simp: create_tolerant_def split: prod.splits sum.splits intro: kept_create)
  with r have "n = secret_name (p_ID p) \<and> ca' = ca \<and> holds s' (p_Namespace p) (secret_name (p_ID p)) kvs" by simp
  then show ?thesis using GetSecret_held by blast
qed

end

text \<open>Both halves of the key come from one key generation.\<close>

lemma generateSSHKeyPair_halves:
  assumes "generateSSHKeyPair E s = (Inr key, s')"
  shows "\<exists>pub priv s1 ty bytes sshPub. Ed25519_GenerateKey E s = (Inr (pub, priv), s1)
    \<and> Ssh_MarshalPrivateKey E priv ''dbaas-controller'' s1 = (Inr (ty, bytes), s')
    \<and> Ssh_NewPublicKey E pub = Inr sshPub
    \<and> ssh_PrivateKeyPEM key = Pem_Encode E ty bytes
    \<and> ssh_AuthorizedKeyLine key = Ssh_MarshalAuthorizedKey E sshPub"
  using assms by (auto simp: generateSSHKeyPair_def split: prod.splits sum.splits)

text \<open>The log tells how the creation of the Secret was answered.\<close>

lemma secret_creation_answer:
  assumes "create_secret_and_vm (answered E) p secret ca w = (r, w')"
    and "filter is_create (map fst (snd w)) = []"
    and "(CCreate secretGVR (p_Namespace p) secret', Obj (Inr x)) \<in> set (snd w')"
  shows "fst (Dyn_Create E secretGVR (p_Namespace p) secret (fst w)) = Inr x"
proof -
  obtain v n ca' err where r: "r = (v, n, ca', err)" by (cases r)
  from create_secret_and_vm_answered [OF assms(1) [unfolded r]] obtain C where C: "snd w' = snd w @ C"
    "creation_part E p secret C err"
    "snd (hd C) = Obj (fst (Dyn_Create E secretGVR (p_Namespace p) secret (fst w)))" by blast
  have no: "(CCreate g n obj, z) \<notin> set K" if "filter is_create (map fst K) = []" for K g n obj z
    using that by (force simp: filter_empty_conv)
  have "(CCreate secretGVR (p_Namespace p) secret', Obj (Inr x)) \<in> set C"
    using assms(3) no [OF assms(2)] by (auto simp: C(1))
  then have "snd (hd C) = Obj (Inr x)"
    using C(2) by (auto simp: creation_part_def gvr_defs dest: no)
  with C(3) show ?thesis by simp
qed

text \<open>
  C16: the credentials fit together. When \<open>CreatePostgresVM\<close> succeeds and the API server accepted the Secret, reading that
  Secret gives the private half of a key pair whose public half is the authorised key in the cloud-init document
  (\<open>userdata\<close>) next to it, and the CA certificate in it is the one that is returned for the status.
\<close>

theorem credentials_match:
  assumes "secret_api E holds"
    and "CreatePostgresVM (answered E) p (s, []) = ((v, n, ca, None), (s', L))"
    and "(CCreate secretGVR (p_Namespace p) secret, Obj (Inr x)) \<in> set L"
  shows "\<exists>d pub priv s1 s2 s3 ty bytes sshPub rest.
     fst (GetSecret E (p_Namespace p) n s') = Inr d
     \<and> Ed25519_GenerateKey E s1 = (Inr (pub, priv), s2)
     \<and> Ssh_MarshalPrivateKey E priv ''dbaas-controller'' s2 = (Inr (ty, bytes), s3)
     \<and> Ssh_NewPublicKey E pub = Inr sshPub
     \<and> map_get d ''ssh_private_key'' = Pem_Encode E ty bytes
     \<and> map_get d ''userdata'' = ''#cloud-config'' @ nl @ vm_user_block p
          @ ''ssh_authorized_keys:'' @ nl @ ''  - '' @ TrimSpace (Ssh_MarshalAuthorizedKey E sshPub) @ nl @ rest
     \<and> map_get d ''ca_cert'' = ca"
proof -
  have "filter is_create (map fst L) \<noteq> []" using assms(3) by (force simp: filter_empty_conv)
  then obtain sec key ca' w where m: "secret_made E p s (snd w) sec key ca'"
      "filter is_create (map fst (snd w)) = []"
      "create_secret_and_vm (answered E) p sec ca' w = ((v, n, ca, None), (s', L))"
    using CreatePostgresVM_answered [OF assms(2)] by blast
  from m(1) obtain a r y l tls s3 s5 s6 where k: "generateSSHKeyPair E s5 = (Inr key, s6)"
      "sec = secret_object E p a r y l tls key s3" "ca' = tls_CACertPEM tls"
    unfolding secret_made_def by blast
  obtain s1 where cr: "Dyn_Create E secretGVR (p_Namespace p) sec (fst w) = (Inr x, s1)"
    using secret_creation_answer [OF m(3,2)] assms(3) by (metis prod.collapse snd_conv)
  note run = create_secret_and_vm_run [OF m(3), unfolded fst_conv]
  have c: "create_tolerant E secretGVR (p_Namespace p) sec (fst w) = (None, s1)"
    by (simp add: create_tolerant_def cr)
  have h: "holds s1 (p_Namespace p) (secret_name (p_ID p)) (secret_entries p a r y l tls key s3)"
    using secret_api.created [OF assms(1) cr] secret_api.secret_fields [OF assms(1)] k(2) by fastforce
  from secret_api.after_secret [OF assms(1) h c run]
  have d: "ca = ca'" "fst (GetSecret E (p_Namespace p) n s') = Inr (secret_entries p a r y l tls key s3)" by blast+
  obtain rest where u: "buildCloudInit p a r y l tls (Some key) s3 =
     ''#cloud-config'' @ nl @ vm_user_block p
     @ ''ssh_authorized_keys:'' @ nl @ ''  - '' @ TrimSpace (ssh_AuthorizedKeyLine key) @ nl @ rest"
    using cloudinit_authorizes by blast
  from generateSSHKeyPair_halves [OF k(1)] d k(3) u secret_entries_get [of p a r y l tls key s3]
  show ?thesis unfolding SecretKeySSHPrivateKey_def SecretKeyCACert_def by metis
qed

text \<open>
  C38: on a retry they do not. When the Secret is there already, it is left as it is, with the credentials
  of the earlier attempt, while the CA certificate of the new attempt is returned for the status.
\<close>

theorem stale_credentials:
  assumes "secret_api E holds" and "holds s (p_Namespace p) (secret_name (p_ID p)) kvs"
    and "Dyn_Create E secretGVR (p_Namespace p) secret s = (Inl e, s1)" and "IsAlreadyExists e"
    and "create_secret_and_vm E p secret newCA s = ((v, n, ca, None), s')"
  shows "ca = newCA \<and> fst (GetSecret E (p_Namespace p) n s') = Inr kvs"
proof -
  have h: "holds s1 (p_Namespace p) (secret_name (p_ID p)) kvs"
    by (rule secret_api.refused [OF assms(1,2,3)])
  have c: "create_tolerant E secretGVR (p_Namespace p) secret s = (None, s1)"
    using assms(3,4) by (simp add: create_tolerant_def ignoreAlreadyExists_def)
  show ?thesis using secret_api.after_secret [OF assms(1) h c assms(5)] by blast
qed

section \<open>The cluster in memory\<close>

definition ref_holds :: "cluster \<Rightarrow> string \<Rightarrow> string \<Rightarrow> (string \<times> string) list \<Rightarrow> bool" where
  "ref_holds s ns name kvs = (\<exists>obj. map_of (cl_objs s) (secretGVR, ns, name) = Some obj
     \<and> jget obj [''data''] = Some (JMap (encoded kvs)))"

lemma ref_holds_create:
  assumes "ref_create secretGVR ns obj s = (Inr x, s')" "jget obj [''stringData''] = Some (JMap (plain kvs))"
  shows "ref_holds s' ns (jname obj) kvs"
proof -
  obtain m where "obj = JMap m" using assms(2) by (cases obj) auto
  then have "jget (admit secretGVR obj) [''data''] = Some (JMap (encoded kvs))"
    using assms(2) by (simp add: admit_def gvr_defs jset_def map_of_update plain_def encoded_def comp_def)
  then show ?thesis
    using assms(1) by (auto simp: ref_create_def ref_holds_def split: option.splits)
qed

interpretation ref_secrets: secret_api ref_env ref_holds
proof unfold_locales
  fix ns obj s x s' kvs
  show "Dyn_Create ref_env secretGVR ns obj s = (Inr x, s') \<Longrightarrow>
      NestedField ref_env obj [''stringData''] = Some (JMap (plain kvs)) \<Longrightarrow> ref_holds s' ns (GetName ref_env obj) kvs"
    by (simp add: ref_env_def ref_holds_create)
qed (auto simp: ref_env_def ref_holds_def ref_create_def ref_get_def gvr_defs split: option.splits)

definition sample_tls :: TLSBundle where
  "sample_tls = \<lparr>tls_CACertPEM = ''new CA'', tls_CAKeyPEM = [], tls_ServerCertPEM = [], tls_ServerKeyPEM = []\<rparr>"

definition sample_key :: SSHKeyPair where
  "sample_key = \<lparr>ssh_PrivateKeyPEM = ''private'', ssh_AuthorizedKeyLine = ''ssh-ed25519 public''\<rparr>"

lemma sample_secret_name:
  "jname (secret_object ref_env sample_params a r x l tls key s3) = secret_name ''db''"
  using ref_secrets.secret_fields(2) [of sample_params] by (simp add: ref_env_def sample_params_fields)

theorem credentials_match_witness:
  "\<exists>v n ca s' L d rest. CreatePostgresVM (answered ref_env) sample_params (secret_cluster [], [])
       = ((v, n, ca, None), (s', L))
     \<and> fst (GetSecret ref_env ''team-a'' n s') = Inr d \<and> map_get d ''ca_cert'' = ca
     \<and> map_get d ''userdata'' = ''#cloud-config'' @ nl @ ''ssh_authorized_keys:'' @ nl
          @ ''  - ssh-ed25519 ed.pub'' @ nl @ rest"
proof -
  from sample_vm_run [of "[]"] obtain a r x l tls key v n s1 s' L where s1: "cl_objs s1 = cl_objs (secret_cluster [])"
    and c: "create_secret_and_vm (answered ref_env) sample_params (secret_object ref_env sample_params a r x l tls key None)
        (tls_CACertPEM tls) (s1, []) = ((v, n, tls_CACertPEM tls, None), (s', L))"
    and run: "CreatePostgresVM (answered ref_env) sample_params (secret_cluster [], []) = ((v, n, tls_CACertPEM tls, None), (s', L))"
    by (metis surj_pair)
  let ?o = "secret_object ref_env sample_params a r x l tls key None"
  obtain y where "fst (Dyn_Create ref_env secretGVR (p_Namespace sample_params) ?o s1) = Inr y"
    using sample_secret_name [of a r x l tls key None] s1
    by (simp add: ref_env_def ref_create_def secret_cluster_def empty_cluster_def gvr_defs)
  then have "(CCreate secretGVR (p_Namespace sample_params) ?o, Obj (Inr y)) \<in> set L"
    using create_secret_and_vm_answered [OF c] by (auto simp: creation_part_def)
  from credentials_match [OF ref_secrets.secret_api_axioms run this]
  obtain d rest where d: "fst (GetSecret ref_env (p_Namespace sample_params) n s') = Inr d" "map_get d ''ca_cert'' = tls_CACertPEM tls"
     "map_get d ''userdata'' = ''#cloud-config'' @ nl @ vm_user_block sample_params
          @ ''ssh_authorized_keys:'' @ nl @ ''  - '' @ TrimSpace (''ssh-ed25519 ed.pub'' @ nl) @ nl @ rest"
    by (auto simp: ref_env_def)
  moreover have "vm_user_block sample_params = []" by (simp add: vm_user_block_def sample_params_def)
  moreover have "TrimSpace (''ssh-ed25519 ed.pub'' @ nl) = ''ssh-ed25519 ed.pub''" by code_simp
  ultimately show ?thesis using run by (simp add: sample_params_fields)
qed

definition retry_cluster :: cluster where
  "retry_cluster = secret_cluster [((secretGVR, ''team-a'', secret_name ''db''),
     JMap [(''data'', JMap (encoded [(SecretKeyCACert, ''old CA'')]))])]"

theorem stale_credentials_witness:
  "\<exists>v n ca s'. create_secret_and_vm ref_env sample_params
       (secret_object ref_env sample_params [] [] [] [] sample_tls sample_key None) ''new CA'' retry_cluster
       = ((v, n, ca, None), s')
     \<and> ca = ''new CA'' \<and> fst (GetSecret ref_env ''team-a'' n s') = Inr [(SecretKeyCACert, ''old CA'')]"
proof -
  let ?s = retry_cluster
  let ?o = "secret_object ref_env sample_params [] [] [] [] sample_tls sample_key None"
  have h: "ref_holds ?s (p_Namespace sample_params) (secret_name (p_ID sample_params)) [(SecretKeyCACert, ''old CA'')]"
    by (simp add: ref_holds_def retry_cluster_def secret_cluster_def empty_cluster_def sample_params_fields gvr_defs)
  have c: "Dyn_Create ref_env secretGVR (p_Namespace sample_params) ?o ?s = (Inl already_exists, ?s)"
    using sample_secret_name [of "[]" "[]" "[]" "[]" sample_tls sample_key None]
    by (simp add: ref_env_def ref_create_def retry_cluster_def secret_cluster_def empty_cluster_def gvr_defs
        sample_params_fields)
  have e: "IsAlreadyExists already_exists" by (simp add: IsAlreadyExists_def already_exists_def)
  obtain v n s' where r: "create_secret_and_vm ref_env sample_params ?o ''new CA'' ?s = ((v, n, ''new CA'', None), s')"
    using ref_secret_and_vm [of "(?s, [])" sample_params ?o "''new CA''"] secret_cluster_image sample_params_fields(3)
    by (fastforce simp: retry_cluster_def dest: create_secret_and_vm_run)
  from stale_credentials [OF ref_secrets.secret_api_axioms h c e r] r show ?thesis
    by (auto simp: sample_params_fields)
qed

end
