(* ===== verification/Tenants.thy ===== *)
theory Tenants
  imports Prelude
begin

text \<open>
  \<open>internal/tenants/tenants.go\<close>: the tenant configuration, its validation and its two lookups.
  Reading the file and parsing YAML are arguments of \<open>Load\<close>.
\<close>

section \<open>Definitions\<close>

record Quotas =
  q_MaxInstances :: int
  q_MaxStorageGiB :: int
  q_AllowedInstanceClasses :: "string list"

record Tenant =
  tn_Group :: string
  tn_Namespace :: string
  tn_NetworkRef :: string
  tn_Quotas :: Quotas

record Config =
  cfg_Tenants :: "Tenant list"

fun validate_from :: "nat \<Rightarrow> string list \<Rightarrow> Tenant list \<Rightarrow> error option" where
  "validate_from i seen [] = None"
| "validate_from i seen (t # ts) =
     (if tn_Group t = []
        then Some (Errorf (''tenant['' @ itoa (int i) @ '']: group is required''))
      else if tn_Namespace t = []
        then Some (Errorf (''tenant['' @ itoa (int i) @ ''] '' @ Quote (tn_Group t) @ '': namespace is required''))
      else if tn_NetworkRef t = []
        then Some (Errorf (''tenant['' @ itoa (int i) @ ''] '' @ Quote (tn_Group t) @ '': networkRef is required''))
      else if tn_Group t \<in> set seen
        then Some (Errorf (''duplicate group '' @ Quote (tn_Group t)))
      else validate_from (Suc i) (tn_Group t # seen) ts)"

definition validate :: "Config \<Rightarrow> error option" where
  "validate cfg = validate_from 0 [] (cfg_Tenants cfg)"

definition Lookup :: "Config \<Rightarrow> string \<Rightarrow> Tenant option" where
  "Lookup c grp = find (\<lambda>t. tn_Group t = grp) (cfg_Tenants c)"

definition LookupByNamespace :: "Config \<Rightarrow> string \<Rightarrow> Tenant option" where
  "LookupByNamespace c namespace = find (\<lambda>t. tn_Namespace t = namespace) (cfg_Tenants c)"

definition Load ::
  "(string \<Rightarrow> error + string) \<Rightarrow> (string \<Rightarrow> error + Config) \<Rightarrow> string \<Rightarrow> error + Config" where
  "Load readFile unmarshal path =
     (case readFile path of
        Inl e \<Rightarrow> Inl (Errorw (''read tenants config '' @ Quote path @ '': '') e)
      | Inr bytes \<Rightarrow>
          (case unmarshal bytes of
             Inl e \<Rightarrow> Inl (Errorw (''parse tenants config '' @ Quote path @ '': '') e)
           | Inr cfg \<Rightarrow>
               (case validate cfg of
                  Some e \<Rightarrow> Inl (Errorw ''invalid tenants config: '' e)
                | None \<Rightarrow> Inr cfg)))"

section \<open>Validation and lookup\<close>

definition tenant_complete :: "Tenant \<Rightarrow> bool" where
  "tenant_complete t = (tn_Group t \<noteq> [] \<and> tn_Namespace t \<noteq> [] \<and> tn_NetworkRef t \<noteq> [])"

lemma validate_from_None_iff:
  "validate_from i seen ts = None \<longleftrightarrow>
     (\<forall>t \<in> set ts. tenant_complete t) \<and> distinct (map tn_Group ts)
     \<and> set (map tn_Group ts) \<inter> set seen = {}"
  by (induction ts arbitrary: i seen) (auto simp: tenant_complete_def)

lemma validate_None_iff:
  "validate cfg = None \<longleftrightarrow>
     list_all tenant_complete (cfg_Tenants cfg) \<and> distinct (map tn_Group (cfg_Tenants cfg))"
  by (simp add: validate_def validate_from_None_iff list_all_iff)

text \<open>
  Both lookups search a list of entries by a key, first match first. What they promise holds for
  any such search.
\<close>

locale directory =
  fixes entries :: "'c \<Rightarrow> 'e list" and key :: "'e \<Rightarrow> string" and look :: "'c \<Rightarrow> string \<Rightarrow> 'e option"
  assumes look_first: "look c k = (case dropWhile (\<lambda>e. key e \<noteq> k) (entries c) of [] \<Rightarrow> None | e # _ \<Rightarrow> Some e)"
begin

lemma look_sound:
  assumes "look c k = Some e"
  shows "e \<in> set (entries c) \<and> key e = k"
proof -
  from assms obtain es where d: "dropWhile (\<lambda>e. key e \<noteq> k) (entries c) = e # es"
    by (auto simp: look_first split: list.splits)
  then have "e \<in> set (dropWhile (\<lambda>e. key e \<noteq> k) (entries c))" by simp
  then have "e \<in> set (entries c)" by (rule set_dropWhileD)
  with d show ?thesis by (simp add: dropWhile_eq_Cons_conv)
qed

lemma look_total: "look c k = None \<longleftrightarrow> k \<notin> set (map key (entries c))"
proof -
  have "look c k = None \<longleftrightarrow> dropWhile (\<lambda>e. key e \<noteq> k) (entries c) = []"
    by (cases "dropWhile (\<lambda>e. key e \<noteq> k) (entries c)") (simp_all only: look_first list.simps, simp_all)
  then show ?thesis by (auto simp: dropWhile_eq_Nil_conv)
qed

lemma look_unique:
  assumes "distinct (map key (entries c))" "e \<in> set (entries c)"
  shows "look c (key e) = Some e"
proof (cases "look c (key e)")
  case None
  with assms(2) show ?thesis by (auto simp: look_total)
next
  case (Some x)
  with look_sound [OF Some] assms show ?thesis by (auto simp: distinct_map inj_on_def)
qed

end

interpretation by_group: directory cfg_Tenants tn_Group Lookup
  by unfold_locales (simp add: Lookup_def find_dropWhile comp_def)

interpretation by_namespace: directory cfg_Tenants tn_Namespace LookupByNamespace
  by unfold_locales (simp add: LookupByNamespace_def find_dropWhile comp_def)

lemma Load_Inr_iff:
  "Load readFile unmarshal path = Inr cfg \<longleftrightarrow>
     (\<exists>bytes. readFile path = Inr bytes \<and> unmarshal bytes = Inr cfg) \<and> validate cfg = None"
  by (auto simp: Load_def split: sum.splits option.splits)

text \<open>
  A configuration is loaded exactly when it is read and parsed and all its tenants have a group,
  a namespace and a network, with no group twice; then every tenant is found under its group, and a
  group without a tenant gives nothing.
\<close>

theorem tenants_loaded:
  "Load readFile unmarshal path = Inr cfg \<longleftrightarrow>
     (\<exists>bytes. readFile path = Inr bytes \<and> unmarshal bytes = Inr cfg)
     \<and> list_all tenant_complete (cfg_Tenants cfg) \<and> distinct (map tn_Group (cfg_Tenants cfg))"
  by (simp add: Load_Inr_iff validate_None_iff)

text \<open>
  In a configuration that was loaded, a group is looked up faithfully: the tenant found is the
  one tenant with that group.
\<close>

theorem tenant_lookup:
  assumes "Load readFile unmarshal path = Inr cfg"
  shows "Lookup cfg grp = Some t \<longleftrightarrow> t \<in> set (cfg_Tenants cfg) \<and> tn_Group t = grp"
  using assms by_group.look_sound [of cfg grp t] by_group.look_unique [of cfg t]
  by (auto simp: Load_Inr_iff validate_None_iff)

definition shared_namespace :: Config where
  "shared_namespace = \<lparr>cfg_Tenants = map (\<lambda>g. \<lparr>tn_Group = g, tn_Namespace = ''prod'', tn_NetworkRef = ''net'',
     tn_Quotas = \<lparr>q_MaxInstances = 1, q_MaxStorageGiB = 10, q_AllowedInstanceClasses = []\<rparr>\<rparr>) [''a'', ''b'']\<rparr>"

theorem tenant_lookup_witness:
  "\<exists>t. Lookup shared_namespace ''b'' = Some t \<and> tn_Group t = ''b''"
proof -
  have l: "Load (\<lambda>_. Inr []) (\<lambda>_. Inr shared_namespace) [] = Inr shared_namespace"
    by (simp add: Load_Inr_iff validate_None_iff shared_namespace_def tenant_complete_def)
  show ?thesis
    using tenant_lookup [OF l, of "''b''" "cfg_Tenants shared_namespace ! 1"]
    by (simp add: shared_namespace_def)
qed

text \<open>
  Validation does not ask for distinct namespaces: a configuration in which two tenants share
  one is loaded, and the lookup by namespace then never finds the second.
\<close>

theorem namespace_lookup_ambiguous:
  "validate shared_namespace = None
   \<and> map (\<lambda>t. LookupByNamespace shared_namespace (tn_Namespace t) = Some t) (cfg_Tenants shared_namespace)
     = [True, False]"
  by (simp add: validate_None_iff shared_namespace_def tenant_complete_def LookupByNamespace_def)

end
