(* ===== verification/Gateway.thy ===== *)
theory Gateway
  imports Tenants InstanceCtl
begin

text \<open>
  \<open>internal/gateway/auth.go\<close> and \<open>gateway.go\<close>: the REST gateway. A request carries its method, its
  path (without percent escapes, so that the raw and the decoded path agree), its
  \<open>Authorization\<close> header (empty when absent) and its body as \<open>encoding/json\<close> decodes it
  (\<open>None\<close> when that fails). The key cache of the middleware is explicit state; its mutex makes each
  access atomic. \<open>http.ServeMux\<close> is modelled for the three patterns registered, with its
  redirect of paths that are not clean (except for the method CONNECT).
\<close>

section \<open>Requests and responses\<close>

record request =
  rq_Method :: string
  rq_Path :: string
  rq_Authorization :: string
  rq_Body :: "DBInstance option"

datatype payload =
    PError string
  | PHealth
  | PInstance DBInstance
  | PInstances "DBInstance list"
  | PDeletion string
  | PNone

record response =
  rs_Status :: int
  rs_Payload :: payload
  rs_WWWAuthenticate :: string

definition writeJSON :: "int \<Rightarrow> payload \<Rightarrow> response" where
  "writeJSON status p = \<lparr>rs_Status = status, rs_Payload = p, rs_WWWAuthenticate = []\<rparr>"

definition writeError :: "int \<Rightarrow> string \<Rightarrow> response" where
  "writeError status msg = writeJSON status (PError msg)"

section \<open>Roles and the key cache\<close>

definition RoleAdmin :: string where "RoleAdmin = ''admin''"

definition RoleOperator :: string where "RoleOperator = ''operator''"

definition RoleViewer :: string where "RoleViewer = ''viewer''"

record authMiddleware =
  am_secretName :: string
  am_secretNamespace :: string
  am_keys :: "(string \<times> string) list"

definition newAuthMiddleware :: "string \<Rightarrow> string \<Rightarrow> authMiddleware" where
  "newAuthMiddleware secretName secretNamespace =
     \<lparr>am_secretName = secretName, am_secretNamespace = secretNamespace, am_keys = []\<rparr>"

definition key_entry :: "string \<times> string \<Rightarrow> (string \<times> string) option" where
  "key_entry kv = (let role = TrimSpace (snd kv) in
     if role = RoleAdmin \<or> role = RoleOperator \<or> role = RoleViewer then Some (fst kv, role) else None)"

definition loadKeys :: "'s env \<Rightarrow> authMiddleware \<Rightarrow> 's \<Rightarrow> authMiddleware \<times> 's" where
  "loadKeys E a s =
     (case Get_Secret E (am_secretNamespace a) (am_secretName a) s of
        (Inl _, s') \<Rightarrow> (a, s')
      | (Inr dat, s') \<Rightarrow> (a\<lparr>am_keys := List.map_filter key_entry dat\<rparr>, s'))"

definition auth_lookup ::
  "'s env \<Rightarrow> authMiddleware \<Rightarrow> string \<Rightarrow> 's \<Rightarrow> string option \<times> authMiddleware \<times> 's" where
  "auth_lookup E a token s =
     (case map_of (am_keys a) token of
        Some role \<Rightarrow> (Some role, a, s)
      | None \<Rightarrow> (case loadKeys E a s of (a', s') \<Rightarrow> (map_of (am_keys a') token, a', s')))"

text \<open>\<open>None\<close> when the role is allowed, else the response that was written.\<close>

definition RequireRole :: "string \<Rightarrow> string list \<Rightarrow> response option" where
  "RequireRole role allowedRoles =
     (if role \<in> set allowedRoles then None
      else Some (writeError 403
        (''insufficient permissions, required role: '' @ Join allowedRoles '' or '')))"

section \<open>Handlers\<close>

record Server =
  srv_tenants :: Config
  srv_env_namespace :: string

definition defaultNamespace :: "Server \<Rightarrow> string" where
  "defaultNamespace srv =
     (if srv_env_namespace srv \<noteq> [] then srv_env_namespace srv else ''default'')"

definition handleListInstances :: "'s env \<Rightarrow> Server \<Rightarrow> string \<Rightarrow> 's \<Rightarrow> response \<times> 's" where
  "handleListInstances E srv role s =
     (case RequireRole role [RoleAdmin, RoleOperator, RoleViewer] of
        Some r \<Rightarrow> (r, s)
      | None \<Rightarrow>
          (case List_DBInstance E s of
             (Inl e, s') \<Rightarrow> (writeError 500 (err_text e), s')
           | (Inr l, s') \<Rightarrow> (writeJSON 200 (PInstances l), s')))"

definition fill_defaults :: "Server \<Rightarrow> DBInstance \<Rightarrow> DBInstance" where
  "fill_defaults srv i =
     (let tm = inst_TypeMeta i;
          tm1 = (if tm_APIVersion tm = [] then tm\<lparr>tm_APIVersion := GroupVersionString\<rparr> else tm);
          tm2 = (if tm_Kind tm1 = [] then tm1\<lparr>tm_Kind := ''DBInstance''\<rparr> else tm1);
          om = inst_ObjectMeta i;
          om1 = (if m_Namespace om = [] then om\<lparr>m_Namespace := defaultNamespace srv\<rparr> else om)
      in i\<lparr>inst_TypeMeta := tm2, inst_ObjectMeta := om1\<rparr>)"

definition handleCreateInstance ::
  "'s env \<Rightarrow> Server \<Rightarrow> string \<Rightarrow> DBInstance option \<Rightarrow> 's \<Rightarrow> response \<times> 's" where
  "handleCreateInstance E srv role body s =
     (case RequireRole role [RoleAdmin] of
        Some r \<Rightarrow> (r, s)
      | None \<Rightarrow>
          (case body of
             None \<Rightarrow> (writeError 400 ''invalid JSON body'', s)
           | Some i \<Rightarrow>
               if iname i = [] then (writeError 400 ''metadata.name is required'', s)
               else (case Create_DBInstance E (fill_defaults srv i) s of
                   ((Some e, _), s') \<Rightarrow>
                     (writeError (if IsAlreadyExists e then 409 else 500) (err_text e), s')
                 | ((None, i'), s') \<Rightarrow> (writeJSON 202 (PInstance i'), s'))))"

definition handleGetInstance :: "'s env \<Rightarrow> Server \<Rightarrow> string \<Rightarrow> string \<Rightarrow> 's \<Rightarrow> response \<times> 's" where
  "handleGetInstance E srv role name s =
     (case RequireRole role [RoleAdmin, RoleOperator, RoleViewer] of
        Some r \<Rightarrow> (r, s)
      | None \<Rightarrow>
          (case Get_DBInstance E (defaultNamespace srv) name s of
             (Inl e, s') \<Rightarrow> (writeError (if IsNotFound e then 404 else 500) (err_text e), s')
           | (Inr i, s') \<Rightarrow> (writeJSON 200 (PInstance i), s')))"

definition delete_target :: "Server \<Rightarrow> string \<Rightarrow> DBInstance" where
  "delete_target srv name = zero_instance\<lparr>
     inst_TypeMeta := \<lparr>tm_APIVersion = GroupVersionString, tm_Kind = ''DBInstance''\<rparr>,
     inst_ObjectMeta := zero_meta\<lparr>m_Name := name, m_Namespace := defaultNamespace srv\<rparr>\<rparr>"

definition handleDeleteInstance :: "'s env \<Rightarrow> Server \<Rightarrow> string \<Rightarrow> string \<Rightarrow> 's \<Rightarrow> response \<times> 's" where
  "handleDeleteInstance E srv role name s =
     (case RequireRole role [RoleAdmin] of
        Some r \<Rightarrow> (r, s)
      | None \<Rightarrow>
          (case Delete_DBInstance E (delete_target srv name) s of
             (Some e, s') \<Rightarrow> (writeError (if IsNotFound e then 404 else 500) (err_text e), s')
           | (None, s') \<Rightarrow> (writeJSON 202 (PDeletion name), s')))"

definition set_running :: "bool \<Rightarrow> DBInstance \<Rightarrow> DBInstance" where
  "set_running b i = i\<lparr>inst_Spec := (inst_Spec i)\<lparr>spec_Running := Some b\<rparr>\<rparr>"

definition handleSetRunning ::
  "'s env \<Rightarrow> Server \<Rightarrow> string \<Rightarrow> string \<Rightarrow> bool \<Rightarrow> 's \<Rightarrow> response \<times> 's" where
  "handleSetRunning E srv role name running s =
     (case RequireRole role [RoleAdmin, RoleOperator] of
        Some r \<Rightarrow> (r, s)
      | None \<Rightarrow>
          (case Get_DBInstance E (defaultNamespace srv) name s of
             (Inl e, s') \<Rightarrow> (writeError (if IsNotFound e then 404 else 500) (err_text e), s')
           | (Inr i, s') \<Rightarrow>
               (case Update_DBInstance E (set_running running i) s' of
                  ((Some e, _), s'') \<Rightarrow> (writeError 500 (err_text e), s'')
                | ((None, i'), s'') \<Rightarrow> (writeJSON 202 (PInstance i'), s''))))"

definition not_allowed :: response where
  "not_allowed = writeError 405 ''method not allowed''"

definition path_parts :: "string \<Rightarrow> string list" where
  "path_parts p = Split (TrimByte (TrimPrefix p ''/dbinstances/'') (CHR ''/'')) (CHR ''/'')"

definition handleInstanceRoute :: "'s env \<Rightarrow> Server \<Rightarrow> string \<Rightarrow> request \<Rightarrow> 's \<Rightarrow> response \<times> 's" where
  "handleInstanceRoute E srv role rq s =
     (case path_parts (rq_Path rq) of
        [] \<Rightarrow> (writeError 404 ''instance name is required'', s)
      | name # rest \<Rightarrow>
          if name = [] then (writeError 404 ''instance name is required'', s)
          else (case rest of
              [] \<Rightarrow>
                if rq_Method rq = ''GET'' then handleGetInstance E srv role name s
                else if rq_Method rq = ''DELETE'' then handleDeleteInstance E srv role name s
                else (not_allowed, s)
            | action # _ \<Rightarrow>
                if rq_Method rq \<noteq> ''POST'' then (not_allowed, s)
                else if action = ''start'' then handleSetRunning E srv role name True s
                else if action = ''stop'' then handleSetRunning E srv role name False s
                else (writeError 404 ''unsupported action'', s)))"

section \<open>Routing\<close>

text \<open>\<open>path.Clean\<close> of a rooted path, one element at a time; the result is in reverse.\<close>

fun clean_elems :: "string list \<Rightarrow> string list \<Rightarrow> string list" where
  "clean_elems acc [] = acc"
| "clean_elems acc (e # es) =
     (if e = [] \<or> e = ''.'' then clean_elems acc es
      else if e = ''..'' then clean_elems (drop 1 acc) es
      else clean_elems (e # acc) es)"

definition cleanPath :: "string \<Rightarrow> string" where
  "cleanPath p0 =
     (if p0 = [] then ''/''
      else (let p = (if hd p0 \<noteq> CHR ''/'' then CHR ''/'' # p0 else p0);
                np = CHR ''/'' # Join (rev (clean_elems [] (Split p (CHR ''/'')))) ''/''
            in if last p = CHR ''/'' \<and> np \<noteq> ''/'' then np @ ''/'' else np))"

definition healthz :: "request \<Rightarrow> response" where
  "healthz rq = (if rq_Method rq \<noteq> ''GET'' then not_allowed else writeJSON 200 PHealth)"

definition instances_route :: "'s env \<Rightarrow> Server \<Rightarrow> string \<Rightarrow> request \<Rightarrow> 's \<Rightarrow> response \<times> 's" where
  "instances_route E srv role rq s =
     (if rq_Method rq = ''GET'' then handleListInstances E srv role s
      else if rq_Method rq = ''POST'' then handleCreateInstance E srv role (rq_Body rq) s
      else (not_allowed, s))"

text \<open>Redirects and unknown paths are answered by \<open>net/http\<close> itself, with no JSON payload.\<close>

definition mux :: "'s env \<Rightarrow> Server \<Rightarrow> string \<Rightarrow> request \<Rightarrow> 's \<Rightarrow> response \<times> 's" where
  "mux E srv role rq s =
     (let p = rq_Path rq in
      if rq_Method rq \<noteq> ''CONNECT'' \<and> cleanPath p \<noteq> p then (writeJSON 301 PNone, s)
      else if p = ''/healthz'' then (healthz rq, s)
      else if p = ''/dbinstances'' then instances_route E srv role rq s
      else if HasPrefix p ''/dbinstances/'' then handleInstanceRoute E srv role rq s
      else (writeJSON 404 PNone, s))"

definition Wrap ::
  "'s env \<Rightarrow> Server \<Rightarrow> authMiddleware \<Rightarrow> request \<Rightarrow> 's \<Rightarrow> response \<times> authMiddleware \<times> 's" where
  "Wrap E srv a rq s =
     (if rq_Path rq = ''/healthz'' then (case mux E srv [] rq s of (r, s') \<Rightarrow> (r, a, s'))
      else if rq_Authorization rq = []
      then ((writeError 401 ''missing Authorization header'')
              \<lparr>rs_WWWAuthenticate := ''Bearer realm=\"dbaas\"''\<rparr>, a, s)
      else (let token = TrimPrefix (rq_Authorization rq) ''Bearer '' in
        if token = rq_Authorization rq
        then (writeError 401 ''invalid Authorization header format, expected: Bearer <token>'', a, s)
        else (case auth_lookup E a token s of
            (None, a', s') \<Rightarrow> (writeError 401 ''invalid API key'', a', s')
          | (Some role, a', s') \<Rightarrow> (case mux E srv role rq s' of (r, s'') \<Rightarrow> (r, a', s'')))))"

definition RunGateway ::
  "'s env \<Rightarrow> (string \<Rightarrow> error + string) \<Rightarrow> (string \<Rightarrow> error + Config) \<Rightarrow> string \<Rightarrow> string \<Rightarrow> 's
   \<Rightarrow> (error + Server \<times> authMiddleware) \<times> 's" where
  "RunGateway E readFile unmarshal envTenants envNamespace s =
     (case Load readFile unmarshal (if envTenants = [] then ''/etc/dbaas/tenants.yaml'' else envTenants) of
        Inl e \<Rightarrow> (Inl (Errorw ''gateway: '' e), s)
      | Inr cfg \<Rightarrow>
          (case loadKeys E (newAuthMiddleware ''dbaas-api-keys'' ''dbaas-system'') s of
             (a, s') \<Rightarrow> (Inr (\<lparr>srv_tenants = cfg, srv_env_namespace = envNamespace\<rparr>, a), s')))"

section \<open>Access control\<close>

text \<open>
  The policy that the roles stand for, as a matrix: which calls to the API server a request may cause,
  by the role of its sender. Instances are read, changed and deleted in the default namespace only.
\<close>

fun permits :: "Server \<Rightarrow> string \<Rightarrow> call \<Rightarrow> bool" where
  "permits srv role CInstList = (role \<in> {RoleAdmin, RoleOperator, RoleViewer})"
| "permits srv role (CInstGet n k) =
     (role \<in> {RoleAdmin, RoleOperator, RoleViewer} \<and> n = defaultNamespace srv)"
| "permits srv role (CInstUpdate i) = (role \<in> {RoleAdmin, RoleOperator})"
| "permits srv role (CInstCreate i) = (role = RoleAdmin)"
| "permits srv role (CInstDelete i) = (role = RoleAdmin \<and> ins i = defaultNamespace srv)"
| "permits srv role _ = False"

text \<open>
  The contract of a handler: senders whose role is not in \<open>roles\<close> are answered 403 with no call made,
  and the calls made for the others are \<open>effects\<close>.
\<close>

locale endpoint =
  fixes lg :: "'s \<Rightarrow> call list" and roles :: "string list" and effects :: "call \<Rightarrow> bool"
    and serve :: "string \<Rightarrow> 's \<Rightarrow> response \<times> 's"
  assumes denied: "role \<notin> set roles \<Longrightarrow> serve role s = (r, s') \<Longrightarrow> rs_Status r = 403 \<and> lg s' = lg s"
    and effects: "serve role s = (r, s') \<Longrightarrow> emits lg effects s s'"
begin

lemma enforced:
  assumes "serve role s = (r, s')"
    and "\<And>c. role \<in> set roles \<Longrightarrow> effects c \<Longrightarrow> permits srv role c"
  shows "emits lg (permits srv role) s s'"
proof (cases "role \<in> set roles")
  case True
  with effects [OF assms(1)] assms(2) show ?thesis by (blast intro: emits_mono)
next
  case False
  with denied assms(1) show ?thesis by (blast intro: emits_none)
qed

end

fun is_inst_get :: "Server \<Rightarrow> call \<Rightarrow> bool" where
  "is_inst_get srv (CInstGet n k) = (n = defaultNamespace srv)"
| "is_inst_get srv _ = False"

lemma RequireRole_None [simp]: "RequireRole role allowed = None \<longleftrightarrow> role \<in> set allowed"
  by (simp add: RequireRole_def)

lemma RequireRole_Some: "RequireRole role allowed = Some r \<Longrightarrow> role \<notin> set allowed \<and> rs_Status r = 403"
  by (auto simp: RequireRole_def writeError_def writeJSON_def split: if_splits)

interpretation list_ep: endpoint snd "[RoleAdmin, RoleOperator, RoleViewer]" "\<lambda>c. c = CInstList"
  "handleListInstances (traced E) srv"
  by unfold_locales
    (auto simp: handleListInstances_def split: option.splits prod.splits sum.splits
      dest!: RequireRole_Some dest: tr.cr_log intro: emits_one)

interpretation create_ep: endpoint snd "[RoleAdmin]" "\<lambda>c. \<exists>i. c = CInstCreate i"
  "\<lambda>role. handleCreateInstance (traced E) srv role body"
  by unfold_locales
    (auto simp: handleCreateInstance_def split: option.splits prod.splits if_splits
      dest!: RequireRole_Some dest: tr.cr_log intro: emits_one)

interpretation get_ep: endpoint snd "[RoleAdmin, RoleOperator, RoleViewer]" "is_inst_get srv"
  "\<lambda>role. handleGetInstance (traced E) srv role name"
  by unfold_locales
    (auto simp: handleGetInstance_def split: option.splits prod.splits sum.splits
      dest!: RequireRole_Some dest: tr.cr_log intro: emits_one)

interpretation delete_ep: endpoint snd "[RoleAdmin]" "\<lambda>c. c = CInstDelete (delete_target srv name)"
  "\<lambda>role. handleDeleteInstance (traced E) srv role name"
  by unfold_locales
    (auto simp: handleDeleteInstance_def split: option.splits prod.splits
      dest!: RequireRole_Some dest: tr.cr_log intro: emits_one)

interpretation running_ep: endpoint snd "[RoleAdmin, RoleOperator]"
  "\<lambda>c. is_inst_get srv c \<or> (\<exists>i. c = CInstUpdate i)"
  "\<lambda>role. handleSetRunning (traced E) srv role name b"
  by unfold_locales
    (auto simp: handleSetRunning_def emits_def split: option.splits prod.splits sum.splits
      dest!: RequireRole_Some dest!: tr.cr_log)

lemma is_inst_get_iff: "is_inst_get srv c \<longleftrightarrow> (\<exists>k. c = CInstGet (defaultNamespace srv) k)"
  by (cases c) auto

lemma list_enforced:
  "handleListInstances (traced E) srv role s = (r, s') \<Longrightarrow> emits snd (permits srv role) s s'"
  by (erule list_ep.enforced) (auto simp: is_inst_get_iff)

lemma create_enforced:
  "handleCreateInstance (traced E) srv role body s = (r, s') \<Longrightarrow> emits snd (permits srv role) s s'"
  by (erule create_ep.enforced) (auto simp: is_inst_get_iff)

lemma get_enforced:
  "handleGetInstance (traced E) srv role name s = (r, s') \<Longrightarrow> emits snd (permits srv role) s s'"
  by (erule get_ep.enforced) (auto simp: is_inst_get_iff)

lemma delete_enforced:
  "handleDeleteInstance (traced E) srv role name s = (r, s') \<Longrightarrow> emits snd (permits srv role) s s'"
  by (erule delete_ep.enforced) (auto simp: delete_target_def zero_meta_def)

lemma running_enforced:
  "handleSetRunning (traced E) srv role name b s = (r, s') \<Longrightarrow> emits snd (permits srv role) s s'"
  by (erule running_ep.enforced) (auto simp: is_inst_get_iff)

lemmas handlers_enforced = list_enforced create_enforced get_enforced delete_enforced running_enforced

lemma mux_enforced:
  assumes "mux (traced E) srv role rq s = (r, s')"
  shows "emits snd (permits srv role) s s'"
  using assms unfolding mux_def instances_route_def handleInstanceRoute_def Let_def
  by (auto split: if_splits list.splits intro: handlers_enforced)

text \<open>The key that a request carries.\<close>

definition bearer :: "request \<Rightarrow> string option" where
  "bearer rq = (if HasPrefix (rq_Authorization rq) ''Bearer ''
     then Some (drop 7 (rq_Authorization rq)) else None)"

text \<open>
  What a key is worth: the role that the Secret gives it, if that is one of the three, and the role that the
  sender of a request has: the one the key was last known to have, else the one in the Secret at that moment, none
  if the Secret cannot be read.
\<close>

definition role_of_key :: "(string \<times> string) list \<Rightarrow> string \<Rightarrow> string option" where
  "role_of_key dat tok =
     map_option (\<lambda>kv. TrimSpace (snd kv))
       (find (\<lambda>kv. fst kv = tok \<and> TrimSpace (snd kv) \<in> {''admin'', ''operator'', ''viewer''}) dat)"

definition caller :: "'s env \<Rightarrow> authMiddleware \<Rightarrow> request \<Rightarrow> 's \<Rightarrow> string option" where
  "caller E a rq s =
     (case bearer rq of
        None \<Rightarrow> None
      | Some tok \<Rightarrow>
          if tok \<in> fst ` set (am_keys a) then map_of (am_keys a) tok
          else (case fst (Get_Secret E (am_secretNamespace a) (am_secretName a) s) of
                  Inl _ \<Rightarrow> None
                | Inr dat \<Rightarrow> role_of_key dat tok))"

lemma key_entries_roles: "map_of (List.map_filter key_entry dat) tok = role_of_key dat tok"
  by (induction dat)
    (auto simp: role_of_key_def key_entry_def Let_def List.map_filter_simps RoleAdmin_def RoleOperator_def RoleViewer_def)

lemma auth_lookup_caller:
  assumes "bearer rq = Some tok"
  shows "fst (auth_lookup E a tok s) = caller E a rq s"
proof (cases "map_of (am_keys a) tok")
  case None
  then have "tok \<notin> fst ` set (am_keys a)" by (simp add: map_of_eq_None_iff)
  with None assms show ?thesis
    by (simp add: auth_lookup_def loadKeys_def caller_def key_entries_roles split: prod.splits sum.splits)
next
  case (Some role)
  then have "tok \<in> fst ` set (am_keys a)" by (metis map_of_eq_None_iff option.distinct(1))
  with Some assms show ?thesis by (simp add: auth_lookup_def caller_def)
qed

definition key_read :: "authMiddleware \<Rightarrow> call" where
  "key_read a = CSecretGet (am_secretNamespace a) (am_secretName a)"

lemma bearer_None:
  assumes "bearer rq = None" "rq_Path rq \<noteq> ''/healthz''" "Wrap E srv a rq s = (r, a', s')"
  shows "rs_Status r = 401 \<and> a' = a \<and> s' = s"
  using assms by (auto simp: Wrap_def bearer_def TrimPrefix_def HasPrefix_def Let_def writeError_def writeJSON_def
      split: if_splits)

lemma bearer_Some:
  assumes "bearer rq = Some tok" "rq_Path rq \<noteq> ''/healthz''"
  shows "Wrap E srv a rq s = (case auth_lookup E a tok s of
            (None, a', s') \<Rightarrow> (writeError 401 ''invalid API key'', a', s')
          | (Some role, a', s') \<Rightarrow> (case mux E srv role rq s' of (r, s'') \<Rightarrow> (r, a', s'')))"
proof -
  from assms(1) obtain t where t: "rq_Authorization rq = ''Bearer '' @ t" "tok = t"
    by (auto simp: bearer_def HasPrefix_def prefix_def split: if_splits)
  then have "length (TrimPrefix (rq_Authorization rq) ''Bearer '') < length (rq_Authorization rq)"
    by (simp add: TrimPrefix_def HasPrefix_def)
  then have "TrimPrefix (rq_Authorization rq) ''Bearer '' \<noteq> rq_Authorization rq" by auto
  with t assms(2) show ?thesis by (simp add: Wrap_def TrimPrefix_def HasPrefix_def Let_def)
qed

lemma loadKeys_log:
  assumes "loadKeys (traced E) a s = (a', s')"
  shows "snd s' = snd s @ [key_read a]"
  using assms by (auto simp: loadKeys_def key_read_def split: prod.splits sum.splits dest: tr.Get_Secret_log)

lemma auth_lookup_log:
  assumes "auth_lookup (traced E) a tok s = (role, a', s')"
  shows "\<exists>ks. snd s' = snd s @ ks \<and> set ks \<subseteq> {key_read a}"
  using assms by (auto simp: auth_lookup_def split: option.splits prod.splits dest!: loadKeys_log)

lemma auth_lookup_traced: "fst (auth_lookup (traced E) a tok (s, l)) = fst (auth_lookup E a tok s)"
  by (auto simp: auth_lookup_def loadKeys_def traced_def record_call_def split: option.splits prod.splits sum.splits)

lemma healthz_no_call: "rq_Path rq = ''/healthz'' \<Longrightarrow> Wrap E srv a rq s = (healthz rq, a, s)"
  by (simp add: Wrap_def mux_def cleanPath_def)

text \<open>
  C10: access control. Apart from the health check, which calls nothing, a request is served only if its bearer key is
  known to the gateway or is in the key Secret with one of the three roles. Otherwise it is answered 401 and causes at
  most the reading of the key Secret; with such a key it causes, after that, only calls that the access matrix permits
  to the role of the key.
\<close>

theorem gateway_access:
  "case Wrap (traced E) srv a rq (s, []) of (r, a', (s', cs)) \<Rightarrow>
     if rq_Path rq = ''/healthz'' then cs = []
     else (\<exists>ks ds. cs = ks @ ds \<and> set ks \<subseteq> {key_read a}
        \<and> (case caller E a rq s of
             None \<Rightarrow> rs_Status r = 401 \<and> ds = []
           | Some role \<Rightarrow> list_all (permits srv role) ds))"
proof -
  obtain r a' s' cs where run: "Wrap (traced E) srv a rq (s, []) = (r, a', (s', cs))" by (metis surj_pair)
  show ?thesis
  proof (cases "rq_Path rq = ''/healthz'' \<or> bearer rq = None")
    case True
    with run bearer_None [of rq "traced E" srv a "(s, [])" r a' "(s', cs)"] show ?thesis
      by (cases "rq_Path rq = ''/healthz''") (auto simp: healthz_no_call caller_def)
  next
    case False
    then obtain tok where tok: "bearer rq = Some tok" "rq_Path rq \<noteq> ''/healthz''" by auto
    obtain role a1 w1 where l: "auth_lookup (traced E) a tok (s, []) = (role, a1, w1)" by (metis surj_pair)
    have role: "caller E a rq s = role"
      using auth_lookup_traced [of E a tok s "[]"] auth_lookup_caller [OF tok(1), of E a s] l by simp
    obtain ks where ks: "snd w1 = ks" "set ks \<subseteq> {key_read a}" using auth_lookup_log [OF l] by auto
    show ?thesis
    proof (cases role)
      case None
      with run l ks role tok show ?thesis
        by (auto simp: bearer_Some [OF tok] writeError_def writeJSON_def intro!: exI [of _ ks])
    next
      case (Some x)
      obtain q w2 where m: "mux (traced E) srv x rq w1 = (q, w2)" by (metis surj_pair)
      obtain ds where "snd w2 = ks @ ds" "list_all (permits srv x) ds"
        using mux_enforced [OF m] ks by (auto simp: emits_def)
      with run l ks role tok Some m show ?thesis by (auto simp: bearer_Some [OF tok])
    qed
  qed
qed

section \<open>The key cache\<close>

text \<open>The states of the middleware that a running gateway goes through.\<close>

inductive serving :: "'s env \<Rightarrow> Server \<Rightarrow> authMiddleware \<Rightarrow> bool" for E :: "'s env" where
  start: "RunGateway E readFile unmarshal envTenants envNamespace s = (Inr (srv, a), s') \<Longrightarrow> serving E srv a"
| request: "serving E srv a \<Longrightarrow> Wrap E srv a rq s = (r, a', s') \<Longrightarrow> serving E srv a'"

definition keys_read :: "'s env \<Rightarrow> authMiddleware \<Rightarrow> bool" where
  "keys_read E a = (am_secretName a = ''dbaas-api-keys'' \<and> am_secretNamespace a = ''dbaas-system''
     \<and> (am_keys a = [] \<or> (\<exists>s dat s'. Get_Secret E ''dbaas-system'' ''dbaas-api-keys'' s = (Inr dat, s')
           \<and> am_keys a = List.map_filter key_entry dat)))"

lemma loadKeys_read: "keys_read E a \<Longrightarrow> loadKeys E a s = (a', s') \<Longrightarrow> keys_read E a'"
  by (force simp: keys_read_def loadKeys_def split: prod.splits sum.splits)

lemma auth_lookup_read: "keys_read E a \<Longrightarrow> auth_lookup E a tok s = (role, a', s') \<Longrightarrow> keys_read E a'"
  by (auto simp: auth_lookup_def split: option.splits prod.splits dest: loadKeys_read)

lemma Wrap_read:
  assumes "keys_read E a" "Wrap E srv a rq s = (r, a', s')"
  shows "keys_read E a'"
proof (cases "rq_Path rq = ''/healthz'' \<or> bearer rq = None")
  case True
  with assms show ?thesis by (auto simp: healthz_no_call dest: bearer_None)
next
  case False
  then obtain tok where tok: "bearer rq = Some tok" "rq_Path rq \<noteq> ''/healthz''" by auto
  with assms show ?thesis
    by (auto simp: bearer_Some [OF tok] split: prod.splits option.splits dest: auth_lookup_read)
qed

lemma key_entries:
  assumes "(k, role) \<in> set (List.map_filter key_entry dat)"
  shows "role \<in> {RoleAdmin, RoleOperator, RoleViewer} \<and> (\<exists>v. (k, v) \<in> set dat \<and> TrimSpace v = role)"
  using assms by (auto simp: map_filter_def key_entry_def Let_def split: if_splits)

lemma serving_ok:
  assumes "serving E srv a"
  shows "validate (srv_tenants srv) = None \<and> keys_read E a"
  using assms
proof induction
  case (start rf um et en s srv a s')
  have "keys_read E (newAuthMiddleware ''dbaas-api-keys'' ''dbaas-system'')"
    by (simp add: keys_read_def newAuthMiddleware_def)
  with start show ?case
    by (auto simp: RunGateway_def Load_Inr_iff split: sum.splits prod.splits dest: loadKeys_read)
next
  case (request srv a rq s r a' s')
  then show ?case by (auto dest: Wrap_read)
qed

text \<open>
  C11: while a gateway serves, its tenant configuration is a valid one, and every key it accepts without
  asking has one of the three roles, the one that the key Secret gave it when it was last read.
\<close>

theorem serving_keys:
  assumes "serving E srv a"
  shows "validate (srv_tenants srv) = None
     \<and> (map_of (am_keys a) tok = Some role \<longrightarrow> role \<in> {RoleAdmin, RoleOperator, RoleViewer}
         \<and> (\<exists>s dat s' v. Get_Secret E ''dbaas-system'' ''dbaas-api-keys'' s = (Inr dat, s')
              \<and> (tok, v) \<in> set dat \<and> TrimSpace v = role))"
  using serving_ok [OF assms]
  by (auto simp: keys_read_def dest!: map_of_SomeD) (use key_entries in blast)+

definition sample_keys :: cluster where
  "sample_keys = empty_cluster\<lparr>cl_keys := [(''k1'', ''admin ''), (''k2'', ''root'')]\<rparr>"

definition sample_gateway :: authMiddleware where
  "sample_gateway = (newAuthMiddleware ''dbaas-api-keys'' ''dbaas-system'')\<lparr>am_keys := [(''k1'', RoleAdmin)]\<rparr>"

lemma sample_serving:
  "RunGateway ref_env (\<lambda>_. Inr []) (\<lambda>_. Inr shared_namespace) [] [] sample_keys
   = (Inr (\<lparr>srv_tenants = shared_namespace, srv_env_namespace = []\<rparr>, sample_gateway), sample_keys)"
  by code_simp

theorem serving_keys_witness: "RoleAdmin \<in> {RoleAdmin, RoleOperator, RoleViewer} \<and> validate shared_namespace = None"
  using serving_keys [OF serving.start [OF sample_serving], of "''k1''" RoleAdmin]
  by (simp add: sample_gateway_def)

section \<open>Routes\<close>

text \<open>Names that stand for one segment of a clean path.\<close>

definition segment :: "string \<Rightarrow> bool" where
  "segment e = (e \<noteq> [] \<and> e \<noteq> ''.'' \<and> e \<noteq> ''..'' \<and> CHR ''/'' \<notin> set e)"

lemma Split_plain: "sep \<notin> set e \<Longrightarrow> Split e sep = [e]"
  by (induction e) auto

lemma Split_first: "sep \<notin> set e \<Longrightarrow> Split (e @ sep # rest) sep = e # Split rest sep"
  by (induction e) auto

lemma Split_Join: "es \<noteq> [] \<Longrightarrow> list_all segment es \<Longrightarrow> Split (Join es ''/'') (CHR ''/'') = es"
  by (induction es "''/''" rule: Join.induct) (auto simp: segment_def Split_plain Split_first)

lemma clean_segments: "list_all segment es \<Longrightarrow> clean_elems acc es = rev es @ acc"
  by (induction es arbitrary: acc) (auto simp: segment_def)

lemma last_Join: "es \<noteq> [] \<Longrightarrow> list_all segment es \<Longrightarrow> Join es ''/'' \<noteq> [] \<and> last (Join es ''/'') \<noteq> CHR ''/''"
proof (induction es "''/''" rule: Join.induct)
  case (2 s)
  then show ?case by (auto simp: segment_def dest: last_in_set)
qed (auto simp: segment_def)

lemma cleanPath_Join:
  assumes "es \<noteq> []" "list_all segment es"
  shows "cleanPath (CHR ''/'' # Join es ''/'') = CHR ''/'' # Join es ''/''"
  using assms last_Join [OF assms] by (simp add: cleanPath_def Let_def Split_Join clean_segments)

lemma TrimByte_Join:
  assumes "es \<noteq> []" "list_all segment es"
  shows "TrimByte (Join es ''/'') (CHR ''/'') = Join es ''/''"
proof -
  obtain e es' where e: "es = e # es'" using assms(1) by (cases es) auto
  then have "hd (Join es ''/'') \<noteq> CHR ''/''"
    using assms(2) by (cases es'; cases e) (auto simp: segment_def)
  then have "dropWhile (\<lambda>x. x = CHR ''/'') (Join es ''/'') = Join es ''/''"
    by (cases "Join es ''/''") auto
  moreover have "dropWhile (\<lambda>x. x = CHR ''/'') (rev (Join es ''/'')) = rev (Join es ''/'')"
    using last_Join [OF assms] by (cases "rev (Join es ''/'')") (auto simp: last_rev)
  ultimately show ?thesis by (simp add: TrimByte_def)
qed

lemma mux_instance_path:
  assumes "segment name" "list_all segment rest"
    and "rq_Path rq = ''/dbinstances/'' @ Join (name # rest) ''/''"
  shows "mux E srv role rq s = handleInstanceRoute E srv role rq s
     \<and> path_parts (rq_Path rq) = name # rest"
proof -
  let ?es = "''dbinstances'' # name # rest"
  have "segment ''dbinstances''" by (simp add: segment_def)
  with assms have ok: "list_all segment ?es" "list_all segment (name # rest)" by simp_all
  have p: "rq_Path rq = CHR ''/'' # Join ?es ''/''" using assms(3) by simp
  have "cleanPath (rq_Path rq) = rq_Path rq" unfolding p by (rule cleanPath_Join [OF _ ok(1)]) simp
  moreover have "HasPrefix (rq_Path rq) ''/dbinstances/''" "rq_Path rq \<noteq> ''/healthz''" "rq_Path rq \<noteq> ''/dbinstances''"
    using assms(3) by (simp_all add: HasPrefix_def)
  moreover have "TrimPrefix (rq_Path rq) ''/dbinstances/'' = Join (name # rest) ''/''"
    using assms(3) by (simp add: TrimPrefix_def HasPrefix_def)
  ultimately show ?thesis
    using ok by (simp add: mux_def Let_def path_parts_def TrimByte_Join Split_Join)
qed

lemma mux_route:
  assumes "segment name" "list_all segment rest"
    and "rq_Path rq = ''/dbinstances/'' @ Join (name # rest) ''/''"
  shows "mux E srv role rq s
      = (case rest of
           [] \<Rightarrow>
             if rq_Method rq = ''GET'' then handleGetInstance E srv role name s
             else if rq_Method rq = ''DELETE'' then handleDeleteInstance E srv role name s
             else (not_allowed, s)
         | action # _ \<Rightarrow>
             if rq_Method rq \<noteq> ''POST'' then (not_allowed, s)
             else if action \<in> {''start'', ''stop''} then handleSetRunning E srv role name (action = ''start'') s
             else (writeError 404 ''unsupported action'', s))"
proof -
  have "name \<noteq> []" using assms(1) by (simp add: segment_def)
  then show ?thesis
    unfolding conjunct1 [OF mux_instance_path [OF assms]] handleInstanceRoute_def
      conjunct2 [OF mux_instance_path [OF assms]]
    by (cases rest) simp_all
qed

text \<open>
  C24: the routes. For every path below \<open>/dbinstances/\<close> that is made of segments, the method and the
  segments select exactly the documented handler with the first segment as the name; other methods
  and actions are refused. Segments after the action are ignored.
\<close>

theorem routes:
  assumes "segment name" and "list_all segment rest"
  shows "mux E srv role \<lparr>rq_Method = m, rq_Path = ''/dbinstances/'' @ Join (name # rest) ''/'',
           rq_Authorization = h, rq_Body = b\<rparr> s
      = (case rest of
           [] \<Rightarrow>
             if m = ''GET'' then handleGetInstance E srv role name s
             else if m = ''DELETE'' then handleDeleteInstance E srv role name s else (not_allowed, s)
         | action # _ \<Rightarrow>
             if m \<noteq> ''POST'' then (not_allowed, s)
             else if action \<in> {''start'', ''stop''} then handleSetRunning E srv role name (action = ''start'') s
             else (writeError 404 ''unsupported action'', s))"
  by (subst mux_route [OF assms]) (simp_all only: request.simps)

theorem routes_witness:
  "\<forall>srv role h s. mux ref_env srv role \<lparr>rq_Method = ''POST'', rq_Path = ''/dbinstances/db/stop'', rq_Authorization = h, rq_Body = None\<rparr> s
     = handleSetRunning ref_env srv role ''db'' False s"
  using routes [where name = "''db''" and rest = "[''stop'']" and E = ref_env and m = "''POST''" and b = None]
  by (simp add: segment_def)

text \<open>
  C25: a key is not revoked by taking it out of the Secret. As long as the cache holds it, a request
  with that key is served with its old role and the Secret is not read; here, an instance is deleted.
\<close>

theorem revoked_key_served:
  assumes "segment name" and "map_of (am_keys a) tok = Some RoleAdmin"
  shows "case Wrap (traced E) srv a \<lparr>rq_Method = ''DELETE'', rq_Path = ''/dbinstances/'' @ name,
           rq_Authorization = ''Bearer '' @ tok, rq_Body = b\<rparr> (s, []) of
     (r, a', (s', cs)) \<Rightarrow> a' = a \<and> cs = [CInstDelete (delete_target srv name)]
       \<and> rs_Status r \<in> {202, 404, 500}"
proof -
  let ?rq = "\<lparr>rq_Method = ''DELETE'', rq_Path = ''/dbinstances/'' @ name, rq_Authorization = ''Bearer '' @ tok, rq_Body = b\<rparr>"
  have tok: "bearer ?rq = Some tok" "rq_Path ?rq \<noteq> ''/healthz''"
    by (simp_all add: bearer_def HasPrefix_def)
  obtain r w where d: "handleDeleteInstance (traced E) srv RoleAdmin name (s, []) = (r, w)" by (metis surj_pair)
  have m: "mux (traced E) srv RoleAdmin ?rq (s, []) = (r, w)"
    using mux_route [of name "[]" ?rq "traced E"] assms(1) d by simp
  have "snd w = [CInstDelete (delete_target srv name)] \<and> rs_Status r \<in> {202, 404, 500}"
    using d by (auto simp: handleDeleteInstance_def RequireRole_def writeError_def writeJSON_def
        split: option.splits prod.splits if_splits dest: tr.Delete_DBInstance_log)
  with m assms(2) show ?thesis
    unfolding bearer_Some [OF tok] by (cases w) (simp add: auth_lookup_def)
qed

theorem revoked_key_served_witness:
  "snd (snd (snd (Wrap (traced ref_env) \<lparr>srv_tenants = shared_namespace, srv_env_namespace = []\<rparr> sample_gateway
     \<lparr>rq_Method = ''DELETE'', rq_Path = ''/dbinstances/db'', rq_Authorization = ''Bearer k1'', rq_Body = None\<rparr>
     (empty_cluster, []))))
   = [CInstDelete (delete_target \<lparr>srv_tenants = shared_namespace, srv_env_namespace = []\<rparr> ''db'')]"
proof -
  have "segment ''db''" "map_of (am_keys sample_gateway) ''k1'' = Some RoleAdmin"
    by (simp_all add: segment_def sample_gateway_def)
  from revoked_key_served [OF this, where E = ref_env and b = None and s = empty_cluster
      and srv = "\<lparr>srv_tenants = shared_namespace, srv_env_namespace = []\<rparr>"]
  show ?thesis by (simp split: prod.splits)
qed

end
