(* ===== verification/Startup.thy ===== *)
theory Startup
  imports Gateway SnapshotCtl
begin

text \<open>
  \<open>main.go\<close> and the two \<open>SetupWithManager\<close> methods: flags, the calls to controller-runtime that set
  the process up, and the process itself as a step relation in which the gateway goroutine and the
  two reconcilers take turns on one world. A request and a reconcile is one step. controller-runtime
  is an argument: what its set-up calls answer, and when the cache has synced.
\<close>

section \<open>Flags and set-up\<close>

record flags =
  fl_metricsAddr :: string
  fl_probeAddr :: string
  fl_gatewayAddr :: string
  fl_grafanaURL :: string

definition flag_String :: "(string \<Rightarrow> string option) \<Rightarrow> string \<Rightarrow> string \<Rightarrow> string" where
  "flag_String given name dflt = (case given name of Some v \<Rightarrow> v | None \<Rightarrow> dflt)"

definition main_flags :: "(string \<Rightarrow> string option) \<Rightarrow> flags" where
  "main_flags given = \<lparr>
     fl_metricsAddr = flag_String given ''metrics-bind-address'' '':8081'',
     fl_probeAddr = flag_String given ''health-probe-bind-address'' '':8082'',
     fl_gatewayAddr = flag_String given ''gateway-address'' '':8080'',
     fl_grafanaURL = flag_String given ''grafana-url'' ''https://grafana.monitoring.svc''\<rparr>"

record Options =
  mo_MetricsBindAddress :: string
  mo_HealthProbeBindAddress :: string
  mo_LeaderElection :: bool
  mo_LeaderElectionID :: string

text \<open>The calls to controller-runtime: a controller is completed for the kind it watches.\<close>

datatype rtcall =
    RGetConfig
  | RNewManager Options
  | RNewDynamicClient
  | RComplete string
  | RAddHealthzCheck string
  | RAddReadyzCheck string

type_synonym 's runtime = "rtcall \<Rightarrow> 's \<Rightarrow> error option \<times> 's"

definition init_scheme :: "(string \<Rightarrow> error option) \<Rightarrow> unit outcome" where
  "init_scheme AddToScheme =
     (if AddToScheme ''client-go'' \<noteq> None then Panic
      else if AddToScheme GroupVersionString \<noteq> None then Panic
      else Return ())"

definition Instance_SetupWithManager :: "'s runtime \<Rightarrow> 's \<Rightarrow> error option \<times> 's" where
  "Instance_SetupWithManager rt = rt (RComplete ''DBInstance'')"

definition Snapshot_SetupWithManager :: "'s runtime \<Rightarrow> 's \<Rightarrow> error option \<times> 's" where
  "Snapshot_SetupWithManager rt = rt (RComplete ''DBSnapshot'')"

text \<open>\<open>if err := \<dots>; err != nil { logger.Error(\<dots>); os.Exit(1) }\<close>: the exit code and what was logged.\<close>

definition or_exit ::
  "('s \<Rightarrow> error option \<times> 's) \<Rightarrow> string \<Rightarrow> ('s \<Rightarrow> ((nat \<times> string) + 'a) \<times> 's) \<Rightarrow> 's \<Rightarrow> ((nat \<times> string) + 'a) \<times> 's" where
  "or_exit call msg k s = (case call s of
       (Some _, s') \<Rightarrow> (Inl (1, msg), s')
     | (None, s') \<Rightarrow> k s')"

definition main_setup ::
  "'s runtime \<Rightarrow> (string \<Rightarrow> string option) \<Rightarrow> 's \<Rightarrow> ((nat \<times> string) + flags) \<times> 's" where
  "main_setup rt given =
     (let fl = main_flags given in
      or_exit (rt RGetConfig) ''unable to get kubeconfig''
     (or_exit (rt (RNewManager \<lparr>mo_MetricsBindAddress = fl_metricsAddr fl,
          mo_HealthProbeBindAddress = fl_probeAddr fl, mo_LeaderElection = True,
          mo_LeaderElectionID = ''dbaas-controller.wso2.com''\<rparr>)) ''unable to create manager''
     (or_exit (rt RNewDynamicClient) ''unable to create dynamic client''
     (or_exit (Instance_SetupWithManager rt) ''unable to create controller''
     (or_exit (Snapshot_SetupWithManager rt) ''unable to create controller''
     (or_exit (rt (RAddHealthzCheck ''healthz'')) ''unable to set up health check''
     (or_exit (rt (RAddReadyzCheck ''readyz'')) ''unable to set up ready check''
     (\<lambda>s. (Inr fl, s)))))))))"

definition NewClient :: "'s env \<Rightarrow> string \<Rightarrow> 's env" where
  "NewClient E grafanaURL = E\<lparr>Client_GrafanaURL := grafanaURL\<rparr>"

section \<open>The process\<close>

datatype gateway_state = GwWaiting | GwSynced | GwServing Server authMiddleware | GwEnded

record gateway_files =
  gf_readFile :: "string \<Rightarrow> error + string"
  gf_unmarshal :: "string \<Rightarrow> error + Config"
  gf_envTenants :: string
  gf_envNamespace :: string

record 's sys =
  sys_gateway :: gateway_state
  sys_exit :: "nat option"
  sys_world :: 's

definition gateway_start ::
  "'s env \<Rightarrow> gateway_files \<Rightarrow> 's \<Rightarrow> (error + Server \<times> authMiddleware) \<times> 's" where
  "gateway_start E gf = RunGateway E (gf_readFile gf) (gf_unmarshal gf) (gf_envTenants gf) (gf_envNamespace gf)"

text \<open>
  Who takes a step. The goroutine of the gateway only logs when it ends; the process ends with
  \<open>mgr.Start\<close>, with code 1 when that returns an error and 0 when it was stopped.
\<close>

datatype actor = TheGateway | TheInstances | TheSnapshots | TheManager

inductive sys_step ::
  "'s env \<Rightarrow> gateway_files \<Rightarrow> ('s \<Rightarrow> bool \<times> 's) \<Rightarrow> actor \<Rightarrow> 's sys \<Rightarrow> 's sys \<Rightarrow> bool"
  for E :: "'s env" and gf :: gateway_files and WaitForCacheSync :: "'s \<Rightarrow> bool \<times> 's" where
  synced: "WaitForCacheSync s = (True, s') \<Longrightarrow>
    sys_step E gf WaitForCacheSync TheManager \<lparr>sys_gateway = GwWaiting, sys_exit = None, sys_world = s\<rparr>
      \<lparr>sys_gateway = GwSynced, sys_exit = None, sys_world = s'\<rparr>"
| sync_failed: "WaitForCacheSync s = (False, s') \<Longrightarrow>
    sys_step E gf WaitForCacheSync TheManager \<lparr>sys_gateway = GwWaiting, sys_exit = None, sys_world = s\<rparr>
      \<lparr>sys_gateway = GwEnded, sys_exit = None, sys_world = s'\<rparr>"
| serves: "gateway_start E gf s = (Inr (srv, a), s') \<Longrightarrow>
    sys_step E gf WaitForCacheSync TheGateway \<lparr>sys_gateway = GwSynced, sys_exit = None, sys_world = s\<rparr>
      \<lparr>sys_gateway = GwServing srv a, sys_exit = None, sys_world = s'\<rparr>"
| refuses: "gateway_start E gf s = (Inl e, s') \<Longrightarrow>
    sys_step E gf WaitForCacheSync TheGateway \<lparr>sys_gateway = GwSynced, sys_exit = None, sys_world = s\<rparr>
      \<lparr>sys_gateway = GwEnded, sys_exit = None, sys_world = s'\<rparr>"
| request: "Wrap E srv a rq s = (r, a', s') \<Longrightarrow>
    sys_step E gf WaitForCacheSync TheGateway \<lparr>sys_gateway = GwServing srv a, sys_exit = None, sys_world = s\<rparr>
      \<lparr>sys_gateway = GwServing srv a', sys_exit = None, sys_world = s'\<rparr>"
| listen_failed:
    "sys_step E gf WaitForCacheSync TheGateway \<lparr>sys_gateway = GwServing srv a, sys_exit = None, sys_world = s\<rparr>
      \<lparr>sys_gateway = GwEnded, sys_exit = None, sys_world = s\<rparr>"
| reconciled: "Reconcile E ns name s = (Return r, s') \<Longrightarrow>
    sys_step E gf WaitForCacheSync TheInstances \<lparr>sys_gateway = g, sys_exit = None, sys_world = s\<rparr>
      \<lparr>sys_gateway = g, sys_exit = None, sys_world = s'\<rparr>"
| reconcile_panics: "Reconcile E ns name s = (Panic, s') \<Longrightarrow>
    sys_step E gf WaitForCacheSync TheInstances \<lparr>sys_gateway = g, sys_exit = None, sys_world = s\<rparr>
      \<lparr>sys_gateway = g, sys_exit = Some 2, sys_world = s'\<rparr>"
| backed_up: "Snap_Reconcile E ns name s = (q, s') \<Longrightarrow>
    sys_step E gf WaitForCacheSync TheSnapshots \<lparr>sys_gateway = g, sys_exit = None, sys_world = s\<rparr>
      \<lparr>sys_gateway = g, sys_exit = None, sys_world = s'\<rparr>"
| manager_ended: "code \<in> {0, 1} \<Longrightarrow>
    sys_step E gf WaitForCacheSync TheManager \<lparr>sys_gateway = g, sys_exit = None, sys_world = s\<rparr>
      \<lparr>sys_gateway = g, sys_exit = Some code, sys_world = s\<rparr>"

text \<open>The states of a process whose set-up went through.\<close>

inductive sys_run ::
  "'s env \<Rightarrow> gateway_files \<Rightarrow> ('s \<Rightarrow> bool \<times> 's) \<Rightarrow> 's runtime \<Rightarrow> (string \<Rightarrow> string option) \<Rightarrow> 's sys \<Rightarrow> bool"
  for E :: "'s env" and gf :: gateway_files and WaitForCacheSync :: "'s \<Rightarrow> bool \<times> 's"
    and rt :: "'s runtime" and given :: "string \<Rightarrow> string option" where
  start: "main_setup rt given s = (Inr fl, s') \<Longrightarrow>
    sys_run E gf WaitForCacheSync rt given \<lparr>sys_gateway = GwWaiting, sys_exit = None, sys_world = s'\<rparr>"
| step: "sys_run E gf WaitForCacheSync rt given c \<Longrightarrow>
    sys_step (NewClient E (fl_grafanaURL (main_flags given))) gf WaitForCacheSync who c c' \<Longrightarrow>
    sys_run E gf WaitForCacheSync rt given c'"

section \<open>Set-up, proved\<close>

definition setup_calls :: "flags \<Rightarrow> rtcall list" where
  "setup_calls fl = [RGetConfig,
     RNewManager \<lparr>mo_MetricsBindAddress = fl_metricsAddr fl, mo_HealthProbeBindAddress = fl_probeAddr fl,
       mo_LeaderElection = True, mo_LeaderElectionID = ''dbaas-controller.wso2.com''\<rparr>,
     RNewDynamicClient, RComplete ''DBInstance'', RComplete ''DBSnapshot'',
     RAddHealthzCheck ''healthz'', RAddReadyzCheck ''readyz'']"

definition rt_traced :: "'s runtime \<Rightarrow> ('s \<times> rtcall list) runtime" where
  "rt_traced rt c w = (case rt c (fst w) of (e, s') \<Rightarrow> (e, (s', snd w @ [c])))"

text \<open>A part of the set-up that makes the calls \<open>cs\<close> in order, up to the first that fails.\<close>

definition makes_in_order ::
  "flags \<Rightarrow> rtcall list \<Rightarrow> ('s \<times> rtcall list \<Rightarrow> ((nat \<times> string) + flags) \<times> ('s \<times> rtcall list)) \<Rightarrow> bool" where
  "makes_in_order fl cs k = (\<forall>w r w'. k w = (r, w') \<longrightarrow>
     (\<exists>n \<le> length cs. snd w' = snd w @ take n cs
        \<and> (case r of Inr fl' \<Rightarrow> fl' = fl \<and> n = length cs | Inl (code, _) \<Rightarrow> code = 1)))"

lemma makes_nothing: "makes_in_order fl [] (\<lambda>w. (Inr fl, w))"
  by (simp add: makes_in_order_def)

lemma makes_or_exit:
  assumes "makes_in_order fl cs k"
  shows "makes_in_order fl (c # cs) (or_exit (rt_traced rt c) msg k)"
  unfolding makes_in_order_def
proof (intro allI impI)
  fix w r w'
  assume run: "or_exit (rt_traced rt c) msg k w = (r, w')"
  obtain e s' where call: "rt c (fst w) = (e, s')" by (metis surj_pair)
  show "\<exists>n \<le> length (c # cs). snd w' = snd w @ take n (c # cs)
      \<and> (case r of Inr fl' \<Rightarrow> fl' = fl \<and> n = length (c # cs) | Inl (code, _) \<Rightarrow> code = 1)"
  proof (cases e)
    case None
    with run call have "k (s', snd w @ [c]) = (r, w')" by (simp add: or_exit_def rt_traced_def)
    with assms obtain n where "n \<le> length cs" "snd w' = snd w @ c # take n cs"
      "case r of Inr fl' \<Rightarrow> fl' = fl \<and> n = length cs | Inl (code, _) \<Rightarrow> code = 1"
      unfolding makes_in_order_def by fastforce
    then show ?thesis by (intro exI [of _ "Suc n"]) (auto split: sum.splits)
  next
    case (Some x)
    with run call show ?thesis by (intro exI [of _ 1]) (auto simp: or_exit_def rt_traced_def)
  qed
qed

text \<open>
  The set-up makes its calls in this order and stops at the first that fails, with exit code 1; both
  controllers are registered before the manager can be started.
\<close>

lemma setup_order: "makes_in_order (main_flags given) (setup_calls (main_flags given)) (main_setup (rt_traced rt) given)"
  unfolding main_setup_def Let_def setup_calls_def Instance_SetupWithManager_def Snapshot_SetupWithManager_def
  by (intro makes_or_exit makes_nothing)

section \<open>Who does what\<close>

text \<open>
  The duties of the three parts: the gateway keeps the \<open>DBInstance\<close> objects for its users, the
  instance reconciler keeps the resources behind them, and the snapshot reconciler runs backups.
\<close>

fun entitled :: "actor \<Rightarrow> call \<Rightarrow> bool" where
  "entitled TheGateway (CSecretGet ns name) = (ns = ''dbaas-system'' \<and> name = ''dbaas-api-keys'')"
| "entitled TheGateway (CInstGet _ _) = True"
| "entitled TheGateway CInstList = True"
| "entitled TheGateway (CInstCreate _) = True"
| "entitled TheGateway (CInstUpdate _) = True"
| "entitled TheGateway (CInstDelete _) = True"
| "entitled TheInstances (CInstGet _ _) = True"
| "entitled TheInstances (CInstUpdate _) = True"
| "entitled TheInstances (CInstStatus _) = True"
| "entitled TheInstances (CCreate _ _ _) = True"
| "entitled TheInstances (CGet _ _ _) = True"
| "entitled TheInstances (CUpdate _ _ _) = True"
| "entitled TheInstances (CList _ _) = True"
| "entitled TheInstances (CDelete _ _ _) = True"
| "entitled TheSnapshots (CSnapGet _ _) = True"
| "entitled TheSnapshots (CSnapStatus _) = True"
| "entitled TheSnapshots (CInstGet _ _) = True"
| "entitled TheSnapshots (CGet g _ _) = (g = secretGVR)"
| "entitled TheSnapshots (CSshDial _ _ _) = True"
| "entitled TheSnapshots (CSshRun _) = True"
| "entitled _ _ = False"

lemma works_on_entitled: "works_on G c \<Longrightarrow> entitled TheInstances c"
  by (cases c) (auto simp: works_on_def)

lemma permits_entitled: "permits srv role c \<Longrightarrow> entitled TheGateway c"
  by (cases c) auto

lemma is_ssh_entitled: "is_ssh c \<Longrightarrow> entitled TheSnapshots c"
  by (cases c) auto

lemma works_on_duty: "emits lg (works_on G) s s' \<Longrightarrow> emits lg (entitled TheInstances) s s'"
  by (erule emits_mono) (erule works_on_entitled)

lemma ssh_duty: "emits lg is_ssh s s' \<Longrightarrow> emits lg (entitled TheSnapshots) s s'"
  by (erule emits_mono) (erule is_ssh_entitled)

context recorder
begin

lemmas handler_entitled = handler_emits [THEN works_on_duty]

lemma provision_entitled:
  "provision E i s = (r, s') \<Longrightarrow> emits lg (entitled TheInstances) s s'"
  unfolding provision_def Let_def by (auto split: if_splits intro: handler_entitled)

lemma reconcileDelete_entitled:
  assumes "reconcileDelete E i s = (r, s')"
  shows "emits lg (entitled TheInstances) s s'"
proof (cases "spec_DeletionProtection (inst_Spec i)")
  case True
  with assms show ?thesis
    by (auto simp: reconcileDelete_def statusUpdate_def Let_def split: prod.splits
        dest!: StatusUpdate_DBInstance_log intro: emits_one)
next
  case False
  obtain out i' where r: "r = (out, i')" by (cases r)
  show ?thesis
    using reconcileDelete_log [OF False assms [unfolded r]]
    by (auto simp: emits_def list_all_iff delete_call_def)
qed

lemma Reconcile_entitled:
  assumes "Reconcile E ns name s = (r, s')"
  shows "emits lg (entitled TheInstances) s s'"
proof -
  have inst: "emits lg (entitled TheInstances) s1 s2" if "reconcile_instance E i s1 = (q, s2)" for i q s1 s2
    using that unfolding reconcile_instance_def
    by (auto split: if_splits prod.splits option.splits intro: handler_entitled provision_entitled
        reconcileDelete_entitled emits_one dest!: Update_DBInstance_log)
  from assms show ?thesis
    by (auto simp: Reconcile_def split: prod.splits sum.splits if_splits dest!: Get_DBInstance_log inst
        intro: emits_one emits_trans [OF emits_one])
qed

lemma snap_fail_entitled: "snap_fail E sn msg s = (r, s') \<Longrightarrow> emits lg (entitled TheSnapshots) s s'"
  by (drule snap_fail_log) (auto intro: emits_one)

lemmas SSHExec_entitled = SSHExec_emits [THEN ssh_duty]

lemma ssh_backup_entitled:
  "ssh_backup E sn inst ip dat s = (r, s') \<Longrightarrow> emits lg (entitled TheSnapshots) s s'"
  by (auto simp: ssh_backup_def emits_def Let_def split: prod.splits option.splits if_splits
      dest!: StatusUpdate_DBSnapshot_log Time_Now_log snap_fail_log
        SSHExec_entitled [unfolded emits_def])

lemma run_backup_entitled:
  "run_backup E sn inst ip s = (r, s') \<Longrightarrow> emits lg (entitled TheSnapshots) s s'"
  by (auto simp: run_backup_def emits_def split: prod.splits option.splits sum.splits
      dest!: StatusUpdate_DBSnapshot_log GetSecret_log snap_fail_log ssh_backup_entitled [unfolded emits_def])

lemma Snap_Reconcile_entitled:
  "Snap_Reconcile E ns name s = (r, s') \<Longrightarrow> emits lg (entitled TheSnapshots) s s'"
  by (auto simp: Snap_Reconcile_def emits_def Let_def split: prod.splits sum.splits if_splits
      dest!: Get_DBSnapshot_log Get_DBInstance_log snap_fail_log run_backup_entitled [unfolded emits_def])

end

lemma NewClient_traced [simp]: "NewClient (traced E) u = traced (NewClient E u)"
  by (simp add: NewClient_def traced_def)

lemma Wrap_entitled:
  assumes "Wrap (traced E) srv a rq w = (r, a', w')" and "keys_read E' a"
  shows "emits snd (entitled TheGateway) w w'"
proof (cases "rq_Path rq = ''/healthz'' \<or> bearer rq = None")
  case True
  with assms(1) have "w' = w" by (auto simp: healthz_no_call dest: bearer_None)
  then show ?thesis by simp
next
  case False
  then obtain tok where tok: "bearer rq = Some tok" "rq_Path rq \<noteq> ''/healthz''" by auto
  obtain role a1 w1 where l: "auth_lookup (traced E) a tok w = (role, a1, w1)" by (metis surj_pair)
  have "entitled TheGateway (key_read a)" using assms(2) by (simp add: keys_read_def key_read_def)
  then have look: "emits snd (entitled TheGateway) w w1"
    using auth_lookup_log [OF l] by (auto simp: emits_def list_all_iff)
  show ?thesis
  proof (cases role)
    case None
    with assms(1) l look show ?thesis by (simp add: bearer_Some [OF tok])
  next
    case (Some x)
    obtain q w2 where m: "mux (traced E) srv x rq w1 = (q, w2)" by (metis surj_pair)
    have "emits snd (entitled TheGateway) w1 w2"
      using mux_enforced [OF m] permits_entitled by (blast intro: emits_mono)
    with look assms(1) l m Some show ?thesis by (auto simp: bearer_Some [OF tok] intro: emits_trans)
  qed
qed

text \<open>A gateway that serves in a run of the process is one that was started, and went from request to request.\<close>

lemma sys_run_serving:
  assumes "sys_run E gf WaitForCacheSync rt given c" "sys_gateway c = GwServing srv a"
  shows "serving (NewClient E (fl_grafanaURL (main_flags given))) srv a"
  using assms
proof (induction arbitrary: a rule: sys_run.induct)
  case (step c who c')
  from step.hyps(2) step.prems step.IH show ?case
    by (cases rule: sys_step.cases) (auto simp: gateway_start_def intro: serving.start serving.request)
qed simp

text \<open>
  C14: in every state of the process, whoever takes the next step stays within its duties: a request causes only
  operations on \<open>DBInstance\<close> objects and the reading of the key Secret, only the reconciler of
  instances creates, changes and deletes the resources in Harvester and writes an instance's status,
  it never creates or deletes an instance, and only the reconciler of snapshots logs in to a database VM.
\<close>

theorem separation_of_duties:
  assumes "sys_run (traced E) gf WaitForCacheSync rt given c"
    and "sys_step (NewClient (traced E) (fl_grafanaURL (main_flags given))) gf WaitForCacheSync who c c'"
    and "who \<noteq> TheManager"
  shows "\<exists>cs. snd (sys_world c') = snd (sys_world c) @ cs \<and> list_all (entitled who) cs"
proof -
  let ?E = "NewClient E (fl_grafanaURL (main_flags given))"
  have serving: "keys_read (traced ?E) a" if "sys_gateway c = GwServing srv a" for srv a
    using serving_ok [OF sys_run_serving [OF assms(1) that]] by simp
  have "emits snd (entitled who) (sys_world c) (sys_world c')"
    using assms(2) unfolding NewClient_traced
  proof (cases rule: sys_step.cases)
    case (serves s srv a s')
    then show ?thesis
      by (auto simp: gateway_start_def RunGateway_def key_read_def newAuthMiddleware_def
          split: sum.splits prod.splits dest!: loadKeys_log intro: emits_one)
  next
    case (refuses s e s')
    then show ?thesis
      by (auto simp: gateway_start_def RunGateway_def split: sum.splits prod.splits)
  next
    case (request srv a rq s r a' s')
    then show ?thesis using Wrap_entitled [OF request(4) serving [of srv a]] by simp
  qed (use assms(3) in \<open>auto intro: tr.Reconcile_entitled tr.Snap_Reconcile_entitled\<close>)
  then show ?thesis by (simp add: emits_def)
qed

definition calm_rt :: "'s runtime" where
  "calm_rt c s = (None, s)"

lemma calm_setup: "main_setup calm_rt given s = (Inr (main_flags given), s)"
  by (simp add: main_setup_def Let_def or_exit_def calm_rt_def Instance_SetupWithManager_def
      Snapshot_SetupWithManager_def)

definition sample_files :: gateway_files where
  "sample_files = \<lparr>gf_readFile = (\<lambda>_. Inr []), gf_unmarshal = (\<lambda>_. Inr shared_namespace),
     gf_envTenants = [], gf_envNamespace = []\<rparr>"

definition lost_files :: gateway_files where
  "lost_files = sample_files\<lparr>gf_readFile := (\<lambda>_. Inl (Errorf ''no such file''))\<rparr>"

lemma idle_reconcile:
  "Reconcile (traced (NewClient ref_env u)) ''ns'' ''db'' (empty_cluster, [])
   = (Return (no_requeue, None), (empty_cluster, [CInstGet ''ns'' ''db'']))"
  by (simp add: Reconcile_def traced_def record_call_def NewClient_def ref_env_def empty_cluster_def
      IsNotFound_def not_found_def)

theorem separation_of_duties_witness:
  "list_all (entitled TheInstances) [CInstGet ''ns'' ''db'']"
proof -
  let ?sync = "\<lambda>w :: cluster \<times> call list. (True, w)"
  let ?c = "\<lambda>w :: cluster \<times> call list. \<lparr>sys_gateway = GwWaiting, sys_exit = None, sys_world = w\<rparr>"
  have "sys_run (traced ref_env) sample_files ?sync calm_rt (\<lambda>_. None) (?c (empty_cluster, []))"
    by (rule sys_run.start [OF calm_setup])
  moreover have "sys_step (NewClient (traced ref_env) (fl_grafanaURL (main_flags (\<lambda>_. None)))) sample_files
      ?sync TheInstances (?c (empty_cluster, [])) (?c (empty_cluster, [CInstGet ''ns'' ''db'']))"
    unfolding NewClient_traced by (rule sys_step.reconciled [OF idle_reconcile])
  ultimately show ?thesis
    using separation_of_duties [of ref_env sample_files ?sync calm_rt "\<lambda>_. None"
        "?c (empty_cluster, [])" TheInstances "?c (empty_cluster, [CInstGet ''ns'' ''db''])"]
    by simp
qed

section \<open>Losing the gateway\<close>

definition tenants_path :: "gateway_files \<Rightarrow> string" where
  "tenants_path gf = (if gf_envTenants gf = [] then ''/etc/dbaas/tenants.yaml'' else gf_envTenants gf)"

lemma gateway_refused:
  "Load (gf_readFile gf) (gf_unmarshal gf) (tenants_path gf) = Inl e \<Longrightarrow>
     gateway_start E gf s = (Inl (Errorw ''gateway: '' e), s)"
  by (simp add: gateway_start_def RunGateway_def tenants_path_def)

text \<open>No gateway serves, nor will one: it has ended, or it has not started and its file does not load.\<close>

definition no_gateway :: "gateway_files \<Rightarrow> 's sys \<Rightarrow> bool" where
  "no_gateway gf c = (sys_gateway c = GwEnded
     \<or> sys_gateway c \<in> {GwWaiting, GwSynced} \<and> (\<exists>e. Load (gf_readFile gf) (gf_unmarshal gf) (tenants_path gf) = Inl e))"

lemma no_gateway_step: "no_gateway gf c \<Longrightarrow> sys_step E gf W who c c' \<Longrightarrow> no_gateway gf c'"
  by (erule sys_step.cases) (auto simp: no_gateway_def gateway_refused)

lemma no_gateway_later:
  "(\<lambda>x y. \<exists>who. sys_step E gf W who x y)\<^sup>*\<^sup>* c c' \<Longrightarrow> no_gateway gf c \<Longrightarrow> no_gateway gf c'"
  by (induction rule: rtranclp_induct) (auto intro: no_gateway_step)

lemma gateway_never_exits: "sys_step E gf W TheGateway c c' \<Longrightarrow> sys_exit c' = None"
  by (cases rule: sys_step.cases) auto

lemma reconcilers_go_on:
  assumes "sys_exit c = None"
  shows "\<exists>c'. sys_step E gf W TheSnapshots c c' \<and> sys_exit c' = None"
proof -
  obtain q s' where "Snap_Reconcile E [] [] (sys_world c) = (q, s')" by (metis surj_pair)
  from sys_step.backed_up [OF this, of gf W "sys_gateway c"] assms show ?thesis
    by (intro exI [of _ "\<lparr>sys_gateway = sys_gateway c, sys_exit = None, sys_world = s'\<rparr>"]) (cases c, simp)
qed

text \<open>
  C28: a gateway whose tenant file does not load, or that has ended for another reason, is never
  started again, and the process does not end for it: no step of the gateway sets an exit code, and
  as long as the process runs its reconcilers go on without an API in front of them.
\<close>

theorem gateway_lost:
  assumes "sys_gateway c = GwEnded
      \<or> sys_gateway c = GwWaiting \<and> Load (gf_readFile gf) (gf_unmarshal gf) (tenants_path gf) = Inl e"
    and "(\<lambda>x y. \<exists>who. sys_step E gf WaitForCacheSync who x y)\<^sup>*\<^sup>* c c'"
  shows "sys_gateway c' \<noteq> GwServing srv a
    \<and> (sys_step E gf WaitForCacheSync TheGateway c' c'' \<longrightarrow> sys_exit c'' = None)
    \<and> (sys_exit c' = None \<longrightarrow>
        (\<exists>d. sys_step E gf WaitForCacheSync TheSnapshots c' d \<and> sys_exit d = None))"
proof -
  have "no_gateway gf c'" using no_gateway_later [OF assms(2)] assms(1) by (auto simp: no_gateway_def)
  then show ?thesis
    using gateway_never_exits reconcilers_go_on by (auto simp: no_gateway_def)
qed

lemma lost_load: "Load (gf_readFile lost_files) (gf_unmarshal lost_files) (tenants_path lost_files)
   = Inl (Errorw (''read tenants config '' @ Quote (tenants_path lost_files) @ '': '') (Errorf ''no such file''))"
  by (simp add: lost_files_def Load_def)

theorem gateway_lost_witness:
  "\<exists>d. sys_step ref_env lost_files (Pair True) TheSnapshots
       \<lparr>sys_gateway = GwEnded, sys_exit = None, sys_world = empty_cluster\<rparr> d \<and> sys_exit d = None"
proof -
  let ?c = "\<lambda>g. \<lparr>sys_gateway = g, sys_exit = None, sys_world = empty_cluster\<rparr>"
  let ?step = "\<lambda>x y. \<exists>who. sys_step ref_env lost_files (Pair True) who x y"
  have s1: "?step (?c GwWaiting) (?c GwSynced)"
    using sys_step.synced [of "Pair True" empty_cluster empty_cluster ref_env lost_files] by blast
  have s2: "?step (?c GwSynced) (?c GwEnded)"
    by (rule exI) (rule sys_step.refuses [OF gateway_refused [OF lost_load]])
  have "?step\<^sup>*\<^sup>* (?c GwWaiting) (?c GwEnded)"
    by (rule converse_rtranclp_into_rtranclp [where r = ?step, OF s1 r_into_rtranclp [where r = ?step, OF s2]])
  from gateway_lost [OF _ this, of _ _ _ "?c GwEnded"] lost_load show ?thesis by simp
qed

end
