(* ===== verification/Greeter.thy ===== *)
theory Greeter
  imports Gateway "HOL-Library.Multiset"
begin

text \<open>
  \<open>samples/greeter-db/main.go\<close>: the sample client of a database made by this service. The driver
  \<open>lib/pq\<close> and the server behind it are the record \<open>'s sqldb\<close>, an argument of every definition that
  uses them; a row that \<open>rows.Next\<close> yields is what \<open>rows.Scan\<close> makes of it, an error or its four
  columns. The process is a step relation: the start-up, requests, the end of
  \<open>ListenAndServe\<close>, the signal and the shutdown.
\<close>

section \<open>The database\<close>

text \<open>A \<open>time.Time\<close> as the fields its layout prints, the zone as its offset in seconds.\<close>

record gotime =
  t_Year :: int
  t_Month :: nat
  t_Day :: nat
  t_Hour :: nat
  t_Minute :: nat
  t_Second :: nat
  t_Offset :: int

record row =
  row_id :: int
  row_name :: string
  row_message :: string
  row_created_at :: gotime

record 's sqldb =
  sql_Open :: "string \<Rightarrow> 's \<Rightarrow> error option \<times> 's"
  db_Ping :: "'s \<Rightarrow> error option \<times> 's"
  db_Exec :: "string \<Rightarrow> string list \<Rightarrow> 's \<Rightarrow> error option \<times> 's"
  db_Query :: "string \<Rightarrow> 's \<Rightarrow> (error + (error + row) list) \<times> 's"
  db_Close :: "'s \<Rightarrow> 's"
  time_Sleep :: "nat \<Rightarrow> 's \<Rightarrow> 's"

section \<open>The environment and the data source name\<close>

definition envOr :: "(string \<Rightarrow> string) \<Rightarrow> string \<Rightarrow> string \<Rightarrow> string" where
  "envOr getenv key fallback = (if getenv key \<noteq> [] then getenv key else fallback)"

definition greeter_dsn :: "(string \<Rightarrow> string) \<Rightarrow> string" where
  "greeter_dsn getenv =
     (if getenv ''DATABASE_URL'' = []
      then ''host='' @ envOr getenv ''PGHOST'' ''orders-db''
        @ '' port='' @ envOr getenv ''PGPORT'' ''5432''
        @ '' user='' @ envOr getenv ''PGUSER'' ''orders_admin''
        @ '' password='' @ getenv ''PGPASSWORD''
        @ '' dbname='' @ envOr getenv ''PGDATABASE'' ''orders''
        @ '' sslmode=require''
      else getenv ''DATABASE_URL'')"

section \<open>Start-up\<close>

definition nl :: string where "nl = [char_of (10::nat)]"

definition tab :: string where "tab = [char_of (9::nat)]"

definition create_sql :: string where
  "create_sql = nl
     @ tab @ tab @ ''CREATE TABLE IF NOT EXISTS greetings ('' @ nl
     @ tab @ tab @ tab @ ''id SERIAL PRIMARY KEY,'' @ nl
     @ tab @ tab @ tab @ ''name TEXT NOT NULL,'' @ nl
     @ tab @ tab @ tab @ ''message TEXT NOT NULL,'' @ nl
     @ tab @ tab @ tab @ ''created_at TIMESTAMP DEFAULT NOW()'' @ nl
     @ tab @ tab @ '')'' @ nl
     @ tab"

text \<open>The loop \<open>for i := 0; i < 30; i++\<close>, from the iteration \<open>i\<close> on.\<close>

function wait_ready :: "'s sqldb \<Rightarrow> nat \<Rightarrow> 's \<Rightarrow> 's" where
  "wait_ready D i s =
     (if i < 30
      then (case db_Ping D s of
              (None, s') \<Rightarrow> s'
            | (Some _, s') \<Rightarrow> wait_ready D (i + 1) (time_Sleep D 2 s'))
      else s)"
  by pat_completeness auto
termination
  by (relation "measure (\<lambda>(D, i, s). 30 - i)") auto

declare wait_ready.simps [simp del]

datatype started = Fatal string | Serving string

definition greeter_start :: "'s sqldb \<Rightarrow> (string \<Rightarrow> string) \<Rightarrow> 's \<Rightarrow> started \<times> 's" where
  "greeter_start D getenv s =
     (case sql_Open D (greeter_dsn getenv) s of
        (Some e, s1) \<Rightarrow> (Fatal (''Failed to open database: '' @ err_text e), s1)
      | (None, s1) \<Rightarrow>
          (case db_Ping D (wait_ready D 0 s1) of
             (Some e, s2) \<Rightarrow> (Fatal (''Database not reachable after 60s: '' @ err_text e), s2)
           | (None, s2) \<Rightarrow>
               (case db_Exec D create_sql [] s2 of
                  (Some e, s3) \<Rightarrow> (Fatal (''Failed to create table: '' @ err_text e), s3)
                | (None, s3) \<Rightarrow> (Serving ('':'' @ envOr getenv ''PORT'' ''9090''), s3))))"

section \<open>Query parameters: \<open>r.URL.Query().Get\<close>\<close>

definition unhex :: "char \<Rightarrow> nat option" where
  "unhex c = (let n = (of_char c :: nat) in
     if 48 \<le> n \<and> n \<le> 57 then Some (n - 48)
     else if 97 \<le> n \<and> n \<le> 102 then Some (n - 87)
     else if 65 \<le> n \<and> n \<le> 70 then Some (n - 55)
     else None)"

fun QueryUnescape :: "string \<Rightarrow> string option" where
  "QueryUnescape [] = Some []"
| "QueryUnescape (c # cs) =
     (if c = CHR ''%''
      then (case cs of
              a # b # r \<Rightarrow>
                (case (unhex a, unhex b) of
                   (Some x, Some y) \<Rightarrow> map_option (\<lambda>t. char_of (16 * x + y) # t) (QueryUnescape r)
                 | _ \<Rightarrow> None)
            | _ \<Rightarrow> None)
      else map_option (\<lambda>t. (if c = CHR ''+'' then CHR '' '' else c) # t) (QueryUnescape cs))"

text \<open>One setting of \<open>url.ParseQuery\<close>: those with a semicolon or a bad escape are left out.\<close>

definition query_pair :: "string \<Rightarrow> (string \<times> string) option" where
  "query_pair seg =
     (if CHR '';'' \<in> set seg \<or> seg = [] then None
      else (let kv = SplitN2 seg (CHR ''='') in
        case (QueryUnescape (kv ! 0), QueryUnescape (if length kv = 2 then kv ! 1 else [])) of
          (Some k, Some v) \<Rightarrow> Some (k, v)
        | _ \<Rightarrow> None))"

definition query_get :: "string \<Rightarrow> string \<Rightarrow> string" where
  "query_get q key =
     (case map_of (List.map_filter query_pair (Split q (CHR ''&''))) key of
        Some v \<Rightarrow> v
      | None \<Rightarrow> [])"

section \<open>Handlers\<close>

record grequest =
  gq_Method :: string
  gq_Path :: string
  gq_RawQuery :: string

text \<open>An empty content type is one that the handler leaves to \<open>net/http\<close>.\<close>

datatype gbody = Text string | Encoded json | NoBody

record gresponse =
  gs_Status :: int
  gs_ContentType :: string
  gs_Body :: gbody

definition http_Error :: "string \<Rightarrow> int \<Rightarrow> gresponse" where
  "http_Error msg code =
     \<lparr>gs_Status = code, gs_ContentType = ''text/plain; charset=utf-8'', gs_Body = Text (msg @ nl)\<rparr>"

definition encode_ok :: "json \<Rightarrow> gresponse" where
  "encode_ok j = \<lparr>gs_Status = 200, gs_ContentType = ''application/json'', gs_Body = Encoded j\<rparr>"

definition insert_sql :: string where
  "insert_sql = ''INSERT INTO greetings (name, message) VALUES ($1, $2)''"

definition greet_name :: "grequest \<Rightarrow> string" where
  "greet_name rq = (let name = query_get (gq_RawQuery rq) ''name'' in
     if name = [] then ''Stranger'' else name)"

definition greet_message :: "string \<Rightarrow> string" where
  "greet_message name = ''Hello, '' @ name @ ''!''"

definition handleGreet :: "'s sqldb \<Rightarrow> grequest \<Rightarrow> 's \<Rightarrow> gresponse \<times> 's" where
  "handleGreet D rq s =
     (let name = greet_name rq; message = greet_message name in
      case db_Exec D insert_sql [name, message] s of
        (Some _, s') \<Rightarrow> (http_Error ''database error'' 500, s')
      | (None, s') \<Rightarrow>
          (encode_ok (JMap [(''message'', JStr message), (''stored'', JStr ''true''),
             (''db'', JStr ''orders (DBaaS on Harvester)'')]), s'))"

text \<open>\<open>t.Format(time.RFC3339)\<close>.\<close>

definition pad :: "nat \<Rightarrow> nat \<Rightarrow> string" where
  "pad w n = (let d = dec_digits n in replicate (w - length d) (CHR ''0'') @ d)"

definition pad_int :: "nat \<Rightarrow> int \<Rightarrow> string" where
  "pad_int w i = (if i < 0 then ''-'' else []) @ pad w (nat \<bar>i\<bar>)"

definition format_zone :: "int \<Rightarrow> string" where
  "format_zone off =
     (if off = 0 then ''Z''
      else (let zone = off sdiv 60 in
        (if zone < 0 then ''-'' else ''+'')
          @ pad 2 (nat \<bar>zone\<bar> div 60) @ '':'' @ pad 2 (nat \<bar>zone\<bar> mod 60)))"

definition format_RFC3339 :: "gotime \<Rightarrow> string" where
  "format_RFC3339 t =
     pad_int 4 (t_Year t) @ ''-'' @ pad 2 (t_Month t) @ ''-'' @ pad 2 (t_Day t) @ ''T''
       @ pad 2 (t_Hour t) @ '':'' @ pad 2 (t_Minute t) @ '':'' @ pad 2 (t_Second t)
       @ format_zone (t_Offset t)"

record greeting =
  g_ID :: int
  g_Name :: string
  g_Message :: string
  g_CreatedAt :: string

definition list_sql :: string where
  "list_sql =
     ''SELECT id, name, message, created_at FROM greetings ORDER BY created_at DESC LIMIT 50''"

text \<open>The loop over \<open>rows.Next\<close>, with the slice collected so far.\<close>

fun scan_rows :: "(error + row) list \<Rightarrow> greeting list \<Rightarrow> greeting list" where
  "scan_rows [] greetings = greetings"
| "scan_rows (Inl _ # rs) greetings = scan_rows rs greetings"
| "scan_rows (Inr r # rs) greetings =
     scan_rows rs (greetings @ [\<lparr>g_ID = row_id r, g_Name = row_name r, g_Message = row_message r,
       g_CreatedAt = format_RFC3339 (row_created_at r)\<rparr>])"

definition greeting_json :: "greeting \<Rightarrow> json" where
  "greeting_json g = JMap [(''id'', JInt (g_ID g)), (''name'', JStr (g_Name g)),
     (''message'', JStr (g_Message g)), (''created_at'', JStr (g_CreatedAt g))]"

definition handleGreetings :: "'s sqldb \<Rightarrow> grequest \<Rightarrow> 's \<Rightarrow> gresponse \<times> 's" where
  "handleGreetings D rq s =
     (case db_Query D list_sql s of
        (Inl e, s') \<Rightarrow> (http_Error (''query error: '' @ err_text e) 500, s')
      | (Inr rows, s') \<Rightarrow>
          (let greetings = scan_rows rows [] in
           (encode_ok (JMap [(''greetings'', JList (map greeting_json greetings)),
              (''count'', JInt (int (length greetings))),
              (''database'', JStr ''orders (DBaaS PostgreSQL on Harvester)'')]), s')))"

definition handleHealth :: "'s sqldb \<Rightarrow> grequest \<Rightarrow> 's \<Rightarrow> gresponse \<times> 's" where
  "handleHealth D rq s =
     (case db_Ping D s of
        (Some e, s') \<Rightarrow>
          (\<lparr>gs_Status = 503, gs_ContentType = [],
            gs_Body = Text (''{\"status\":\"unhealthy\",\"error\":\"'' @ err_text e @ ''\"}'')\<rparr>, s')
      | (None, s') \<Rightarrow>
          (\<lparr>gs_Status = 200, gs_ContentType = [],
            gs_Body = Text ''{\"status\":\"healthy\",\"database\":\"connected\"}''\<rparr>, s'))"

definition greeter_mux :: "'s sqldb \<Rightarrow> grequest \<Rightarrow> 's \<Rightarrow> gresponse \<times> 's" where
  "greeter_mux D rq s =
     (let p = gq_Path rq in
      if gq_Method rq \<noteq> ''CONNECT'' \<and> cleanPath p \<noteq> p
      then (\<lparr>gs_Status = 301, gs_ContentType = [], gs_Body = NoBody\<rparr>, s)
      else if p = ''/greeter/greet'' then handleGreet D rq s
      else if p = ''/greeter/greetings'' then handleGreetings D rq s
      else if p = ''/healthz'' then handleHealth D rq s
      else (http_Error ''404 page not found'' 404, s))"

section \<open>The process\<close>

text \<open>
  After the start-up the process listens until \<open>ListenAndServe\<close> fails (\<open>log.Fatalf\<close>, which runs no
  deferred call) or a signal arrives; requests in flight are still served until \<open>Shutdown\<close> has
  returned, and then the deferred \<open>db.Close\<close> runs. A handler that outlives the ten seconds \<open>Shutdown\<close> waits, and
  calls the closed handle before the process is gone, is left out. A handler makes at most one call to the database, so one step
  per request covers every interleaving.
\<close>

datatype gproc = Listening | Stopping | Exited nat

definition alive :: "gproc \<Rightarrow> bool" where
  "alive p = (case p of Exited _ \<Rightarrow> False | _ \<Rightarrow> True)"

inductive greeter_step :: "'s sqldb \<Rightarrow> gproc \<times> 's \<Rightarrow> gproc \<times> 's \<Rightarrow> bool" for D :: "'s sqldb" where
  request: "alive p \<Longrightarrow> greeter_mux D rq s = (r, s') \<Longrightarrow> greeter_step D (p, s) (p, s')"
| listen_failed: "alive p \<Longrightarrow> greeter_step D (p, s) (Exited 1, s)"
| signal: "greeter_step D (Listening, s) (Stopping, s)"
| shutdown: "greeter_step D (Stopping, s) (Exited 0, db_Close D s)"

text \<open>The states of a process that came up, from the state \<open>s\<^sub>0\<close> of the world it was started in.\<close>

inductive greeter_run :: "'s sqldb \<Rightarrow> (string \<Rightarrow> string) \<Rightarrow> 's \<Rightarrow> gproc \<Rightarrow> 's \<Rightarrow> bool"
  for D :: "'s sqldb" and getenv :: "string \<Rightarrow> string" and s\<^sub>0 :: 's where
  start: "greeter_start D getenv s\<^sub>0 = (Serving addr, s) \<Longrightarrow> greeter_run D getenv s\<^sub>0 Listening s"
| step: "greeter_run D getenv s\<^sub>0 p s \<Longrightarrow> greeter_step D (p, s) (p', s')
    \<Longrightarrow> greeter_run D getenv s\<^sub>0 p' s'"

section \<open>Recording the calls to the database\<close>

datatype dbcall =
    QOpen string
  | QPing
  | QExec string "string list"
  | QQuery string
  | QClose
  | QSleep nat

definition spy :: "dbcall \<Rightarrow> ('s \<Rightarrow> 'r \<times> 's) \<Rightarrow> 's \<times> dbcall list \<Rightarrow> 'r \<times> ('s \<times> dbcall list)" where
  "spy c f w = (case f (fst w) of (r, s') \<Rightarrow> (r, (s', snd w @ [c])))"

definition spied :: "'s sqldb \<Rightarrow> ('s \<times> dbcall list) sqldb" where
  "spied D = \<lparr>
     sql_Open = (\<lambda>d. spy (QOpen d) (sql_Open D d)),
     db_Ping = spy QPing (db_Ping D),
     db_Exec = (\<lambda>q args. spy (QExec q args) (db_Exec D q args)),
     db_Query = (\<lambda>q. spy (QQuery q) (db_Query D q)),
     db_Close = (\<lambda>w. (db_Close D (fst w), snd w @ [QClose])),
     time_Sleep = (\<lambda>n w. (time_Sleep D n (fst w), snd w @ [QSleep n]))\<rparr>"

lemma spied_sel [simp]:
  "sql_Open (spied D) d = spy (QOpen d) (sql_Open D d)"
  "db_Ping (spied D) = spy QPing (db_Ping D)"
  "db_Exec (spied D) q args = spy (QExec q args) (db_Exec D q args)"
  "db_Query (spied D) q = spy (QQuery q) (db_Query D q)"
  "db_Close (spied D) w = (db_Close D (fst w), snd w @ [QClose])"
  "time_Sleep (spied D) n w = (time_Sleep D n (fst w), snd w @ [QSleep n])"
  by (simp_all add: spied_def)

lemma spy_eq [simp]: "(spy c f w = (r, w')) = (f (fst w) = (r, fst w') \<and> snd w' = snd w @ [c])"
  by (cases w') (auto simp: spy_def split: prod.splits)

section \<open>Waiting for the database\<close>


definition ping_ok :: "'s sqldb \<Rightarrow> 's \<Rightarrow> bool" where
  "ping_ok D s = (fst (db_Ping D s) = None)"

text \<open>The world after \<open>n\<close> pings in vain, each followed by two seconds of sleep.\<close>

primrec after :: "'s sqldb \<Rightarrow> nat \<Rightarrow> 's \<Rightarrow> 's" where
  "after D 0 s = s"
| "after D (Suc n) s = after D n (time_Sleep D 2 (snd (db_Ping D s)))"

text \<open>
  What the loop does: it pings until a ping succeeds, at most as often as it may, and sleeps after each
  ping in vain.
\<close>

lemma wait_ready_exact:
  "\<exists>k \<le> 30 - i. (\<forall>n < k. \<not> ping_ok D (after D n (fst w))) \<and> (k < 30 - i \<longrightarrow> ping_ok D (after D k (fst w)))
     \<and> wait_ready (spied D) i w =
         (if k < 30 - i then snd (db_Ping D (after D k (fst w))) else after D k (fst w),
          snd w @ concat (replicate k [QPing, QSleep 2]) @ (if k < 30 - i then [QPing] else []))"
proof (induction D i "fst w" arbitrary: w rule: wait_ready.induct)
  case (1 D i)
  obtain r s' where p: "db_Ping D (fst w) = (r, s')" by (metis surj_pair)
  show ?case
  proof (cases "i < 30 \<and> r \<noteq> None")
    case True
    let ?w = "(time_Sleep D 2 s', snd w @ [QPing, QSleep 2])"
    have no: "\<not> ping_ok D (fst w)" using True by (simp add: ping_ok_def p)
    from True "1.hyps" [OF _ p [symmetric], of _ ?w] obtain k where k: "k \<le> 30 - (i + 1)"
      "\<forall>n < k. \<not> ping_ok D (after D n (fst ?w))" "k < 30 - (i + 1) \<longrightarrow> ping_ok D (after D k (fst ?w))"
      "wait_ready (spied D) (i + 1) ?w =
         (if k < 30 - (i + 1) then snd (db_Ping D (after D k (fst ?w))) else after D k (fst ?w),
          snd ?w @ concat (replicate k [QPing, QSleep 2]) @ (if k < 30 - (i + 1) then [QPing] else []))"
      by auto
    have "wait_ready (spied D) i w = wait_ready (spied D) (i + 1) ?w"
      using True by (subst wait_ready.simps) (auto simp: spy_def p)
    moreover have "\<forall>n < Suc k. \<not> ping_ok D (after D n (fst w))"
      using no k(2) by (auto simp: less_Suc_eq_0_disj p)
    moreover have "Suc k \<le> 30 - i" "Suc k < 30 - i \<longleftrightarrow> k < 30 - (i + 1)" using True k(1) by auto
    ultimately show ?thesis using k(3,4) by (intro exI [of _ "Suc k"]) (simp add: p)
  next
    case False
    then show ?thesis
      by (subst wait_ready.simps) (auto simp: spy_def p ping_ok_def intro!: exI [of _ 0])
  qed
qed

definition waited :: "nat \<Rightarrow> dbcall list" where
  "waited k = concat (replicate k [QPing, QSleep 2]) @ (if k < 30 then [QPing] else [])"

text \<open>The world when the loop has ended after \<open>k\<close> pings in vain.\<close>

definition after_wait :: "'s sqldb \<Rightarrow> nat \<Rightarrow> 's \<Rightarrow> 's" where
  "after_wait D k s = (if k < 30 then snd (db_Ping D (after D k s)) else after D 30 s)"

section \<open>A database in memory\<close>

text \<open>
  PostgreSQL as far as the sample uses it: it refuses the first \<open>rd_failing\<close> pings and then keeps
  one table, newest row first.
\<close>

record refdb =
  rd_failing :: nat
  rd_table :: "row list option"
  rd_seconds :: nat

definition ref_time :: "nat \<Rightarrow> gotime" where
  "ref_time n = \<lparr>t_Year = 2024, t_Month = 1, t_Day = 1 + n div 86400 mod 31,
     t_Hour = n div 3600 mod 24, t_Minute = n div 60 mod 60, t_Second = n mod 60, t_Offset = 0\<rparr>"

definition ref_row :: "refdb \<Rightarrow> row list \<Rightarrow> string \<Rightarrow> string \<Rightarrow> row" where
  "ref_row s t n m = \<lparr>row_id = int (length t) + 1, row_name = n, row_message = m,
     row_created_at = ref_time (rd_seconds s)\<rparr>"

definition ref_Ping :: "refdb \<Rightarrow> error option \<times> refdb" where
  "ref_Ping s = (if 0 < rd_failing s
     then (Some (Errorf ''connection refused''), s\<lparr>rd_failing := rd_failing s - 1\<rparr>)
     else (None, s))"

definition ref_Exec :: "string \<Rightarrow> string list \<Rightarrow> refdb \<Rightarrow> error option \<times> refdb" where
  "ref_Exec q args s =
     (if 0 < rd_failing s then (Some (Errorf ''connection refused''), s)
      else if q = create_sql \<and> args = []
      then (None, s\<lparr>rd_table := Some (case rd_table s of None \<Rightarrow> [] | Some t \<Rightarrow> t)\<rparr>)
      else if q = insert_sql
      then (case (args, rd_table s) of
              ([n, m], Some t) \<Rightarrow> (None, s\<lparr>rd_table := Some (ref_row s t n m # t)\<rparr>)
            | _ \<Rightarrow> (Some (Errorf ''pq: relation does not exist''), s))
      else (Some (Errorf ''pq: syntax error''), s))"

definition ref_Query :: "string \<Rightarrow> refdb \<Rightarrow> (error + (error + row) list) \<times> refdb" where
  "ref_Query q s =
     (if 0 < rd_failing s \<or> q \<noteq> list_sql then (Inl (Errorf ''pq: error''), s)
      else (case rd_table s of
              None \<Rightarrow> (Inl (Errorf ''pq: relation does not exist''), s)
            | Some t \<Rightarrow> (Inr (map Inr (take 50 t)), s)))"

definition ref_pg :: "refdb sqldb" where
  "ref_pg = \<lparr>sql_Open = (\<lambda>d s. (None, s)), db_Ping = ref_Ping, db_Exec = ref_Exec,
     db_Query = ref_Query, db_Close = (\<lambda>s. s),
     time_Sleep = (\<lambda>n s. s\<lparr>rd_seconds := rd_seconds s + n\<rparr>)\<rparr>"

definition fresh_pg :: "nat \<Rightarrow> refdb" where
  "fresh_pg n = \<lparr>rd_failing = n, rd_table = None, rd_seconds = 0\<rparr>"

lemma ref_pg_sel [simp]:
  "sql_Open ref_pg d s = (None, s)" "db_Ping ref_pg = ref_Ping" "db_Exec ref_pg = ref_Exec"
  "db_Query ref_pg = ref_Query" "time_Sleep ref_pg n s = s\<lparr>rd_seconds := rd_seconds s + n\<rparr>"
  by (simp_all add: ref_pg_def)

lemma sql_texts_differ [simp]: "insert_sql \<noteq> create_sql" "create_sql \<noteq> insert_sql"
  by (simp_all add: insert_sql_def create_sql_def nl_def)

lemma ref_ping_ok [simp]: "ping_ok ref_pg s = (rd_failing s = 0)"
  by (simp add: ping_ok_def ref_Ping_def)

section \<open>The start-up, proved\<close>

lemma start_exact:
  assumes "sql_Open D (greeter_dsn getenv) s = (None, s1)"
    and "greeter_start (spied D) getenv (s, []) = (r, w)"
  shows "\<exists>k \<le> 30. (\<forall>n < k. \<not> ping_ok D (after D n s1)) \<and> (k < 30 \<longrightarrow> ping_ok D (after D k s1))
    \<and> snd w = QOpen (greeter_dsn getenv) # waited k @ QPing
        # (if ping_ok D (after_wait D k s1) then [QExec create_sql []] else [])
    \<and> (if ping_ok D (after_wait D k s1)
           \<and> fst (db_Exec D create_sql [] (snd (db_Ping D (after_wait D k s1)))) = None
       then r = Serving ('':'' @ envOr getenv ''PORT'' ''9090'')
       else \<exists>msg. r = Fatal msg)"
proof -
  obtain k where k: "k \<le> 30" "\<forall>n < k. \<not> ping_ok D (after D n s1)" "k < 30 \<longrightarrow> ping_ok D (after D k s1)"
    "wait_ready (spied D) 0 (s1, [QOpen (greeter_dsn getenv)]) =
       (if k < 30 then snd (db_Ping D (after D k s1)) else after D k s1, QOpen (greeter_dsn getenv) # waited k)"
    using wait_ready_exact [of 0 D "(s1, [QOpen (greeter_dsn getenv)])"] by (auto simp: waited_def)
  have "k = 30" if "\<not> k < 30" using that k(1) by simp
  with k(4) have ready: "wait_ready (spied D) 0 (s1, [QOpen (greeter_dsn getenv)])
      = (after_wait D k s1, QOpen (greeter_dsn getenv) # waited k)"
    by (cases "k < 30") (simp_all add: after_wait_def)
  obtain e s2 where p: "db_Ping D (after_wait D k s1) = (e, s2)" by (metis surj_pair)
  obtain e' s3 where x: "db_Exec D create_sql [] s2 = (e', s3)" by (metis surj_pair)
  have run: "snd w = QOpen (greeter_dsn getenv) # waited k @ QPing # (if e = None then [QExec create_sql []] else [])"
    "if e = None \<and> e' = None then r = Serving ('':'' @ envOr getenv ''PORT'' ''9090'') else \<exists>msg. r = Fatal msg"
    using assms(2) by (cases e; cases e'; auto simp: greeter_start_def spy_def assms(1) ready p x)+
  show ?thesis
    by (rule exI [of _ k], intro conjI k(1-3)) (use run in \<open>simp_all add: ping_ok_def p x\<close>)
qed

text \<open>
  C30: once the handle is open the start-up ends, whatever the database does: it pings, at most thirty times and with two
  seconds of sleep after each ping in vain, until the first ping that succeeds; it pings once more, and only if
  that succeeds sends the statement that creates the table. The server then listens exactly if that ping and that
  statement succeeded; else the process ends.
\<close>

theorem greeter_startup:
  assumes "sql_Open D (greeter_dsn getenv) s = (None, s1)"
    and "greeter_start (spied D) getenv (s, []) = (r, w)"
  shows "\<exists>k \<le> 30. (\<forall>n < k. \<not> ping_ok D (after D n s1)) \<and> (k < 30 \<longrightarrow> ping_ok D (after D k s1))
    \<and> snd w = QOpen (greeter_dsn getenv) # waited k @ QPing
        # (if ping_ok D (after_wait D k s1) then [QExec create_sql []] else [])
    \<and> (if ping_ok D (after_wait D k s1)
           \<and> fst (db_Exec D create_sql [] (snd (db_Ping D (after_wait D k s1)))) = None
       then r = Serving ('':'' @ envOr getenv ''PORT'' ''9090'')
       else \<exists>msg. r = Fatal msg)"
  by (rule start_exact [OF assms])

lemma ref_start:
  "greeter_start (spied ref_pg) (\<lambda>_. []) (fresh_pg 2, [])
   = (Serving '':9090'', (\<lparr>rd_failing = 0, rd_table = Some [], rd_seconds = 4\<rparr>,
       QOpen (greeter_dsn (\<lambda>_. [])) # waited 2 @ [QPing, QExec create_sql []]))"
  by (simp add: greeter_start_def wait_ready.simps spy_def fresh_pg_def ref_Ping_def ref_Exec_def
      envOr_def waited_def eval_nat_numeral)

theorem greeter_startup_witness:
  "\<exists>k \<le> 30. ping_ok ref_pg (after_wait ref_pg k (fresh_pg 2))
     \<and> snd (snd (greeter_start (spied ref_pg) (\<lambda>_. []) (fresh_pg 2, [])))
         = QOpen (greeter_dsn (\<lambda>_. [])) # waited k @ [QPing, QExec create_sql []]"
proof -
  obtain k where k: "k \<le> 30" "snd (snd (greeter_start (spied ref_pg) (\<lambda>_. []) (fresh_pg 2, [])))
      = QOpen (greeter_dsn (\<lambda>_. [])) # waited k @ QPing
          # (if ping_ok ref_pg (after_wait ref_pg k (fresh_pg 2)) then [QExec create_sql []] else [])"
    "ping_ok ref_pg (after_wait ref_pg k (fresh_pg 2))"
    using greeter_startup [OF ref_pg_sel(1) ref_start] unfolding ref_start snd_conv
    by (metis started.distinct(1))
  then show ?thesis by auto
qed

section \<open>The statements sent to the database\<close>

text \<open>
  The calls that the process may make: the SQL texts are constants, and the only values are the two
  parameters of the insertion.
\<close>

fun dbcall_ok :: "(string \<Rightarrow> string) \<Rightarrow> dbcall \<Rightarrow> bool" where
  "dbcall_ok getenv (QOpen d) = (d = greeter_dsn getenv)"
| "dbcall_ok getenv QPing = True"
| "dbcall_ok getenv (QExec q args) =
     (q = create_sql \<and> args = []
      \<or> q = insert_sql \<and> hd args \<noteq> [] \<and> args = [hd args, greet_message (hd args)])"
| "dbcall_ok getenv (QQuery q) = (q = list_sql)"
| "dbcall_ok getenv QClose = False"
| "dbcall_ok getenv (QSleep n) = (n = 2)"

lemma waited_ok: "list_all (dbcall_ok getenv) (waited k)"
  by (simp add: waited_def list_all_iff)

lemma started_ok:
  assumes "greeter_start (spied D) getenv (s, []) = (Serving addr, w)"
  shows "list_all (dbcall_ok getenv) (snd w)"
proof -
  obtain s1 where "sql_Open D (greeter_dsn getenv) s = (None, s1)"
    using assms by (auto simp: greeter_start_def split: prod.splits option.splits)
  from start_exact [OF this assms] show ?thesis using waited_ok by auto
qed

lemma request_ok:
  assumes "greeter_mux (spied D) rq w = (r, w')"
  shows "\<exists>cs. snd w' = snd w @ cs \<and> list_all (dbcall_ok getenv) cs \<and> length cs \<le> 1"
  using assms unfolding greeter_mux_def handleGreet_def handleGreetings_def handleHealth_def Let_def
  by (auto simp: spy_def greet_name_def Let_def split: if_splits prod.splits option.splits sum.splits)

text \<open>
  C29: over the whole life of the process, whatever requests it gets, the database sees only the three fixed
  statements: the table creation, the listing, and the insertion with the name and the greeting made of
  it as its two parameters. The connection is closed once, as the last call, when a signal ended the process,
  and not at all when listening failed.
\<close>

theorem greeter_sql_fixed:
  assumes "greeter_run (spied D) getenv (s, []) p w"
  shows "\<exists>cs. list_all (dbcall_ok getenv) cs \<and> snd w = cs @ (if p = Exited 0 then [QClose] else [])"
  using assms
proof (induction rule: greeter_run.induct)
  case (start addr w)
  then show ?case using started_ok by (intro exI [of _ "snd w"]) simp
next
  case (step p w p' w')
  then obtain cs where cs: "list_all (dbcall_ok getenv) cs"
    "snd w = cs @ (if p = Exited 0 then [QClose] else [])" by blast
  from step.hyps(2) show ?case
  proof (cases rule: greeter_step.cases)
    case (request rq r)
    from request_ok [OF request(3), of getenv] obtain ds
      where "snd w' = snd w @ ds" "list_all (dbcall_ok getenv) ds" by blast
    with request cs show ?thesis by (auto simp: alive_def intro!: exI [of _ "cs @ ds"])
  qed (use cs in \<open>auto simp: alive_def\<close>)
qed

lemma ref_run_stopped:
  "greeter_run (spied ref_pg) (\<lambda>_. []) (fresh_pg 2, []) (Exited 0)
     (db_Close (spied ref_pg) (snd (greeter_start (spied ref_pg) (\<lambda>_. []) (fresh_pg 2, []))))"
  unfolding ref_start snd_conv
  by (rule greeter_run.step [OF greeter_run.step [OF greeter_run.start [OF ref_start]
        greeter_step.signal] greeter_step.shutdown])

theorem greeter_sql_fixed_witness:
  "\<exists>cs. list_all (dbcall_ok (\<lambda>_. [])) cs
     \<and> QOpen (greeter_dsn (\<lambda>_. [])) # waited 2 @ [QPing, QExec create_sql [], QClose] = cs @ [QClose]"
  using greeter_sql_fixed [OF ref_run_stopped] by (simp add: ref_start)

section \<open>Greetings are kept as sent\<close>

text \<open>A name as a client may send it: every byte escaped.\<close>

definition pct :: "char \<Rightarrow> string" where
  "pct c = [CHR ''%'', hex_digit (of_char c div 16), hex_digit (of_char c mod 16)]"

definition PercentEncode :: "string \<Rightarrow> string" where
  "PercentEncode n = concat (map pct n)"

lemma below_16: "(\<forall>n < 16 :: nat. P n) = (P 0 \<and> P 1 \<and> P 2 \<and> P 3 \<and> P 4 \<and> P 5 \<and> P 6 \<and> P 7
    \<and> P 8 \<and> P 9 \<and> P 10 \<and> P 11 \<and> P 12 \<and> P 13 \<and> P 14 \<and> P 15)"
  by (simp add: eval_nat_numeral All_less_Suc conj_ac)

lemma unhex_hex_digit [simp]: "n < 16 \<Longrightarrow> unhex (hex_digit n) = Some n"
  using below_16 [of "\<lambda>n. unhex (hex_digit n) = Some n"] by (simp add: hex_digit_def unhex_def)

lemma hex_digit_plain: "n < 16 \<Longrightarrow> c \<in> set ''%;&='' \<Longrightarrow> hex_digit n \<noteq> c"
  using below_16 [of "\<lambda>n. hex_digit n \<notin> set ''%;&=''"] by (auto simp: hex_digit_def)

lemma of_char_div_16 [simp]: "(of_char (c :: char) :: nat) div 16 < 16"
  using nat_of_char_less_256 [of c] by linarith

lemma QueryUnescape_encoded [simp]: "QueryUnescape (PercentEncode n) = Some n"
  by (induction n) (simp_all add: PercentEncode_def pct_def)

lemma PercentEncode_plain:
  assumes "c \<in> set '';&=''"
  shows "c \<notin> set (PercentEncode n)"
proof -
  have "c \<noteq> CHR ''%''" using assms by auto
  moreover have "c \<noteq> hex_digit k" if "k < 16" for k
    using assms hex_digit_plain [OF that, of c] by auto
  ultimately show ?thesis by (induction n) (simp_all add: PercentEncode_def pct_def)
qed

lemma query_get_encoded: "query_get (''name='' @ PercentEncode n) ''name'' = n"
proof -
  have plain: "CHR '';'' \<notin> set (PercentEncode n)" "CHR ''&'' \<notin> set (PercentEncode n)"
    by (rule PercentEncode_plain, simp)+
  have "query_pair (''name='' @ PercentEncode n) = Some (''name'', n)"
    using plain by (simp add: query_pair_def SplitN2_def)
  then show ?thesis
    using plain by (simp add: query_get_def Split_plain map_filter_def)
qed


lemma scan_rows_Inr:
  "scan_rows (map Inr rows) gs = gs @ map (\<lambda>r. \<lparr>g_ID = row_id r, g_Name = row_name r,
     g_Message = row_message r, g_CreatedAt = format_RFC3339 (row_created_at r)\<rparr>) rows"
  by (induction rows arbitrary: gs) simp_all

text \<open>
  What the sample relies on, about the statements as they are sent: the insertion adds a row whose name and message
  are its two parameters, and the listing gives at most fifty of the rows.
\<close>

locale greeting_db =
  fixes D :: "'s sqldb"
    and tbl :: "'s \<Rightarrow> row list"
  assumes inserts: "db_Exec D ''INSERT INTO greetings (name, message) VALUES ($1, $2)''
        [n, m] s = (None, s') \<Longrightarrow>
      \<exists>r. row_name r = n \<and> row_message r = m \<and> mset (tbl s') = add_mset r (mset (tbl s))"
    and lists: "db_Query D ''SELECT id, name, message, created_at FROM greetings ORDER BY created_at DESC LIMIT 50''
        s = (Inr rs, s') \<Longrightarrow>
      \<exists>rows. rs = map Inr rows \<and> mset rows \<subseteq># mset (tbl s) \<and> length rows = min 50 (length (tbl s))"
begin

lemma listing:
  assumes "handleGreetings D rq s = (r, s')" "gs_Status r = 200"
  obtains rows where "mset rows \<subseteq># mset (tbl s)" "length rows = min 50 (length (tbl s))"
    "r = encode_ok (JMap [(''greetings'', JList (map greeting_json (scan_rows (map Inr rows) []))),
       (''count'', JInt (int (length rows))),
       (''database'', JStr ''orders (DBaaS PostgreSQL on Harvester)'')])"
  using assms lists [of s]
  by (fastforce simp: handleGreetings_def list_sql_def http_Error_def Let_def scan_rows_Inr
      split: prod.splits sum.splits)

lemma greeted:
  assumes "handleGreet D rq s = (r, s')" "gs_Status r = 200"
  obtains x where "row_name x = greet_name rq" "row_message x = greet_message (greet_name rq)"
    "mset (tbl s') = add_mset x (mset (tbl s))"
  using assms inserts [of "greet_name rq" "greet_message (greet_name rq)" s]
  by (auto simp: handleGreet_def insert_sql_def http_Error_def Let_def split: prod.splits option.splits)

lemma greeting_listed:
  assumes "handleGreet D rq s = (r, s')" "gs_Status r = 200"
    and "handleGreetings D rq' s' = (r', s'')" "gs_Status r' = 200"
    and "length (tbl s) < 50"
  shows "\<exists>gs g. gs_Body r' = Encoded (JMap [(''greetings'', JList (map greeting_json gs)),
       (''count'', JInt (int (length (tbl s)) + 1)),
       (''database'', JStr ''orders (DBaaS PostgreSQL on Harvester)'')])
     \<and> g \<in> set gs \<and> g_Name g = greet_name rq \<and> g_Message g = greet_message (greet_name rq)"
proof -
  obtain x where x: "row_name x = greet_name rq" "row_message x = greet_message (greet_name rq)"
    "mset (tbl s') = add_mset x (mset (tbl s))"
    by (rule greeted [OF assms(1,2)])
  obtain rows where rows: "mset rows \<subseteq># mset (tbl s')" "length rows = min 50 (length (tbl s'))"
    and r': "r' = encode_ok (JMap [(''greetings'', JList (map greeting_json (scan_rows (map Inr rows) []))),
       (''count'', JInt (int (length rows))),
       (''database'', JStr ''orders (DBaaS PostgreSQL on Harvester)'')])"
    by (rule listing [OF assms(3,4)])
  have len: "length (tbl s') = Suc (length (tbl s))"
    using arg_cong [OF x(3), of size] by simp
  with rows(2) assms(5) have n: "length rows = Suc (length (tbl s))" by simp
  with len have "size (mset rows) = size (mset (tbl s'))" by simp
  with rows(1) have "mset rows = mset (tbl s')"
    by (metis mset_subset_size subset_mset.le_less less_irrefl)
  with x(3) have "x \<in> set rows" by (metis set_mset_mset insertI1 set_mset_add_mset_insert)
  then have "\<lparr>g_ID = row_id x, g_Name = row_name x, g_Message = row_message x,
      g_CreatedAt = format_RFC3339 (row_created_at x)\<rparr> \<in> set (scan_rows (map Inr rows) [])"
    by (auto simp: scan_rows_Inr)
  with x n show ?thesis
    unfolding r' by (force simp: encode_ok_def)
qed

end

definition ref_rows :: "refdb \<Rightarrow> row list" where
  "ref_rows s = (case rd_table s of None \<Rightarrow> [] | Some t \<Rightarrow> t)"

lemma mset_take: "mset (take n xs) \<subseteq># mset xs"
  by (metis append_take_drop_id mset_append mset_subset_eq_add_left)

interpretation pg_table: greeting_db ref_pg ref_rows
proof
  fix n m s s'
  assume "db_Exec ref_pg ''INSERT INTO greetings (name, message) VALUES ($1, $2)''
        [n, m] s = (None, s')"
  then show "\<exists>r. row_name r = n \<and> row_message r = m \<and> mset (ref_rows s') = add_mset r (mset (ref_rows s))"
    by (auto simp: insert_sql_def [symmetric] ref_Exec_def ref_rows_def ref_row_def split: if_splits option.splits)
next
  fix s rs s'
  assume "db_Query ref_pg ''SELECT id, name, message, created_at FROM greetings ORDER BY created_at DESC LIMIT 50''
        s = (Inr rs, s')"
  then show "\<exists>rows. rs = map Inr rows \<and> mset rows \<subseteq># mset (ref_rows s)
      \<and> length rows = min 50 (length (ref_rows s))"
    by (auto simp: list_sql_def [symmetric] ref_Query_def ref_rows_def min.commute mset_take split: if_splits option.splits)
qed

text \<open>
  C31: names are kept as sent, as far as the server does what PostgreSQL documents for the two statements: the \<open>INSERT\<close>
  adds a row with its two parameters as name and message, and the \<open>SELECT\<close> gives fifty rows of the
  table, or all if there are fewer. Then a name sent with every byte escaped, whatever its bytes are, is in the next listing with its
  greeting, and the listing counts all rows, if the table had fewer than fifty rows and both requests were answered 200.
\<close>

theorem greeting_stored:
  assumes "\<And>n m s s'. db_Exec D ''INSERT INTO greetings (name, message) VALUES ($1, $2)''
        [n, m] s = (None, s') \<Longrightarrow>
      \<exists>r. row_name r = n \<and> row_message r = m \<and> mset (tbl s') = add_mset r (mset (tbl s))"
    and "\<And>s rs s'. db_Query D ''SELECT id, name, message, created_at FROM greetings ORDER BY created_at DESC LIMIT 50''
        s = (Inr rs, s') \<Longrightarrow>
      \<exists>rows. rs = map Inr rows \<and> mset rows \<subseteq># mset (tbl s) \<and> length rows = min 50 (length (tbl s))"
    and "n \<noteq> []" "length (tbl s) < 50"
    and "greeter_mux D \<lparr>gq_Method = ''GET'', gq_Path = ''/greeter/greet'',
      gq_RawQuery = ''name='' @ PercentEncode n\<rparr> s = (r, s')" "gs_Status r = 200"
    and "greeter_mux D \<lparr>gq_Method = ''GET'', gq_Path = ''/greeter/greetings'', gq_RawQuery = []\<rparr> s'
      = (r', s'')" "gs_Status r' = 200"
  shows "\<exists>gs g. gs_Body r' = Encoded (JMap [(''greetings'', JList (map greeting_json gs)),
       (''count'', JInt (int (length (tbl s)) + 1)),
       (''database'', JStr ''orders (DBaaS PostgreSQL on Harvester)'')])
     \<and> g \<in> set gs \<and> g_Name g = n \<and> g_Message g = ''Hello, '' @ n @ ''!''"
proof -
  let ?greet = "\<lparr>gq_Method = ''GET'', gq_Path = ''/greeter/greet'', gq_RawQuery = ''name='' @ PercentEncode n\<rparr>"
  have "greeting_db D tbl" using assms(1,2) by (rule greeting_db.intro)
  moreover have "handleGreet D ?greet s = (r, s')"
    using assms(5) by (simp add: greeter_mux_def cleanPath_def)
  moreover have "handleGreetings D \<lparr>gq_Method = ''GET'', gq_Path = ''/greeter/greetings'', gq_RawQuery = []\<rparr> s' = (r', s'')"
    using assms(7) by (simp add: greeter_mux_def cleanPath_def)
  moreover have "greet_name ?greet = n"
    using assms(3) query_get_encoded [of n] by (simp add: greet_name_def)
  ultimately show ?thesis
    using greeting_db.greeting_listed [of D tbl ?greet s r s', OF _ _ assms(6) _ assms(8) assms(4)]
    by (simp add: greet_message_def)
qed

definition ready_pg :: refdb where
  "ready_pg = \<lparr>rd_failing = 0, rd_table = Some [], rd_seconds = 4\<rparr>"

definition quoted_name :: string where
  "quoted_name = ''O'' @ [char_of (39::nat)] @ ''Neil; --''"

definition quoted_greet :: grequest where
  "quoted_greet = \<lparr>gq_Method = ''GET'', gq_Path = ''/greeter/greet'',
     gq_RawQuery = ''name='' @ PercentEncode quoted_name\<rparr>"

lemma quoted_greet_name: "greet_name quoted_greet = quoted_name"
  using query_get_encoded [of quoted_name]
  by (simp add: greet_name_def quoted_greet_def quoted_name_def)

lemma quoted_stored:
  "greeter_mux ref_pg quoted_greet ready_pg
   = (encode_ok (JMap [(''message'', JStr (greet_message quoted_name)), (''stored'', JStr ''true''),
        (''db'', JStr ''orders (DBaaS on Harvester)'')]),
      ready_pg\<lparr>rd_table := Some [ref_row ready_pg [] quoted_name (greet_message quoted_name)]\<rparr>)"
  unfolding greeter_mux_def Let_def handleGreet_def quoted_greet_name
  by (simp add: quoted_greet_def cleanPath_def ready_pg_def ref_Exec_def)

theorem greeting_stored_witness:
  "\<exists>gs g. gs_Body (fst (greeter_mux ref_pg \<lparr>gq_Method = ''GET'', gq_Path = ''/greeter/greetings'',
         gq_RawQuery = []\<rparr> (snd (greeter_mux ref_pg quoted_greet ready_pg))))
       = Encoded (JMap [(''greetings'', JList (map greeting_json gs)), (''count'', JInt 1),
           (''database'', JStr ''orders (DBaaS PostgreSQL on Harvester)'')])
     \<and> g \<in> set gs \<and> g_Name g = quoted_name \<and> g_Message g = ''Hello, '' @ quoted_name @ ''!''"
proof -
  let ?s = "snd (greeter_mux ref_pg quoted_greet ready_pg)"
  let ?list = "greeter_mux ref_pg \<lparr>gq_Method = ''GET'', gq_Path = ''/greeter/greetings'', gq_RawQuery = []\<rparr> ?s"
  have ne: "quoted_name \<noteq> []" by (simp add: quoted_name_def)
  have rows: "ref_rows ready_pg = []" by (simp add: ready_pg_def ref_rows_def)
  have listed: "gs_Status (fst ?list) = 200"
    unfolding quoted_stored snd_conv
    by (simp add: greeter_mux_def cleanPath_def handleGreetings_def ref_Query_def ready_pg_def
        encode_ok_def)
  have stored: "gs_Status (fst (greeter_mux ref_pg quoted_greet ready_pg)) = 200"
    by (simp add: quoted_stored encode_ok_def)
  have "\<exists>gs g. gs_Body (fst ?list) = Encoded (JMap [(''greetings'', JList (map greeting_json gs)),
         (''count'', JInt (int (length (ref_rows ready_pg)) + 1)),
         (''database'', JStr ''orders (DBaaS PostgreSQL on Harvester)'')])
       \<and> g \<in> set gs \<and> g_Name g = quoted_name \<and> g_Message g = ''Hello, '' @ quoted_name @ ''!''"
  proof (rule greeting_stored [where D = ref_pg and tbl = ref_rows and s = ready_pg and s' = ?s
        and s'' = "snd ?list", OF _ _ ne _ _ stored _ listed])
    show "greeter_mux ref_pg \<lparr>gq_Method = ''GET'', gq_Path = ''/greeter/greet'',
        gq_RawQuery = ''name='' @ PercentEncode quoted_name\<rparr> ready_pg
      = (fst (greeter_mux ref_pg quoted_greet ready_pg), ?s)"
      by (simp only: quoted_greet_def prod.collapse)
    show "?list = (fst ?list, snd ?list)" by simp
  qed (erule pg_table.inserts, erule pg_table.lists, simp add: rows)
  then show ?thesis by (simp add: rows)
qed


section \<open>The data source name and generated passwords\<close>

lemma b64_url_no_space: "CHR '' '' \<notin> set b64_url"
  by (simp add: b64_url_def)

text \<open>
  The data source name is built by pasting the values. A generated password has no character that separates or
  quotes fields, so it arrives whole; the other values do when they have no space.
\<close>

lemma dsn_fields:
  assumes "getenv ''DATABASE_URL'' = []" "getenv ''PGPASSWORD'' = fst (randomString E n s)"
    and "\<And>k. k \<in> {''PGHOST'', ''PGPORT'', ''PGUSER'', ''PGDATABASE''} \<Longrightarrow> CHR '' '' \<notin> set (getenv k)"
  shows "Split (greeter_dsn getenv) (CHR '' '') =
    [''host='' @ envOr getenv ''PGHOST'' ''orders-db'', ''port='' @ envOr getenv ''PGPORT'' ''5432'',
     ''user='' @ envOr getenv ''PGUSER'' ''orders_admin'', ''password='' @ fst (randomString E n s),
     ''dbname='' @ envOr getenv ''PGDATABASE'' ''orders'', ''sslmode=require'']"
proof -
  have "CHR '' '' \<notin> set (fst (randomString E n s))"
    using randomString_ok [of E n s] b64_url_no_space by blast
  moreover have "CHR '' '' \<notin> set (envOr getenv k d)"
    if "k \<in> {''PGHOST'', ''PGPORT'', ''PGUSER'', ''PGDATABASE''}" "CHR '' '' \<notin> set d" for k d
    using assms(3) [OF that(1)] that(2) by (simp add: envOr_def)
  ultimately show ?thesis
    using Split_first [of "CHR '' ''" "''host='' @ envOr getenv ''PGHOST'' ''orders-db''"]
      Split_first [of "CHR '' ''" "''port='' @ envOr getenv ''PGPORT'' ''5432''"]
      Split_first [of "CHR '' ''" "''user='' @ envOr getenv ''PGUSER'' ''orders_admin''"]
      Split_first [of "CHR '' ''" "''password='' @ getenv ''PGPASSWORD''"]
      Split_first [of "CHR '' ''" "''dbname='' @ envOr getenv ''PGDATABASE'' ''orders''"]
    by (simp add: greeter_dsn_def assms(1,2))
qed

end
