(* ===== verification/DeepCopy.thy ===== *)
theory DeepCopy
  imports ApiTypes
begin

text \<open>
  \<open>api/v1alpha1/zz_generated.deepcopy.go\<close>: the copies that controller-runtime makes of cached objects
  before it hands them out. Here addresses matter, so the structs are modelled as they lie in memory: a
  pointer, a slice or a map is the location of a cell (\<open>None\<close> is \<open>nil\<close>), and the fields that are none
  of these are kept together in a value of the API record, whose own pointer fields are not used.
  The copying of \<open>metav1\<close> types is an argument \<open>A\<close>; a \<open>metav1.Condition\<close> is a value.
\<close>

section \<open>Memory\<close>

type_synonym loc = nat

record ObjectMeta_mem =
  om_flat :: ObjectMeta
  om_DeletionTimestamp :: "loc option"
  om_Finalizers :: "loc option"

record DBInstanceSpec_mem =
  sm_flat :: DBInstanceSpec
  sm_MasterUserPasswordRef :: "loc option"
  sm_Running :: "loc option"
  sm_S3BackupConfig :: "loc option"
  sm_VpcPeering :: "loc option"
  sm_Tags :: "loc option"

record DBInstanceStatus_mem =
  stm_flat :: DBInstanceStatus
  stm_Conditions :: "loc option"
  stm_Endpoint :: "loc option"
  stm_MasterUserSecret :: "loc option"
  stm_BackupStatus :: "loc option"
  stm_ReadReplicas :: "loc option"

record DBInstance_mem =
  im_TypeMeta :: TypeMeta
  im_ObjectMeta :: ObjectMeta_mem
  im_Spec :: DBInstanceSpec_mem
  im_Status :: DBInstanceStatus_mem

record DBSnapshotStatus_mem =
  ssm_flat :: DBSnapshotStatus
  ssm_Done :: "loc option"

record DBSnapshot_mem =
  dsm_TypeMeta :: TypeMeta
  dsm_ObjectMeta :: ObjectMeta_mem
  dsm_Spec :: DBSnapshotSpec
  dsm_Status :: DBSnapshotStatus_mem

record DBParameterGroupSpec_mem =
  psm_flat :: DBParameterGroupSpec
  psm_Parameters :: "loc option"

record DBParameterGroup_mem =
  pgm_TypeMeta :: TypeMeta
  pgm_ObjectMeta :: ObjectMeta_mem
  pgm_Spec :: DBParameterGroupSpec_mem

text \<open>The lists: the slice of items, and of \<open>metav1.ListMeta\<close> its one pointer.\<close>

record List_mem =
  lm_TypeMeta :: TypeMeta
  lm_ListMeta :: "loc option"
  lm_Items :: "loc option"

text \<open>What a cell holds: the target of a pointer, a map, or the backing array of a slice.\<close>

datatype cell =
    SecretKeyRefC SecretKeyRef
  | BoolC bool
  | S3C S3BackupConfig
  | PeeringC VpcPeeringConfig
  | MapC "(string \<times> string) list"
  | EndpointC Endpoint
  | MasterC MasterUserSecretRef
  | BackupC BackupStatus
  | StringsC "string list"
  | ConditionsC "string list"
  | TimeC int
  | InstanceC DBInstance_mem
  | SnapshotC DBSnapshot_mem
  | ParameterGroupC DBParameterGroup_mem
  | SpecC DBInstanceSpec_mem
  | StatusC DBInstanceStatus_mem
  | SnapshotStatusC DBSnapshotStatus_mem
  | ParameterGroupSpecC DBParameterGroupSpec_mem
  | InstancesC "DBInstance_mem list"
  | SnapshotsC "DBSnapshot_mem list"
  | ParameterGroupsC "DBParameterGroup_mem list"
  | ListC List_mem

record memory =
  mem_next :: loc
  mem_cells :: "loc \<Rightarrow> cell option"

definition alloc :: "cell \<Rightarrow> memory \<Rightarrow> loc \<times> memory" where
  "alloc c h = (mem_next h,
     \<lparr>mem_next = Suc (mem_next h), mem_cells = (mem_cells h)(mem_next h := Some c)\<rparr>)"

definition store :: "loc \<Rightarrow> cell \<Rightarrow> memory \<Rightarrow> memory" where
  "store a c h = h\<lparr>mem_cells := (mem_cells h)(a := Some c)\<rparr>"

definition deref :: "memory \<Rightarrow> loc option \<Rightarrow> cell option" where
  "deref h p = (case p of None \<Rightarrow> None | Some a \<Rightarrow> mem_cells h a)"

section \<open>Definitions\<close>

text \<open>
  The recurring block: if the field is not \<open>nil\<close>, a new cell with the same contents takes its place
  (for a map or a slice of strings: a new one with the same entries).
\<close>

definition copy_field :: "loc option \<Rightarrow> memory \<Rightarrow> loc option \<times> memory" where
  "copy_field p h = (case deref h p of
       None \<Rightarrow> (None, h)
     | Some c \<Rightarrow> (case alloc c h of (b, h') \<Rightarrow> (Some b, h')))"

record apimachinery =
  ObjectMeta_DeepCopyInto :: "ObjectMeta_mem \<Rightarrow> memory \<Rightarrow> ObjectMeta_mem \<times> memory"
  ListMeta_DeepCopyInto :: "loc option \<Rightarrow> memory \<Rightarrow> loc option \<times> memory"
  Time_DeepCopy :: "loc option \<Rightarrow> memory \<Rightarrow> loc option \<times> memory"
  Condition_DeepCopyInto :: "string \<Rightarrow> string"

definition DBInstanceSpec_DeepCopyInto ::
  "DBInstanceSpec_mem \<Rightarrow> memory \<Rightarrow> DBInstanceSpec_mem \<times> memory" where
  "DBInstanceSpec_DeepCopyInto x h =
     (case copy_field (sm_MasterUserPasswordRef x) h of (a, h1) \<Rightarrow>
      case copy_field (sm_Running x) h1 of (b, h2) \<Rightarrow>
      case copy_field (sm_S3BackupConfig x) h2 of (c, h3) \<Rightarrow>
      case copy_field (sm_VpcPeering x) h3 of (d, h4) \<Rightarrow>
      case copy_field (sm_Tags x) h4 of (e, h5) \<Rightarrow>
        (x\<lparr>sm_MasterUserPasswordRef := a, sm_Running := b, sm_S3BackupConfig := c,
           sm_VpcPeering := d, sm_Tags := e\<rparr>, h5))"

definition copy_conditions :: "apimachinery \<Rightarrow> loc option \<Rightarrow> memory \<Rightarrow> loc option \<times> memory" where
  "copy_conditions A p h = (case deref h p of
       Some (ConditionsC cs) \<Rightarrow>
         (case alloc (ConditionsC (map (Condition_DeepCopyInto A) cs)) h of (b, h') \<Rightarrow> (Some b, h'))
     | _ \<Rightarrow> (None, h))"

definition DBInstanceStatus_DeepCopyInto ::
  "apimachinery \<Rightarrow> DBInstanceStatus_mem \<Rightarrow> memory \<Rightarrow> DBInstanceStatus_mem \<times> memory" where
  "DBInstanceStatus_DeepCopyInto A x h =
     (case copy_conditions A (stm_Conditions x) h of (a, h1) \<Rightarrow>
      case copy_field (stm_Endpoint x) h1 of (b, h2) \<Rightarrow>
      case copy_field (stm_MasterUserSecret x) h2 of (c, h3) \<Rightarrow>
      case copy_field (stm_ReadReplicas x) h3 of (d, h4) \<Rightarrow>
        (x\<lparr>stm_Conditions := a, stm_Endpoint := b, stm_MasterUserSecret := c, stm_ReadReplicas := d\<rparr>, h4))"

definition DBInstance_DeepCopyInto ::
  "apimachinery \<Rightarrow> DBInstance_mem \<Rightarrow> memory \<Rightarrow> DBInstance_mem \<times> memory" where
  "DBInstance_DeepCopyInto A x h =
     (case ObjectMeta_DeepCopyInto A (im_ObjectMeta x) h of (m, h1) \<Rightarrow>
      case DBInstanceSpec_DeepCopyInto (im_Spec x) h1 of (sp, h2) \<Rightarrow>
      case DBInstanceStatus_DeepCopyInto A (im_Status x) h2 of (st, h3) \<Rightarrow>
        (x\<lparr>im_ObjectMeta := m, im_Spec := sp, im_Status := st\<rparr>, h3))"

definition DBSnapshotStatus_DeepCopyInto ::
  "apimachinery \<Rightarrow> DBSnapshotStatus_mem \<Rightarrow> memory \<Rightarrow> DBSnapshotStatus_mem \<times> memory" where
  "DBSnapshotStatus_DeepCopyInto A x h =
     (if ssm_Done x = None then (x, h)
      else (case Time_DeepCopy A (ssm_Done x) h of (a, h1) \<Rightarrow> (x\<lparr>ssm_Done := a\<rparr>, h1)))"

definition DBSnapshot_DeepCopyInto ::
  "apimachinery \<Rightarrow> DBSnapshot_mem \<Rightarrow> memory \<Rightarrow> DBSnapshot_mem \<times> memory" where
  "DBSnapshot_DeepCopyInto A x h =
     (case ObjectMeta_DeepCopyInto A (dsm_ObjectMeta x) h of (m, h1) \<Rightarrow>
      case DBSnapshotStatus_DeepCopyInto A (dsm_Status x) h1 of (st, h2) \<Rightarrow>
        (x\<lparr>dsm_ObjectMeta := m, dsm_Status := st\<rparr>, h2))"

definition DBParameterGroupSpec_DeepCopyInto ::
  "DBParameterGroupSpec_mem \<Rightarrow> memory \<Rightarrow> DBParameterGroupSpec_mem \<times> memory" where
  "DBParameterGroupSpec_DeepCopyInto x h =
     (case copy_field (psm_Parameters x) h of (a, h1) \<Rightarrow> (x\<lparr>psm_Parameters := a\<rparr>, h1))"

definition DBParameterGroup_DeepCopyInto ::
  "apimachinery \<Rightarrow> DBParameterGroup_mem \<Rightarrow> memory \<Rightarrow> DBParameterGroup_mem \<times> memory" where
  "DBParameterGroup_DeepCopyInto A x h =
     (case ObjectMeta_DeepCopyInto A (pgm_ObjectMeta x) h of (m, h1) \<Rightarrow>
      case DBParameterGroupSpec_DeepCopyInto (pgm_Spec x) h1 of (sp, h2) \<Rightarrow>
        (x\<lparr>pgm_ObjectMeta := m, pgm_Spec := sp\<rparr>, h2))"

text \<open>The loop over the items of a list; the new slice is allocated once its elements are there.\<close>

fun copy_items :: "('a \<Rightarrow> memory \<Rightarrow> 'a \<times> memory) \<Rightarrow> 'a list \<Rightarrow> memory \<Rightarrow> 'a list \<times> memory" where
  "copy_items copy [] h = ([], h)"
| "copy_items copy (x # xs) h =
     (case copy x h of (y, h1) \<Rightarrow> case copy_items copy xs h1 of (ys, h2) \<Rightarrow> (y # ys, h2))"

definition DBInstanceList_DeepCopyInto :: "apimachinery \<Rightarrow> List_mem \<Rightarrow> memory \<Rightarrow> List_mem \<times> memory" where
  "DBInstanceList_DeepCopyInto A l h =
     (case ListMeta_DeepCopyInto A (lm_ListMeta l) h of (m, h1) \<Rightarrow>
      (case deref h1 (lm_Items l) of
         Some (InstancesC xs) \<Rightarrow>
           (case copy_items (DBInstance_DeepCopyInto A) xs h1 of (ys, h2) \<Rightarrow>
            case alloc (InstancesC ys) h2 of (b, h3) \<Rightarrow> (l\<lparr>lm_ListMeta := m, lm_Items := Some b\<rparr>, h3))
       | _ \<Rightarrow> (l\<lparr>lm_ListMeta := m\<rparr>, h1)))"

definition DBSnapshotList_DeepCopyInto :: "apimachinery \<Rightarrow> List_mem \<Rightarrow> memory \<Rightarrow> List_mem \<times> memory" where
  "DBSnapshotList_DeepCopyInto A l h =
     (case ListMeta_DeepCopyInto A (lm_ListMeta l) h of (m, h1) \<Rightarrow>
      (case deref h1 (lm_Items l) of
         Some (SnapshotsC xs) \<Rightarrow>
           (case copy_items (DBSnapshot_DeepCopyInto A) xs h1 of (ys, h2) \<Rightarrow>
            case alloc (SnapshotsC ys) h2 of (b, h3) \<Rightarrow> (l\<lparr>lm_ListMeta := m, lm_Items := Some b\<rparr>, h3))
       | _ \<Rightarrow> (l\<lparr>lm_ListMeta := m\<rparr>, h1)))"

definition DBParameterGroupList_DeepCopyInto ::
  "apimachinery \<Rightarrow> List_mem \<Rightarrow> memory \<Rightarrow> List_mem \<times> memory" where
  "DBParameterGroupList_DeepCopyInto A l h =
     (case ListMeta_DeepCopyInto A (lm_ListMeta l) h of (m, h1) \<Rightarrow>
      (case deref h1 (lm_Items l) of
         Some (ParameterGroupsC xs) \<Rightarrow>
           (case copy_items (DBParameterGroup_DeepCopyInto A) xs h1 of (ys, h2) \<Rightarrow>
            case alloc (ParameterGroupsC ys) h2 of (b, h3) \<Rightarrow>
              (l\<lparr>lm_ListMeta := m, lm_Items := Some b\<rparr>, h3))
       | _ \<Rightarrow> (l\<lparr>lm_ListMeta := m\<rparr>, h1)))"

text \<open>
  \<open>DeepCopy\<close>: \<open>nil\<close> stays \<open>nil\<close>; otherwise a new struct is filled by \<open>DeepCopyInto\<close>.
  \<open>DeepCopyObject\<close> returns what \<open>DeepCopy\<close> returns, as an interface value, or \<open>nil\<close>.
\<close>

definition copy_struct ::
  "(cell \<Rightarrow> 'a option) \<Rightarrow> ('a \<Rightarrow> cell) \<Rightarrow> ('a \<Rightarrow> memory \<Rightarrow> 'a \<times> memory) \<Rightarrow> loc option \<Rightarrow> memory
   \<Rightarrow> loc option \<times> memory" where
  "copy_struct sel con into p h = (case Option.bind (deref h p) sel of
       None \<Rightarrow> (None, h)
     | Some x \<Rightarrow> (case into x h of (y, h1) \<Rightarrow> case alloc (con y) h1 of (b, h2) \<Rightarrow> (Some b, h2)))"

definition DBInstance_DeepCopy ::
  "apimachinery \<Rightarrow> loc option \<Rightarrow> memory \<Rightarrow> loc option \<times> memory" where
  "DBInstance_DeepCopy A =
     copy_struct (\<lambda>c. case c of InstanceC x \<Rightarrow> Some x | _ \<Rightarrow> None) InstanceC (DBInstance_DeepCopyInto A)"

definition DBInstance_DeepCopyObject ::
  "apimachinery \<Rightarrow> loc option \<Rightarrow> memory \<Rightarrow> loc option \<times> memory" where
  "DBInstance_DeepCopyObject A p h =
     (case DBInstance_DeepCopy A p h of (c, h1) \<Rightarrow> (if c \<noteq> None then c else None, h1))"

definition DBInstanceList_DeepCopy ::
  "apimachinery \<Rightarrow> loc option \<Rightarrow> memory \<Rightarrow> loc option \<times> memory" where
  "DBInstanceList_DeepCopy A =
     copy_struct (\<lambda>c. case c of ListC x \<Rightarrow> Some x | _ \<Rightarrow> None) ListC (DBInstanceList_DeepCopyInto A)"

definition DBInstanceList_DeepCopyObject ::
  "apimachinery \<Rightarrow> loc option \<Rightarrow> memory \<Rightarrow> loc option \<times> memory" where
  "DBInstanceList_DeepCopyObject A p h =
     (case DBInstanceList_DeepCopy A p h of (c, h1) \<Rightarrow> (if c \<noteq> None then c else None, h1))"

definition DBInstanceSpec_DeepCopy ::
  "loc option \<Rightarrow> memory \<Rightarrow> loc option \<times> memory" where
  "DBInstanceSpec_DeepCopy =
     copy_struct (\<lambda>c. case c of SpecC x \<Rightarrow> Some x | _ \<Rightarrow> None) SpecC DBInstanceSpec_DeepCopyInto"

definition DBInstanceStatus_DeepCopy ::
  "apimachinery \<Rightarrow> loc option \<Rightarrow> memory \<Rightarrow> loc option \<times> memory" where
  "DBInstanceStatus_DeepCopy A =
     copy_struct (\<lambda>c. case c of StatusC x \<Rightarrow> Some x | _ \<Rightarrow> None) StatusC (DBInstanceStatus_DeepCopyInto A)"

definition DBSnapshot_DeepCopy ::
  "apimachinery \<Rightarrow> loc option \<Rightarrow> memory \<Rightarrow> loc option \<times> memory" where
  "DBSnapshot_DeepCopy A =
     copy_struct (\<lambda>c. case c of SnapshotC x \<Rightarrow> Some x | _ \<Rightarrow> None) SnapshotC (DBSnapshot_DeepCopyInto A)"

definition DBSnapshot_DeepCopyObject ::
  "apimachinery \<Rightarrow> loc option \<Rightarrow> memory \<Rightarrow> loc option \<times> memory" where
  "DBSnapshot_DeepCopyObject A p h =
     (case DBSnapshot_DeepCopy A p h of (c, h1) \<Rightarrow> (if c \<noteq> None then c else None, h1))"

definition DBSnapshotList_DeepCopy ::
  "apimachinery \<Rightarrow> loc option \<Rightarrow> memory \<Rightarrow> loc option \<times> memory" where
  "DBSnapshotList_DeepCopy A =
     copy_struct (\<lambda>c. case c of ListC x \<Rightarrow> Some x | _ \<Rightarrow> None) ListC (DBSnapshotList_DeepCopyInto A)"

definition DBSnapshotList_DeepCopyObject ::
  "apimachinery \<Rightarrow> loc option \<Rightarrow> memory \<Rightarrow> loc option \<times> memory" where
  "DBSnapshotList_DeepCopyObject A p h =
     (case DBSnapshotList_DeepCopy A p h of (c, h1) \<Rightarrow> (if c \<noteq> None then c else None, h1))"

definition DBSnapshotStatus_DeepCopy ::
  "apimachinery \<Rightarrow> loc option \<Rightarrow> memory \<Rightarrow> loc option \<times> memory" where
  "DBSnapshotStatus_DeepCopy A =
     copy_struct (\<lambda>c. case c of SnapshotStatusC x \<Rightarrow> Some x | _ \<Rightarrow> None) SnapshotStatusC (DBSnapshotStatus_DeepCopyInto A)"

definition DBParameterGroup_DeepCopy ::
  "apimachinery \<Rightarrow> loc option \<Rightarrow> memory \<Rightarrow> loc option \<times> memory" where
  "DBParameterGroup_DeepCopy A =
     copy_struct (\<lambda>c. case c of ParameterGroupC x \<Rightarrow> Some x | _ \<Rightarrow> None) ParameterGroupC (DBParameterGroup_DeepCopyInto A)"

definition DBParameterGroup_DeepCopyObject ::
  "apimachinery \<Rightarrow> loc option \<Rightarrow> memory \<Rightarrow> loc option \<times> memory" where
  "DBParameterGroup_DeepCopyObject A p h =
     (case DBParameterGroup_DeepCopy A p h of (c, h1) \<Rightarrow> (if c \<noteq> None then c else None, h1))"

definition DBParameterGroupList_DeepCopy ::
  "apimachinery \<Rightarrow> loc option \<Rightarrow> memory \<Rightarrow> loc option \<times> memory" where
  "DBParameterGroupList_DeepCopy A =
     copy_struct (\<lambda>c. case c of ListC x \<Rightarrow> Some x | _ \<Rightarrow> None) ListC (DBParameterGroupList_DeepCopyInto A)"

definition DBParameterGroupList_DeepCopyObject ::
  "apimachinery \<Rightarrow> loc option \<Rightarrow> memory \<Rightarrow> loc option \<times> memory" where
  "DBParameterGroupList_DeepCopyObject A p h =
     (case DBParameterGroupList_DeepCopy A p h of (c, h1) \<Rightarrow> (if c \<noteq> None then c else None, h1))"

definition DBParameterGroupSpec_DeepCopy ::
  "loc option \<Rightarrow> memory \<Rightarrow> loc option \<times> memory" where
  "DBParameterGroupSpec_DeepCopy =
     copy_struct (\<lambda>c. case c of ParameterGroupSpecC x \<Rightarrow> Some x | _ \<Rightarrow> None) ParameterGroupSpecC DBParameterGroupSpec_DeepCopyInto"

section \<open>What a copy promises\<close>

definition extends :: "memory \<Rightarrow> memory \<Rightarrow> bool" where
  "extends h h' = (mem_next h \<le> mem_next h' \<and> (\<forall>a < mem_next h. mem_cells h' a = mem_cells h a))"

text \<open>Pointers to cells that are there.\<close>

definition valid :: "memory \<Rightarrow> loc option list \<Rightarrow> bool" where
  "valid h ps = (\<forall>a. Some a \<in> set ps \<longrightarrow> a < mem_next h \<and> mem_cells h a \<noteq> None)"

text \<open>
  \<open>copied h ps h' qs\<close>: from \<open>h\<close> to \<open>h'\<close> no old cell has changed, and the pointers \<open>qs\<close> lead to new
  cells with the contents that \<open>ps\<close> lead to.
\<close>

definition copied :: "memory \<Rightarrow> loc option list \<Rightarrow> memory \<Rightarrow> loc option list \<Rightarrow> bool" where
  "copied h ps h' qs =
     (extends h h' \<and> map (deref h') qs = map (deref h) ps
      \<and> (\<forall>a. Some a \<in> set qs \<longrightarrow> mem_next h \<le> a \<and> a < mem_next h'))"

lemma extends_refl [simp]: "extends h h"
  by (simp add: extends_def)

lemma extends_trans: "extends h h1 \<Longrightarrow> extends h1 h2 \<Longrightarrow> extends h h2"
  by (auto simp: extends_def)

lemma deref_extends: "extends h h' \<Longrightarrow> (\<And>a. p = Some a \<Longrightarrow> a < mem_next h) \<Longrightarrow> deref h' p = deref h p"
  by (cases p) (auto simp: deref_def extends_def)

lemma valid_append [simp]: "valid h (ps @ qs) \<longleftrightarrow> valid h ps \<and> valid h qs"
  by (auto simp: valid_def)

lemma valid_Cons: "valid h (p # ps) \<longleftrightarrow> valid h [p] \<and> valid h ps"
  by (auto simp: valid_def)

lemma valid_Nil [simp]: "valid h []"
  by (simp add: valid_def)

lemma valid_extends: "valid h ps \<Longrightarrow> extends h h' \<Longrightarrow> valid h' ps"
  by (auto simp: valid_def extends_def)

lemma derefs_below:
  "(\<And>a. Some a \<in> set ps \<Longrightarrow> a < mem_next h) \<Longrightarrow> extends h h' \<Longrightarrow> map (deref h') ps = map (deref h) ps"
  by (auto intro!: deref_extends)

lemma derefs_valid: "valid h ps \<Longrightarrow> extends h h' \<Longrightarrow> map (deref h') ps = map (deref h) ps"
  by (rule derefs_below) (auto simp: valid_def)

lemma derefs_store: "Some a \<notin> set ps \<Longrightarrow> map (deref (store a c h)) ps = map (deref h) ps"
  by (auto simp: deref_def store_def split: option.splits)

lemma copied_none: "extends h h' \<Longrightarrow> copied h [] h' []"
  by (simp add: copied_def)

lemma copied_Nil [simp]: "copied h [] h []"
  by (simp add: copied_none)

lemma extends_alloc: "alloc c h = (b, h') \<Longrightarrow> extends h h' \<and> deref h' (Some b) = Some c"
  by (auto simp: alloc_def extends_def deref_def)

lemma copied_extends: "copied h ps h' qs \<Longrightarrow> extends h h'"
  by (simp add: copied_def)

lemma copied_append:
  assumes "copied h ps h1 qs" "copied h1 rs h2 ts" "valid h rs"
  shows "copied h (ps @ rs) h2 (qs @ ts)"
proof -
  have x: "extends h h1" "extends h1 h2" using assms by (simp_all add: copied_def)
  have "map (deref h2) qs = map (deref h1) qs"
    using assms(1) x(2) by (intro derefs_below) (auto simp: copied_def)
  moreover have "map (deref h1) rs = map (deref h) rs" by (rule derefs_valid [OF assms(3) x(1)])
  moreover have "extends h h2" using x by (rule extends_trans)
  moreover have "mem_next h \<le> mem_next h1" "mem_next h1 \<le> mem_next h2" using x by (simp_all add: extends_def)
  ultimately show ?thesis
    using assms by (fastforce simp: copied_def simp del: map_eq_conv)
qed

lemma copied_Cons:
  "copied h [p] h1 [q] \<Longrightarrow> copied h1 rs h2 ts \<Longrightarrow> valid h rs \<Longrightarrow> copied h (p # rs) h2 (q # ts)"
  using copied_append [of h "[p]" h1 "[q]" rs h2 ts] by simp

lemma copied_field:
  assumes "copy_field p h = (q, h')"
  shows "copied h [p] h' [q]"
  using assms by (auto simp: copy_field_def copied_def alloc_def extends_def deref_def split: option.splits)

definition value_in :: "('a \<Rightarrow> 'f) \<Rightarrow> ('a \<Rightarrow> loc option list) \<Rightarrow> memory \<Rightarrow> 'a \<Rightarrow> 'f \<times> cell option list" where
  "value_in flat ptrs h x = (flat x, map (deref h) (ptrs x))"

text \<open>
  A type whose values are copied deeply: the fields in \<open>flat\<close> are the same, the pointers \<open>ptrs\<close> lead to
  copies. \<open>ok\<close> says which values are well-formed in a memory.
\<close>

locale struct_copy =
  fixes copy :: "'a \<Rightarrow> memory \<Rightarrow> 'a \<times> memory" and flat :: "'a \<Rightarrow> 'f"
    and ptrs :: "'a \<Rightarrow> loc option list" and ok :: "memory \<Rightarrow> 'a \<Rightarrow> bool"
  assumes ok_valid: "ok h x \<Longrightarrow> valid h (ptrs x)"
    and ok_extends: "ok h x \<Longrightarrow> extends h h' \<Longrightarrow> ok h' x"
    and copies: "ok h x \<Longrightarrow> copy x h = (y, h') \<Longrightarrow> flat y = flat x \<and> copied h (ptrs x) h' (ptrs y)"
begin

lemma same_value:
  assumes "ok h x" "copy x h = (y, h')"
  shows "value_in flat ptrs h' y = value_in flat ptrs h x" and "value_in flat ptrs h' x = value_in flat ptrs h x"
  using copies [OF assms] derefs_valid [OF ok_valid [OF assms(1)], of h']
  by (simp_all add: value_in_def copied_def)

text \<open>What is written through the copy does not reach the original, nor the other way round.\<close>

lemma isolated:
  assumes "ok h x" "copy x h = (y, h')"
  shows "Some a \<in> set (ptrs y) \<Longrightarrow> value_in flat ptrs (store a c h') x = value_in flat ptrs h x"
    and "Some a \<in> set (ptrs x) \<Longrightarrow> value_in flat ptrs (store a c h') y = value_in flat ptrs h x"
proof -
  have v: "valid h (ptrs x)" by (rule ok_valid [OF assms(1)])
  have cp: "copied h (ptrs x) h' (ptrs y)" using copies [OF assms] by simp
  note sv = same_value [OF assms]
  show "value_in flat ptrs (store a c h') x = value_in flat ptrs h x" if "Some a \<in> set (ptrs y)"
  proof -
    have "Some a \<notin> set (ptrs x)" using that v cp by (fastforce simp: valid_def copied_def)
    with sv(2) show ?thesis by (simp add: value_in_def derefs_store del: map_eq_conv)
  qed
  show "value_in flat ptrs (store a c h') y = value_in flat ptrs h x" if "Some a \<in> set (ptrs x)"
  proof -
    have "Some a \<notin> set (ptrs y)" using that v cp by (fastforce simp: valid_def copied_def)
    with sv(1) show ?thesis by (simp add: value_in_def derefs_store del: map_eq_conv)
  qed
qed

lemma items_valid: "list_all (ok h) xs \<Longrightarrow> valid h (concat (map ptrs xs))"
  by (induction xs) (auto dest: ok_valid)

lemma copy_items_copies:
  assumes "list_all (ok h) xs" "copy_items copy xs h = (ys, h')"
  shows "map flat ys = map flat xs \<and> copied h (concat (map ptrs xs)) h' (concat (map ptrs ys))"
  using assms
proof (induction xs arbitrary: h ys)
  case (Cons x xs)
  from Cons.prems(2) obtain y h1 zs where c: "copy x h = (y, h1)" "copy_items copy xs h1 = (zs, h')" "ys = y # zs"
    by (auto split: prod.splits)
  note x = copies [OF _ c(1)]
  have okx: "ok h x" "list_all (ok h) xs" using Cons.prems(1) by simp_all
  have "list_all (ok h1) xs"
    using okx(2) copied_extends [OF conjunct2 [OF x [OF okx(1)]]] ok_extends by (auto simp: list_all_iff)
  from Cons.IH [OF this c(2)] x [OF okx(1)] okx(2) show ?case
    by (auto simp: c(3) intro: copied_append items_valid)
qed simp

end

lemma copied_step:
  assumes "copy_field p h = (q, h1)" "valid h (p # rs)" "valid h1 rs \<Longrightarrow> copied h1 rs h2 ts"
  shows "copied h (p # rs) h2 (q # ts)"
proof -
  have c: "copied h [p] h1 [q]" by (rule copied_field [OF assms(1)])
  have v: "valid h rs" using assms(2) valid_Cons by blast
  show ?thesis
    by (rule copied_Cons [OF c assms(3) v]) (rule valid_extends [OF v copied_extends [OF c]])
qed

text \<open>Two parts of a struct, copied one after the other.\<close>

definition pair_copy ::
  "('a \<Rightarrow> memory \<Rightarrow> 'a \<times> memory) \<Rightarrow> ('b \<Rightarrow> memory \<Rightarrow> 'b \<times> memory) \<Rightarrow> 'a \<times> 'b \<Rightarrow> memory
   \<Rightarrow> ('a \<times> 'b) \<times> memory" where
  "pair_copy c1 c2 xz h =
     (case c1 (fst xz) h of (m, h1) \<Rightarrow> case c2 (snd xz) h1 of (w, h2) \<Rightarrow> ((m, w), h2))"

lemma struct_pair:
  assumes "struct_copy c1 f1 p1 ok1" "struct_copy c2 f2 p2 ok2"
  shows "struct_copy (pair_copy c1 c2) (map_prod f1 f2) (\<lambda>xz. p1 (fst xz) @ p2 (snd xz))
     (\<lambda>h xz. ok1 h (fst xz) \<and> ok2 h (snd xz))"
proof
  fix h h' and xz yw
  show "ok1 h (fst xz) \<and> ok2 h (snd xz) \<Longrightarrow> valid h (p1 (fst xz) @ p2 (snd xz))"
    using assms by (simp add: struct_copy.ok_valid)
  show "ok1 h (fst xz) \<and> ok2 h (snd xz) \<Longrightarrow> extends h h' \<Longrightarrow> ok1 h' (fst xz) \<and> ok2 h' (snd xz)"
    using assms by (auto intro: struct_copy.ok_extends)
  show "map_prod f1 f2 yw = map_prod f1 f2 xz
      \<and> copied h (p1 (fst xz) @ p2 (snd xz)) h' (p1 (fst yw) @ p2 (snd yw))"
    if ok: "ok1 h (fst xz) \<and> ok2 h (snd xz)" and c: "pair_copy c1 c2 xz h = (yw, h')"
  proof -
    from c obtain m h1 w where r: "c1 (fst xz) h = (m, h1)" "c2 (snd xz) h1 = (w, h')" "yw = (m, w)"
      by (auto simp: pair_copy_def split: prod.splits)
    note m = struct_copy.copies [OF assms(1) _ r(1)]
    have "ok2 h1 (snd xz)"
      using ok m by (auto intro: struct_copy.ok_extends [OF assms(2)] dest: copied_extends)
    with struct_copy.copies [OF assms(2) _ r(2)] m ok struct_copy.ok_valid [OF assms(2), of h "snd xz"]
    show ?thesis by (cases xz) (auto simp: r(3) intro: copied_append)
  qed
qed

section \<open>The types of the API\<close>

definition meta_ptrs :: "ObjectMeta_mem \<Rightarrow> loc option list" where
  "meta_ptrs m = [om_DeletionTimestamp m, om_Finalizers m]"

definition spec_ptrs :: "DBInstanceSpec_mem \<Rightarrow> loc option list" where
  "spec_ptrs x = [sm_MasterUserPasswordRef x, sm_Running x, sm_S3BackupConfig x, sm_VpcPeering x, sm_Tags x]"

text \<open>All pointers of a status but \<open>BackupStatus\<close>, which counts among the fields that are kept.\<close>

definition status_ptrs :: "DBInstanceStatus_mem \<Rightarrow> loc option list" where
  "status_ptrs x = [stm_Conditions x, stm_Endpoint x, stm_MasterUserSecret x, stm_ReadReplicas x]"

definition status_flat :: "DBInstanceStatus_mem \<Rightarrow> DBInstanceStatus \<times> loc option" where
  "status_flat x = (stm_flat x, stm_BackupStatus x)"

definition status_ok :: "memory \<Rightarrow> DBInstanceStatus_mem \<Rightarrow> bool" where
  "status_ok h x = (valid h (status_ptrs x)
     \<and> (stm_Conditions x = None \<or> (\<exists>cs. deref h (stm_Conditions x) = Some (ConditionsC cs))))"

interpretation spec_copy: struct_copy DBInstanceSpec_DeepCopyInto sm_flat spec_ptrs
  "\<lambda>h x. valid h (spec_ptrs x)"
  by unfold_locales
    (auto simp: spec_ptrs_def DBInstanceSpec_DeepCopyInto_def split: prod.splits
      intro!: copied_step copied_Nil intro: valid_extends)

interpretation parameter_copy: struct_copy DBParameterGroupSpec_DeepCopyInto psm_flat
  "\<lambda>x. [psm_Parameters x]" "\<lambda>h x. valid h [psm_Parameters x]"
  by unfold_locales
    (auto simp: DBParameterGroupSpec_DeepCopyInto_def split: prod.splits
      intro!: copied_step copied_Nil intro: valid_extends)

text \<open>The copies of \<open>metav1\<close> types, as documented.\<close>

locale metav1 =
  fixes A :: apimachinery
  assumes meta: "struct_copy (ObjectMeta_DeepCopyInto A) om_flat meta_ptrs (\<lambda>h m. valid h (meta_ptrs m))"
    and list_meta: "struct_copy (ListMeta_DeepCopyInto A) (\<lambda>_. ()) (\<lambda>p. [p]) (\<lambda>h p. valid h [p])"
    and time: "struct_copy (Time_DeepCopy A) (\<lambda>_. ()) (\<lambda>p. [p]) (\<lambda>h p. valid h [p])"
    and condition: "Condition_DeepCopyInto A c = c"
begin

lemma conditions_copied:
  assumes "copy_conditions A p h = (q, h')" "p = None \<or> (\<exists>cs. deref h p = Some (ConditionsC cs))"
  shows "copied h [p] h' [q]"
proof -
  have "map (Condition_DeepCopyInto A) cs = cs" for cs by (simp add: condition map_idI)
  then show ?thesis
    using assms by (auto simp: copy_conditions_def copied_def alloc_def extends_def deref_def
        split: option.splits cell.splits)
qed

end

sublocale metav1 \<subseteq> status_copy: struct_copy "DBInstanceStatus_DeepCopyInto A" status_flat status_ptrs status_ok
proof
  fix h h' x y
  show "status_ok h x \<Longrightarrow> valid h (status_ptrs x)" by (simp add: status_ok_def)
  show "status_ok h' x" if "status_ok h x" "extends h h'"
  proof -
    have v: "valid h (status_ptrs x)" using that(1) by (simp add: status_ok_def)
    then have "deref h' (stm_Conditions x) = deref h (stm_Conditions x)"
      using that(2) by (intro deref_extends) (auto simp: valid_def status_ptrs_def)
    with that v show ?thesis by (auto simp: status_ok_def intro: valid_extends)
  qed
  show "status_flat y = status_flat x \<and> copied h (status_ptrs x) h' (status_ptrs y)"
    if ok: "status_ok h x" and c: "DBInstanceStatus_DeepCopyInto A x h = (y, h')"
  proof -
    obtain q h1 where q: "copy_conditions A (stm_Conditions x) h = (q, h1)" by (metis surj_pair)
    have cq: "copied h [stm_Conditions x] h1 [q]"
      by (rule conditions_copied [OF q]) (use ok in \<open>auto simp: status_ok_def\<close>)
    have "valid h [stm_Endpoint x, stm_MasterUserSecret x, stm_ReadReplicas x]"
      using ok by (simp add: status_ok_def status_ptrs_def valid_def)
    note v = this
    from c q obtain a h2 b h3 d where r: "copy_field (stm_Endpoint x) h1 = (a, h2)"
      "copy_field (stm_MasterUserSecret x) h2 = (b, h3)" "copy_field (stm_ReadReplicas x) h3 = (d, h')"
      "y = x\<lparr>stm_Conditions := q, stm_Endpoint := a, stm_MasterUserSecret := b, stm_ReadReplicas := d\<rparr>"
      by (auto simp: DBInstanceStatus_DeepCopyInto_def split: prod.splits)
    have "copied h1 [stm_Endpoint x, stm_MasterUserSecret x, stm_ReadReplicas x] h' [a, b, d]"
      using r(1-3) valid_extends [OF v copied_extends [OF cq]] by (auto intro!: copied_step copied_Nil)
    from copied_Cons [OF cq this v] show ?thesis by (simp add: r(4) status_flat_def status_ptrs_def)
  qed
qed

definition inst_ptrs :: "DBInstance_mem \<Rightarrow> loc option list" where
  "inst_ptrs x = meta_ptrs (im_ObjectMeta x) @ spec_ptrs (im_Spec x) @ status_ptrs (im_Status x)"

definition inst_flat ::
  "DBInstance_mem \<Rightarrow> TypeMeta \<times> ObjectMeta \<times> DBInstanceSpec \<times> DBInstanceStatus \<times> loc option" where
  "inst_flat x = (im_TypeMeta x, om_flat (im_ObjectMeta x), sm_flat (im_Spec x), status_flat (im_Status x))"

definition inst_ok :: "memory \<Rightarrow> DBInstance_mem \<Rightarrow> bool" where
  "inst_ok h x = (valid h (meta_ptrs (im_ObjectMeta x)) \<and> valid h (spec_ptrs (im_Spec x)) \<and> status_ok h (im_Status x))"

definition inst_parts :: "DBInstance_mem \<Rightarrow> ObjectMeta_mem \<times> DBInstanceSpec_mem \<times> DBInstanceStatus_mem" where
  "inst_parts x = (im_ObjectMeta x, im_Spec x, im_Status x)"

lemma inst_by_parts:
  assumes "DBInstance_DeepCopyInto A x h = (y, h')"
  shows "pair_copy (ObjectMeta_DeepCopyInto A)
      (pair_copy DBInstanceSpec_DeepCopyInto (DBInstanceStatus_DeepCopyInto A)) (inst_parts x) h
      = (inst_parts y, h') \<and> im_TypeMeta y = im_TypeMeta x"
  using assms by (auto simp: DBInstance_DeepCopyInto_def pair_copy_def inst_parts_def split: prod.splits)

sublocale metav1 \<subseteq> inst_copy: struct_copy "DBInstance_DeepCopyInto A" inst_flat inst_ptrs inst_ok
proof
  note parts = struct_pair [OF meta struct_pair [OF spec_copy.struct_copy_axioms status_copy.struct_copy_axioms]]
  fix h h' x y
  show "inst_ok h x \<Longrightarrow> valid h (inst_ptrs x)"
    by (simp add: inst_ok_def inst_ptrs_def status_copy.ok_valid)
  show "inst_ok h x \<Longrightarrow> extends h h' \<Longrightarrow> inst_ok h' x"
    by (auto simp: inst_ok_def intro: valid_extends status_copy.ok_extends)
  show "inst_flat y = inst_flat x \<and> copied h (inst_ptrs x) h' (inst_ptrs y)"
    if ok: "inst_ok h x" and c: "DBInstance_DeepCopyInto A x h = (y, h')"
    using struct_copy.copies [OF parts _ conjunct1 [OF inst_by_parts [OF c]]] ok inst_by_parts [OF c]
    by (simp add: inst_parts_def inst_ok_def inst_flat_def inst_ptrs_def)
qed

text \<open>Snapshots and parameter groups.\<close>

definition snap_ptrs :: "DBSnapshot_mem \<Rightarrow> loc option list" where
  "snap_ptrs x = meta_ptrs (dsm_ObjectMeta x) @ [ssm_Done (dsm_Status x)]"

definition snap_flat :: "DBSnapshot_mem \<Rightarrow> TypeMeta \<times> ObjectMeta \<times> DBSnapshotSpec \<times> DBSnapshotStatus" where
  "snap_flat x = (dsm_TypeMeta x, om_flat (dsm_ObjectMeta x), dsm_Spec x, ssm_flat (dsm_Status x))"

definition group_ptrs :: "DBParameterGroup_mem \<Rightarrow> loc option list" where
  "group_ptrs x = meta_ptrs (pgm_ObjectMeta x) @ [psm_Parameters (pgm_Spec x)]"

definition group_flat :: "DBParameterGroup_mem \<Rightarrow> TypeMeta \<times> ObjectMeta \<times> DBParameterGroupSpec" where
  "group_flat x = (pgm_TypeMeta x, om_flat (pgm_ObjectMeta x), psm_flat (pgm_Spec x))"

sublocale metav1 \<subseteq> snap_status_copy: struct_copy "DBSnapshotStatus_DeepCopyInto A" ssm_flat
  "\<lambda>x. [ssm_Done x]" "\<lambda>h x. valid h [ssm_Done x]"
proof
  fix h h' :: memory and x y :: DBSnapshotStatus_mem
  show "valid h [ssm_Done x] \<Longrightarrow> valid h [ssm_Done x]" .
  show "valid h [ssm_Done x] \<Longrightarrow> extends h h' \<Longrightarrow> valid h' [ssm_Done x]" by (rule valid_extends)
  show "ssm_flat y = ssm_flat x \<and> copied h [ssm_Done x] h' [ssm_Done y]"
    if "valid h [ssm_Done x]" "DBSnapshotStatus_DeepCopyInto A x h = (y, h')"
    using that struct_copy.copies [OF time, of h "ssm_Done x"]
    by (auto simp: DBSnapshotStatus_DeepCopyInto_def copied_def split: prod.splits if_splits)
qed

lemma snap_by_parts:
  assumes "DBSnapshot_DeepCopyInto A x h = (y, h')"
  shows "pair_copy (ObjectMeta_DeepCopyInto A) (DBSnapshotStatus_DeepCopyInto A) (dsm_ObjectMeta x, dsm_Status x) h = ((dsm_ObjectMeta y, dsm_Status y), h')
     \<and> dsm_TypeMeta y = dsm_TypeMeta x \<and> dsm_Spec y = dsm_Spec x"
  using assms by (auto simp: DBSnapshot_DeepCopyInto_def pair_copy_def split: prod.splits)

sublocale metav1 \<subseteq> snap_copy: struct_copy "DBSnapshot_DeepCopyInto A" snap_flat snap_ptrs "\<lambda>h x. valid h (snap_ptrs x)"
proof
  note parts = struct_pair [OF meta snap_status_copy.struct_copy_axioms]
  fix h h' :: memory and x y :: DBSnapshot_mem
  show "valid h (snap_ptrs x) \<Longrightarrow> valid h (snap_ptrs x)" .
  show "valid h (snap_ptrs x) \<Longrightarrow> extends h h' \<Longrightarrow> valid h' (snap_ptrs x)" by (rule valid_extends)
  show "snap_flat y = snap_flat x \<and> copied h (snap_ptrs x) h' (snap_ptrs y)"
    if ok: "valid h (snap_ptrs x)" and c: "DBSnapshot_DeepCopyInto A x h = (y, h')"
    using struct_copy.copies [OF parts _ conjunct1 [OF snap_by_parts [OF c]]] ok snap_by_parts [OF c]
    by (simp add: snap_flat_def snap_ptrs_def)
qed

lemma group_by_parts:
  assumes "DBParameterGroup_DeepCopyInto A x h = (y, h')"
  shows "pair_copy (ObjectMeta_DeepCopyInto A) DBParameterGroupSpec_DeepCopyInto (pgm_ObjectMeta x, pgm_Spec x) h = ((pgm_ObjectMeta y, pgm_Spec y), h')
     \<and> pgm_TypeMeta y = pgm_TypeMeta x"
  using assms by (auto simp: DBParameterGroup_DeepCopyInto_def pair_copy_def split: prod.splits)

sublocale metav1 \<subseteq> group_copy: struct_copy "DBParameterGroup_DeepCopyInto A" group_flat group_ptrs "\<lambda>h x. valid h (group_ptrs x)"
proof
  note parts = struct_pair [OF meta parameter_copy.struct_copy_axioms]
  fix h h' :: memory and x y :: DBParameterGroup_mem
  show "valid h (group_ptrs x) \<Longrightarrow> valid h (group_ptrs x)" .
  show "valid h (group_ptrs x) \<Longrightarrow> extends h h' \<Longrightarrow> valid h' (group_ptrs x)" by (rule valid_extends)
  show "group_flat y = group_flat x \<and> copied h (group_ptrs x) h' (group_ptrs y)"
    if ok: "valid h (group_ptrs x)" and c: "DBParameterGroup_DeepCopyInto A x h = (y, h')"
    using struct_copy.copies [OF parts _ conjunct1 [OF group_by_parts [OF c]]] ok group_by_parts [OF c]
    by (simp add: group_flat_def group_ptrs_def)
qed

section \<open>Copies of instances\<close>

abbreviation inst_value :: "memory \<Rightarrow> DBInstance_mem \<Rightarrow> _" where
  "inst_value \<equiv> value_in inst_flat inst_ptrs"

context metav1
begin

lemma inst_copied:
  assumes "inst_ok h x" "DBInstance_DeepCopyInto A x h = (y, h')"
  shows "inst_value h' y = inst_value h x" and "inst_value h' x = inst_value h x"
    and "Some a \<in> set (inst_ptrs y) \<Longrightarrow> inst_value (store a c h') x = inst_value h x"
    and "Some a \<in> set (inst_ptrs x) \<Longrightarrow> inst_value (store a c h') y = inst_value h x"
  using inst_copy.same_value [OF assms] inst_copy.isolated [OF assms] by blast+

text \<open>The items of a list are copied one by one.\<close>

lemma list_copied:
  assumes "valid h [lm_ListMeta l, lm_Items l]" "deref h (lm_Items l) = Some (InstancesC xs)"
    and "list_all (inst_ok h) xs" "DBInstanceList_DeepCopyInto A l h = (l', h')"
  shows "\<exists>ys. deref h' (lm_Items l') = Some (InstancesC ys) \<and> map inst_flat ys = map inst_flat xs
     \<and> copied h (concat (map inst_ptrs xs)) h' (concat (map inst_ptrs ys))"
proof -
  obtain m h1 where m: "ListMeta_DeepCopyInto A (lm_ListMeta l) h = (m, h1)" by (metis surj_pair)
  have e1: "extends h h1"
    using struct_copy.copies [OF list_meta _ m] assms(1) by (auto simp: valid_def dest: copied_extends)
  have i1: "deref h1 (lm_Items l) = Some (InstancesC xs)"
    using deref_extends [OF e1, of "lm_Items l"] assms(1,2) by (auto simp: valid_def)
  obtain ys h2 where c: "copy_items (DBInstance_DeepCopyInto A) xs h1 = (ys, h2)" by (metis surj_pair)
  have ok1: "list_all (inst_ok h1) xs"
    using assms(3) e1 by (auto simp: list_all_iff intro: inst_copy.ok_extends)
  note cp = inst_copy.copy_items_copies [OF ok1 c]
  obtain b h3 where a: "alloc (InstancesC ys) h2 = (b, h3)" by (metis surj_pair)
  have "copied h1 (concat (map inst_ptrs xs)) h3 (concat (map inst_ptrs ys))"
    using copied_append [OF conjunct2 [OF cp] copied_none [of h2 h3]] extends_alloc [OF a] by simp
  then have "copied h (concat (map inst_ptrs xs)) h3 (concat (map inst_ptrs ys))"
    using copied_append [OF copied_none [OF e1]] inst_copy.items_valid [OF assms(3)] by fastforce
  moreover have "l' = l\<lparr>lm_ListMeta := m, lm_Items := Some b\<rparr>" "h' = h3"
    using assms(4) m i1 c a by (simp_all add: DBInstanceList_DeepCopyInto_def)
  ultimately show ?thesis using cp extends_alloc [OF a] by auto
qed

end

text \<open>
  C18: the copy of an instance has the value of the original, which is left as it was; and whatever is
  written through a pointer of the copy other than \<open>BackupStatus\<close>, the original does not change.
\<close>

theorem deep_copy_isolated:
  assumes "metav1 A" and "inst_ok h x" and "DBInstance_DeepCopyInto A x h = (y, h')"
  shows "inst_value h' y = inst_value h x \<and> inst_value h' x = inst_value h x
     \<and> (\<forall>a c. Some a \<in> set (inst_ptrs y) \<longrightarrow> inst_value (store a c h') x = inst_value h x)"
  using metav1.inst_copied [OF assms] by blast

definition copy_meta :: "ObjectMeta_mem \<Rightarrow> memory \<Rightarrow> ObjectMeta_mem \<times> memory" where
  "copy_meta m h =
     (case copy_field (om_DeletionTimestamp m) h of (a, h1) \<Rightarrow>
      case copy_field (om_Finalizers m) h1 of (b, h2) \<Rightarrow>
        (m\<lparr>om_DeletionTimestamp := a, om_Finalizers := b\<rparr>, h2))"

definition ref_apimachinery :: apimachinery where
  "ref_apimachinery = \<lparr>ObjectMeta_DeepCopyInto = copy_meta, ListMeta_DeepCopyInto = copy_field,
     Time_DeepCopy = copy_field, Condition_DeepCopyInto = (\<lambda>c. c)\<rparr>"

lemma copy_meta_struct: "struct_copy copy_meta om_flat meta_ptrs (\<lambda>h m. valid h (meta_ptrs m))"
  by unfold_locales
    (auto simp: meta_ptrs_def copy_meta_def split: prod.splits
      intro!: copied_step copied_Nil intro: valid_extends)

lemma copy_field_struct: "struct_copy copy_field (\<lambda>_. ()) (\<lambda>p. [p]) (\<lambda>h p. valid h [p])"
  by unfold_locales (auto intro: copied_field valid_extends)

interpretation ref_metav1: metav1 ref_apimachinery
  by (rule metav1.intro) (simp_all add: ref_apimachinery_def copy_meta_struct copy_field_struct)

text \<open>An instance in memory with tags, and with a backup status.\<close>

definition sample_memory :: memory where
  "sample_memory = \<lparr>mem_next = 2, mem_cells = (\<lambda>a. if a = 0 then Some (MapC [(''team'', ''a'')])
     else if a = 1 then Some (BackupC \<lparr>bs_LastFullBackup = None, bs_LastIncrBackup = None, bs_WALArchiving = True\<rparr>)
     else None)\<rparr>"

definition sample_mem_inst :: DBInstance_mem where
  "sample_mem_inst = \<lparr>im_TypeMeta = inst_TypeMeta zero_instance,
     im_ObjectMeta = \<lparr>om_flat = zero_meta, om_DeletionTimestamp = None, om_Finalizers = None\<rparr>,
     im_Spec = \<lparr>sm_flat = zero_spec, sm_MasterUserPasswordRef = None, sm_Running = None, sm_S3BackupConfig = None,
        sm_VpcPeering = None, sm_Tags = Some 0\<rparr>,
     im_Status = \<lparr>stm_flat = zero_status, stm_Conditions = None, stm_Endpoint = None, stm_MasterUserSecret = None,
        stm_BackupStatus = Some 1, stm_ReadReplicas = None\<rparr>\<rparr>"

theorem deep_copy_isolated_witness:
  "\<exists>y h'. DBInstance_DeepCopyInto ref_apimachinery sample_mem_inst sample_memory = (y, h')
     \<and> sm_Tags (im_Spec y) = Some 2
     \<and> inst_value (store 2 (MapC []) h') sample_mem_inst = inst_value sample_memory sample_mem_inst"
proof -
  have ok: "inst_ok sample_memory sample_mem_inst"
    by (simp add: inst_ok_def status_ok_def valid_def meta_ptrs_def spec_ptrs_def status_ptrs_def
        sample_mem_inst_def sample_memory_def)
  obtain y h' where c: "DBInstance_DeepCopyInto ref_apimachinery sample_mem_inst sample_memory = (y, h')"
    by (metis surj_pair)
  then have y: "sm_Tags (im_Spec y) = Some 2"
    by (auto simp: DBInstance_DeepCopyInto_def DBInstanceSpec_DeepCopyInto_def DBInstanceStatus_DeepCopyInto_def
        copy_conditions_def copy_field_def copy_meta_def ref_apimachinery_def alloc_def deref_def
        sample_mem_inst_def sample_memory_def)
  then have "Some 2 \<in> set (inst_ptrs y)" by (simp add: inst_ptrs_def spec_ptrs_def)
  with deep_copy_isolated [OF ref_metav1.metav1_axioms ok c] c y show ?thesis by blast
qed

text \<open>
  C37: the backup status is not copied. The copy points to the one of the original, and what is written
  there through the copy is what the original then holds.
\<close>

theorem backup_status_shared:
  assumes "stm_BackupStatus (im_Status x) = Some a" and "DBInstance_DeepCopyInto A x h = (y, h')"
  shows "stm_BackupStatus (im_Status y) = Some a
     \<and> deref (store a c h') (stm_BackupStatus (im_Status x)) = Some c"
  using assms
  by (auto simp: DBInstance_DeepCopyInto_def DBInstanceStatus_DeepCopyInto_def deref_def store_def split: prod.splits)

theorem backup_status_shared_witness:
  "stm_BackupStatus (im_Status (fst (DBInstance_DeepCopyInto ref_apimachinery sample_mem_inst sample_memory))) = Some 1"
proof -
  have b: "stm_BackupStatus (im_Status sample_mem_inst) = Some 1" by (simp add: sample_mem_inst_def)
  obtain y h' where c: "DBInstance_DeepCopyInto ref_apimachinery sample_mem_inst sample_memory = (y, h')"
    by (metis surj_pair)
  from backup_status_shared [OF b c] show ?thesis by (simp add: c)
qed

end

