(* ===== verification/Spec2Isabelle.thy ===== *)
theory Spec2Isabelle
  imports Modify Credentials Startup Greeter DeepCopy
begin

text \<open>
  A verification development of the DBaaS controller for Harvester (the Go module under \<open>src/\<close>): a
  Kubernetes operator that provisions PostgreSQL instances as KubeVirt virtual machines, takes
  backups of them, and offers a small REST gateway.

  \<^bold>\<open>The program.\<close> Users write DBInstance and DBSnapshot objects, directly or through the gateway. The
  DBInstance reconciler (\<open>internal/controller/dbinstance_reconciler.go\<close>) walks an instance through its
  provisioning phases, one handler per phase, each of which calls the Harvester client
  (\<open>internal/harvester\<close>) and records what it created in the status; afterwards it stops, starts,
  resizes and deletes the instance. The DBSnapshot reconciler (\<open>dbsnapshot_reconciler.go\<close>) runs one
  backup command over SSH. The gateway (\<open>internal/gateway\<close>) authenticates requests against a key
  Secret and translates them into writes of DBInstance objects; it loads the tenant configuration
  (\<open>internal/tenants\<close>) at start. \<open>main.go\<close> sets up the manager and runs the gateway and the reconcilers side by
  side. \<open>samples/greeter-db\<close> is a sample client of a provisioned database.

  \<^bold>\<open>The world.\<close> What is not in the repository is a parameter: the record \<open>'s env\<close> of theory \<open>Kube\<close> has a
  field per function the code calls of the API server, apimachinery, controller-runtime, the clock,
  the random source, the cryptographic libraries and SSH. A call with an effect maps a state \<open>'s\<close>
  to an answer and a state, and may answer anything. The laws that some properties need are the
  locales \<open>cr_client\<close> and \<open>snap_client\<close> (a status write gives the object back), \<open>unstructured_api\<close>
  (nested reads and writes), \<open>object_api\<close> which extends it (names and namespaces of objects), \<open>object_store\<close> and
  \<open>secret_api\<close>, which extend that (what was created is stored, Secrets are read back), and \<open>x509_codec\<close>; all are interpreted on \<open>ref_env\<close>, a cluster in memory
  (theory \<open>RefWorld\<close>), on which the witnesses run. \<open>traced E\<close> is the world \<open>E\<close> with a log of
  the calls, and \<open>answered E\<close> one that also logs the answers of the API server, for statements about what was done
  after which answer; the locale \<open>recorder\<close> says what a log is, and the effect lemmas of all components are
  proved in it once.

  \<^bold>\<open>The theories.\<close>
  \<^item> \<open>Prelude\<close>, \<open>Encoding\<close>: errors and outcomes, the parts of \<open>strings\<close>, \<open>strconv\<close>, \<open>fmt\<close>,
    \<open>encoding/base64\<close> and \<open>hash/fnv\<close> that the sources use.
  \<^item> \<open>ApiTypes\<close>: \<open>api/v1alpha1/types.go\<close>, a record per struct and the constants.
  \<^item> \<open>Kube\<close>, \<open>RefWorld\<close>: the world and its instance in memory.
  \<^item> \<open>HvCommon\<close>, \<open>HvNetwork\<close>, \<open>HvVM\<close>, \<open>CloudInit\<close>, \<open>KeyGen\<close>: \<open>internal/harvester\<close>, one definition per
    function of \<open>client.go\<close>, \<open>cloudinit.go\<close>, \<open>tlsgen.go\<close> and \<open>sshkeygen.go\<close>, with the objects built
    field by field.
  \<^item> \<open>InstanceCtl\<close>: the DBInstance reconciler. A handler maps the object and the world to the outcome
    of the Go call (a result, or a panic), the object as left in memory, and the world.
    \<open>reconcileModify\<close> runs its two goroutines as threads of one API call per step under a schedule.
  \<^item> \<open>Lifecycle\<close>: the abstract machine of an instance (\<open>pstep\<close>, \<open>lstep\<close>), the invariant \<open>wf_inst\<close>, the
    contract \<open>handler\<close> that each handler is an interpretation of, and reachable objects.
  \<^item> \<open>InstanceProps\<close>: progress, deletion, failure (the histories \<open>after_failure\<close> of an instance that was given up), start, stop
    and repetition.
  \<^item> \<open>Modify\<close>: the two goroutines of a modification under every schedule; the locale
    \<open>kinds_independent\<close> says that calls on objects of different kinds commute.
  \<^item> \<open>SnapshotCtl\<close>: the DBSnapshot reconciler and its machine \<open>snap_step\<close>.
  \<^item> \<open>Credentials\<close>: the Secret between VM creation and the snapshot reconciler, over the locale
    \<open>secret_api\<close>.
  \<^item> \<open>DeepCopy\<close>: \<open>api/v1alpha1/zz_generated.deepcopy.go\<close> over an explicit memory of cells; the locale
    \<open>struct_copy\<close> is what a copy promises, \<open>metav1\<close> what is expected of the copies of
    apimachinery's types.
  \<^item> \<open>Tenants\<close>, \<open>Gateway\<close>: configuration, authentication, routing, handlers, and the access matrix
    \<open>permits\<close> with the contract \<open>endpoint\<close> of the handlers.
  \<^item> \<open>Startup\<close>: \<open>main.go\<close> and the \<open>SetupWithManager\<close> methods: the set-up calls, and the running process as the
    step relation \<open>sys_step\<close> between the gateway, the two reconcilers and the manager. A request and a reconcile
    is one step, and reconciles may come at any time, also before the cache has synced or while another
    replica leads: more runs than the program has.
  \<^item> \<open>Greeter\<close>: \<open>samples/greeter-db/main.go\<close> over an abstract database, the record \<open>'s sqldb\<close>; the
    locale \<open>greeting_db\<close> says what is expected of PostgreSQL for the two statements of the handlers, and is interpreted
    on the table in memory \<open>ref_pg\<close>.

  \<^bold>\<open>What is shown.\<close> Status writes refine the abstract machine; reachable objects are well-formed and
  never make the reconciler panic; provisioning moves on at each step and is complete after seven
  steps that neither fail nor wait; nothing is deleted but an instance's own resources, after a
  request and without protection; every interleaving of the teardown deletes the same; a snapshot
  runs at most one command and then stays final; the gateway makes no call that the role of the key
  does not permit; and for the client functions, what they create, in which order, what an edit
  leaves alone, which subnets, passwords and schedules they choose, and that keys and Secrets are
  read back as written; the two goroutines of a modification cannot be told from running one after the
  other; the credentials of a new VM fit together; deep copies are separate from their originals,
  all but the backup status; each part of the process keeps to its duties in every run; the sample client waits
  for its database for a bounded time, sends it only fixed statements, and keeps names as they were sent. Some
  theorems show what the code does not do: a failed instance is never
  retried, a stopped one is reported available again, the metrics Service is left behind, a revoked
  key is still served, a retried creation records a CA certificate that is not the one in use,
  cluster-wide names clash, renewal panics on text that is not PEM, a gateway that ended is never
  restarted nor noticed.

  \<^bold>\<open>Integers and loops.\<close> The hash is computed on 32-bit words and the cron hour with 64-bit
  wrap-around. All definitions are total: the loops are over lists, or decrease a measure (the text
  left in the scanners, the steps left in the threads, the attempts left in \<open>wait_ready\<close>), so no fuel
  is used.

  \<^bold>\<open>Not modelled.\<close> The DNS registrar (no callers, its only implementation logs), the registration of the
  API types with a scheme beyond its failure, logging, contexts and timeouts, the bytes of JSON
  answers, and the Kubernetes manifests. Three simplifications: the environment variable with the gateway's namespace is read
  at start and not at each request, \<open>%q\<close> leaves bytes from 0x80 on as they are, and a condition of a status, which no
  code reads, is a string. A request to the sample client that outlives the ten seconds of \<open>Shutdown\<close> is left out.
\<close>

section \<open>From the gateway to the virtual machine\<close>


text \<open>An available instance whose VM is running, through the gateway and the reconciler.\<close>

definition to_halt :: DBInstance where
  "to_halt = set_res (\<lambda>r. r\<lparr>res_VMName := ''pg-db''\<rparr>) (set_phase StatusAvailable sample_inst)"

definition halt_cluster :: cluster where
  "halt_cluster = ready_cluster\<lparr>cl_insts := [to_halt]\<rparr>"


end
